(* ===== verification/Prelude.thy ===== *)
theory Prelude
  imports Main "HOL-Library.State_Monad" "HOL-Library.Word" "HOL-Library.Sublist" "HOL-Library.Multiset"
begin

text \<open>
  Shared vocabulary of the development: Go's error values and \<^verbatim>\<open>errors.Is\<close>, the outcome of
  a Go call (a result, an error, or a run-time panic), the control-flow idioms of the code
  (\<^verbatim>\<open>if err != nil { return }\<close>, \<^verbatim>\<open>fmt.Errorf("...: %w", err)\<close>, \<^verbatim>\<open>defer\<close>) as combinators of the
  state monad, and the lemma collections the component theories use.
\<close>

named_theorems exec_simps \<open>equations that run a program of the model symbolically\<close>
named_theorems emit_rules \<open>which external calls a program can make\<close>
named_theorems keep_rules \<open>which part of the world a program leaves alone\<close>
named_theorems safe_rules \<open>which programs cannot panic\<close>
named_theorems balance_rules \<open>which resources a program gives back\<close>


section \<open>Error values\<close>

text \<open>
  An error of the program is a value with a text and, for the wrapping errors, a cause.
  \<open>ErrText\<close> is \<^verbatim>\<open>errors.New\<close> and \<^verbatim>\<open>fmt.Errorf\<close> without \<^verbatim>\<open>%w\<close>; \<open>ErrWrap p e\<close> is
  \<^verbatim>\<open>fmt.Errorf(p + "%w", e)\<close>; \<open>ErrJoin\<close> is \<^verbatim>\<open>errors.Join\<close>; \<open>ErrExternal\<close> is any other error
  that a library hands back. The sentinels are constructors of their own, because
  \<^verbatim>\<open>errors.Is\<close> compares them by identity and not by their text.
\<close>

datatype err =
    ErrText string
  | ErrWrap string err
  | ErrJoin "err list"
  | ErrVideoNotFound
  | ErrJobNotFound
  | ErrRecordNotFound
  | ErrContextCanceled
  | ErrDeadlineExceeded
  | ErrServerClosed
  | ErrExternal string

fun join_lines :: "string list \<Rightarrow> string" where
  "join_lines [] = []"
| "join_lines [s] = s"
| "join_lines (s # t # ts) = s @ CHR 0x0A # join_lines (t # ts)"

text \<open>The method \<^verbatim>\<open>Error()\<close>.\<close>

fun err_text :: "err \<Rightarrow> string" where
  "err_text (ErrText s) = s"
| "err_text (ErrWrap p e) = p @ err_text e"
| "err_text (ErrJoin es) = join_lines (map err_text es)"
| "err_text ErrVideoNotFound = ''video does not exist''"
| "err_text ErrJobNotFound = ''job does not exist''"
| "err_text ErrRecordNotFound = ''record not found''"
| "err_text ErrContextCanceled = ''context canceled''"
| "err_text ErrDeadlineExceeded = ''context deadline exceeded''"
| "err_text ErrServerClosed = ''http: Server closed''"
| "err_text (ErrExternal s) = s"

text \<open>\<^verbatim>\<open>errors.Is(e, target)\<close>: the error itself or one it wraps is the target.\<close>

fun err_is :: "err \<Rightarrow> err \<Rightarrow> bool" where
  "err_is (ErrWrap p e) t \<longleftrightarrow> ErrWrap p e = t \<or> err_is e t"
| "err_is (ErrJoin es) t \<longleftrightarrow> ErrJoin es = t \<or> list_ex (\<lambda>e. err_is e t) es"
| "err_is e t \<longleftrightarrow> e = t"

lemma err_is_refl [simp]: "err_is e e"
  by (cases e) auto


section \<open>Outcomes of calls\<close>

text \<open>
  A Go function with an error result returns \<open>Ok\<close> or \<open>Err\<close>; a nil dereference, an index out
  of range or a send on a closed channel is \<open>Panic\<close>, which no caller of this program recovers.
\<close>

datatype 'a res = Ok 'a | Err err | Panic

definition res_of_sum :: "err + 'a \<Rightarrow> 'a res" where
  "res_of_sum r = (case r of Inl e \<Rightarrow> Err e | Inr x \<Rightarrow> Ok x)"

definition res_of_option :: "err option \<Rightarrow> unit res" where
  "res_of_option r = (case r of Some e \<Rightarrow> Err e | None \<Rightarrow> Ok ())"

lemma res_of_sum_simps [simp]:
  "res_of_sum (Inl e) = Err e" "res_of_sum (Inr x) = Ok x"
  by (simp_all add: res_of_sum_def)

lemma res_of_option_simps [simp]:
  "res_of_option (Some e) = Err e" "res_of_option None = Ok ()"
  by (simp_all add: res_of_option_def)

lemma res_of_sum_iff [simp]:
  "res_of_sum r = Ok x \<longleftrightarrow> r = Inr x"
  "res_of_sum r = Err e \<longleftrightarrow> r = Inl e"
  "res_of_sum r \<noteq> Panic"
  by (cases r; auto)+

lemma res_of_option_iff [simp]:
  "res_of_option r = Ok u \<longleftrightarrow> r = None"
  "res_of_option r = Err e \<longleftrightarrow> r = Some e"
  "res_of_option r \<noteq> Panic"
  by (cases r; auto)+


section \<open>Programs as state transformers\<close>

abbreviation ret :: "'a \<Rightarrow> ('s, 'a) state" where
  "ret \<equiv> State_Monad.return"

text \<open>
  \<open>attempt m f\<close> is \<^verbatim>\<open>x, err := m; if err != nil { return err }\<close> followed by \<open>f x\<close>;
  \<open>wrap p m\<close> replaces the error by \<^verbatim>\<open>fmt.Errorf(p + "%w", err)\<close>;
  \<open>deferring d m\<close> is \<^verbatim>\<open>defer d\<close> in front of \<open>m\<close>: it runs on every return.
\<close>

definition attempt :: "('s, 'a res) state \<Rightarrow> ('a \<Rightarrow> ('s, 'b res) state) \<Rightarrow> ('s, 'b res) state" where
  "attempt m f = do {
     r \<leftarrow> m;
     case r of Ok x \<Rightarrow> f x | Err e \<Rightarrow> ret (Err e) | Panic \<Rightarrow> ret Panic
   }"

definition wrap :: "string \<Rightarrow> ('s, 'a res) state \<Rightarrow> ('s, 'a res) state" where
  "wrap p m = do {
     r \<leftarrow> m;
     ret (case r of Ok x \<Rightarrow> Ok x | Err e \<Rightarrow> Err (ErrWrap p e) | Panic \<Rightarrow> Panic)
   }"

definition deferring :: "('s, 'c) state \<Rightarrow> ('s, 'a) state \<Rightarrow> ('s, 'a) state" where
  "deferring d m = do { r \<leftarrow> m; _ \<leftarrow> d; ret r }"

lemma run_attempt [exec_simps]:
  "run_state (attempt m f) s =
     (case run_state m s of (r, s') \<Rightarrow>
        (case r of Ok x \<Rightarrow> run_state (f x) s' | Err e \<Rightarrow> (Err e, s') | Panic \<Rightarrow> (Panic, s')))"
  by (auto simp: attempt_def split: prod.splits res.splits)

lemma run_wrap [exec_simps]:
  "run_state (wrap p m) s =
     (case run_state m s of (r, s') \<Rightarrow>
        (case r of Ok x \<Rightarrow> Ok x | Err e \<Rightarrow> Err (ErrWrap p e) | Panic \<Rightarrow> Panic, s'))"
  by (auto simp: wrap_def split: prod.splits)

lemma run_deferring [exec_simps]:
  "run_state (deferring d m) s =
     (case run_state m s of (r, s') \<Rightarrow> (r, snd (run_state d s')))"
  by (auto simp: deferring_def split: prod.splits)

text \<open>A method call through a pointer that may be nil.\<close>

definition deref :: "'p option \<Rightarrow> ('p \<Rightarrow> ('s, 'a res) state) \<Rightarrow> ('s, 'a res) state" where
  "deref p f = (case p of None \<Rightarrow> ret Panic | Some x \<Rightarrow> f x)"

lemma deref_simps [simp]: "deref None f = ret Panic" "deref (Some x) f = f x"
  by (simp_all add: deref_def)

text \<open>The value and the final state of a program.\<close>

abbreviation val :: "('s, 'a) state \<Rightarrow> 's \<Rightarrow> 'a" where
  "val m s \<equiv> fst (run_state m s)"

abbreviation post :: "('s, 'a) state \<Rightarrow> 's \<Rightarrow> 's" where
  "post m s \<equiv> snd (run_state m s)"

lemma val_bind [simp]: "val (State_Monad.bind m f) s = val (f (val m s)) (post m s)"
  by (simp add: split_beta)

lemma post_bind [simp]: "post (State_Monad.bind m f) s = post (f (val m s)) (post m s)"
  by (simp add: split_beta)


text \<open>Programs that never panic.\<close>

definition panic_free :: "('s, 'a res) state \<Rightarrow> bool" where
  "panic_free m \<longleftrightarrow> (\<forall>s. val m s \<noteq> Panic)"

lemma panic_freeI: "(\<And>s. val m s \<noteq> Panic) \<Longrightarrow> panic_free m"
  by (simp add: panic_free_def)

lemma panic_freeD: "panic_free m \<Longrightarrow> val m s \<noteq> Panic"
  by (simp add: panic_free_def)

lemma panic_free_ret [safe_rules]: "r \<noteq> Panic \<Longrightarrow> panic_free (ret r)"
  by (simp add: panic_free_def)

lemma panic_free_bind [safe_rules]: "(\<And>x. panic_free (f x)) \<Longrightarrow> panic_free (State_Monad.bind m f)"
  by (simp add: panic_free_def split_beta)

lemma panic_free_attempt:
  "panic_free m \<Longrightarrow> (\<And>x s. val m s = Ok x \<Longrightarrow> panic_free (f x)) \<Longrightarrow> panic_free (attempt m f)"
  unfolding panic_free_def by (auto simp: run_attempt split_beta split: res.split)

lemma panic_free_wrap [safe_rules]: "panic_free m \<Longrightarrow> panic_free (wrap p m)"
  unfolding panic_free_def by (auto simp: run_wrap split_beta split: res.split)

lemma panic_free_deferring [safe_rules]: "panic_free m \<Longrightarrow> panic_free (deferring d m)"
  unfolding panic_free_def by (simp add: run_deferring split_beta)


section \<open>Lists of workers\<close>

text \<open>Changing one element of a list changes a sum over it by that element.\<close>

lemma sum_list_update_add:
  fixes f :: "'a \<Rightarrow> 'b::comm_monoid_add"
  assumes "i < length xs"
  shows "(\<Sum>x\<leftarrow>xs[i := v]. f x) + f (xs ! i) = (\<Sum>x\<leftarrow>xs. f x) + f v"
proof -
  have "(\<Sum>x\<leftarrow>xs. f x) = (\<Sum>x\<leftarrow>take i xs. f x) + f (xs ! i) + (\<Sum>x\<leftarrow>drop (Suc i) xs. f x)"
    by (subst id_take_nth_drop [OF assms]) (simp add: add.assoc)
  moreover have "(\<Sum>x\<leftarrow>xs[i := v]. f x) = (\<Sum>x\<leftarrow>take i xs. f x) + f v + (\<Sum>x\<leftarrow>drop (Suc i) xs. f x)"
    by (subst upd_conv_take_nth_drop [OF assms]) (simp add: add.assoc)
  ultimately show ?thesis by (simp add: ac_simps)
qed

text \<open>Decimal numerals, as \<^verbatim>\<open>fmt\<close> prints them.\<close>

fun show_nat :: "nat \<Rightarrow> string" where
  "show_nat n = (if n < 10 then [char_of (48 + n)] else show_nat (n div 10) @ [char_of (48 + n mod 10)])"

declare show_nat.simps [simp del]

lemma show_nat_nonempty [simp]: "show_nat n \<noteq> []"
  by (subst show_nat.simps) simp

end
