(* ===== verification/Domain.thy ===== *)
theory Domain
  imports Prelude
begin

text \<open>
  The entities of \<^verbatim>\<open>domain/\<close>: \<^verbatim>\<open>Video\<close> and \<^verbatim>\<open>Job\<close> with their constructors and validation.
  \<^verbatim>\<open>github.com/asaskevich/govalidator\<close>, \<^verbatim>\<open>github.com/satori/go.uuid\<close> and the clock are the
  fields of \<open>lib\<close>. A \<^verbatim>\<open>time.Time\<close> is an integer (nanoseconds). A job's columns are the record
  \<open>job_row\<close>; a \<open>job\<close> adds the pointer to its video. The jobs a video points to are rows:
  \<^verbatim>\<open>Preload("Jobs")\<close> loads them without following their own \<^verbatim>\<open>Video\<close> pointer, and the code
  never reads it there.
\<close>

type_synonym time = int

record job_row =
  job_ID :: string
  job_OutputBucketPath :: string
  job_Status :: string
  job_VideoID :: string
  job_Error :: string
  job_CreatedAt :: time
  job_UpdatedAt :: time

record video =
  video_ID :: string
  video_ResourceID :: string
  video_FilePath :: string
  video_CreatedAt :: time
  video_Jobs :: "job_row list"

record job = job_row +
  job_Video :: "video option"

text \<open>The part of a job that is a row of the jobs table.\<close>

definition row_of :: "job \<Rightarrow> job_row" where
  "row_of j = job_row.truncate j"

lemma row_of_simps [simp]:
  "job_ID (row_of j) = job_ID j"
  "job_OutputBucketPath (row_of j) = job_OutputBucketPath j"
  "job_Status (row_of j) = job_Status j"
  "job_VideoID (row_of j) = job_VideoID j"
  "job_Error (row_of j) = job_Error j"
  "job_CreatedAt (row_of j) = job_CreatedAt j"
  "job_UpdatedAt (row_of j) = job_UpdatedAt j"
  by (simp_all add: row_of_def job_row.defs)

text \<open>The third-party calls of the package and the clock.\<close>

record 'w lib =
  lib_now :: "'w \<Rightarrow> time \<times> 'w"
  lib_uuid :: "'w \<Rightarrow> string \<times> 'w"
  lib_validate_job :: "job \<Rightarrow> err option"
  lib_validate_video :: "video \<Rightarrow> err option"

text \<open>\<^verbatim>\<open>NewVideo\<close>: an empty video.\<close>

definition NewVideo :: video where
  "NewVideo = \<lparr>video_ID = '''', video_ResourceID = '''', video_FilePath = '''',
     video_CreatedAt = 0, video_Jobs = []\<rparr>"

definition Video_Validate :: "'w lib \<Rightarrow> video \<Rightarrow> unit res" where
  "Video_Validate L v = (case lib_validate_video L v of Some e \<Rightarrow> Err e | None \<Rightarrow> Ok ())"

definition Job_Validate :: "'w lib \<Rightarrow> job \<Rightarrow> unit res" where
  "Job_Validate L j = (case lib_validate_job L j of Some e \<Rightarrow> Err e | None \<Rightarrow> Ok ())"

text \<open>\<^verbatim>\<open>(*Job).prepare\<close> draws the id and reads the clock twice.\<close>

definition prepare :: "'w lib \<Rightarrow> job \<Rightarrow> ('w, job) state" where
  "prepare L j = do {
     i \<leftarrow> State (lib_uuid L);
     c \<leftarrow> State (lib_now L);
     u \<leftarrow> State (lib_now L);
     ret (j\<lparr>job_ID := i, job_CreatedAt := c, job_UpdatedAt := u\<rparr>)
   }"

definition NewJob :: "'w lib \<Rightarrow> string \<Rightarrow> string \<Rightarrow> video option \<Rightarrow> ('w, job res) state" where
  "NewJob L output status v = do {
     job \<leftarrow> prepare L \<lparr>job_ID = '''', job_OutputBucketPath = output, job_Status = status,
               job_VideoID = '''', job_Error = '''', job_CreatedAt = 0, job_UpdatedAt = 0,
               job_Video = v\<rparr>;
     case Job_Validate L job of Err e \<Rightarrow> ret (Err e) | Panic \<Rightarrow> ret Panic | Ok _ \<Rightarrow> ret (Ok job)
   }"

text \<open>A job that \<^verbatim>\<open>NewJob\<close> returns passed validation and carries the arguments.\<close>

lemma NewJob_Ok:
  assumes "val (NewJob L out st v) w = Ok j"
  shows "job_OutputBucketPath j = out" "job_Status j = st" "job_Video j = v" "job_Error j = ''''"
    "lib_validate_job L j = None" "job_ID j = fst (lib_uuid L w)"
  using assms
  by (auto simp: NewJob_def prepare_def Job_Validate_def split: prod.splits option.splits)

lemma NewJob_Err:
  assumes "val (NewJob L out st v) w = Err e"
  shows "\<exists>j. lib_validate_job L j = Some e"
  using assms
  by (auto simp: NewJob_def prepare_def Job_Validate_def split: prod.splits option.splits)

lemma NewJob_no_panic: "val (NewJob L out st v) w \<noteq> Panic"
  by (auto simp: NewJob_def prepare_def Job_Validate_def split: prod.splits option.splits)

end
