(* ===== verification/World.thy ===== *)
theory World
  imports Domain
begin

text \<open>
  The state a program of the model runs in: the outside world, of a type \<open>'w\<close> that stays
  abstract (database, broker, storage, disk, clock), and the log of the external calls made so
  far with their arguments and outcomes. Every call that leaves the repository is made through
  \<open>perform\<close>, which asks the world for the outcome and appends one event, or through \<open>silently\<close>
  for the calls nobody can observe (clock, random ids).

  \<open>emits P m\<close> says that \<open>m\<close> only appends to the log, and only events that satisfy \<open>P\<close>.
\<close>

section \<open>External calls\<close>

text \<open>The context a call runs under: \<^verbatim>\<open>context.Background()\<close>, \<^verbatim>\<open>context.WithTimeout\<close> of a number of
  nanoseconds on it, or the context of an HTTP request.\<close>

datatype ctx = Background | WithTimeout "64 word" | RequestCtx

type_synonym handle = nat

text \<open>GORM calls of \<^verbatim>\<open>internal/repositories\<close>, with the record written or the id looked up.\<close>

datatype db_event =
    EvCreateVideo video "err option"
  | EvFirstVideo string "err option"
  | EvCreateJob job "err option"
  | EvFirstJob string "err option"
  | EvSaveJob job "err option"

text \<open>Cloud Storage, disk and process calls of \<^verbatim>\<open>internal/video\<close> and \<^verbatim>\<open>internal/upload\<close>.\<close>

datatype media_event =
    EvNewClient ctx "err + handle"
  | EvCloseClient handle "err option"
  | EvNewReader ctx handle string string "err + handle"
  | EvCloseReader handle
  | EvNewWriter ctx handle string string handle
  | EvCloseWriter handle "err option"
  | EvCreateFile string "err + handle"
  | EvOpenFile string "err + handle"
  | EvCloseFile handle
  | EvCopy handle handle "err option"
  | EvMkdir string "err option"
  | EvExec ctx string "string list" "err option"
  | EvRemoveAll string "err option"

text \<open>RabbitMQ calls of \<^verbatim>\<open>internal/queue\<close> and of the delivery acknowledger.\<close>

datatype amqp_event =
    EvDial string "err + handle"
  | EvOpenChannel handle "err + handle"
  | EvQos handle int "err option"
  | EvCloseChannel handle "err option"
  | EvCloseConn handle "err option"
  | EvExchangeDeclare handle string "err option"
  | EvQueueDeclare handle string "string option" "err option"
  | EvQueueBind handle string string "err option"
  | EvPublish handle ctx string string "err option"
  | EvConsume handle string string bool "err option"
  | EvAck handle bool "err option"
  | EvNack handle bool bool "err option"

text \<open>The calls that open, set up, ping and close the database, of \<^verbatim>\<open>internal/database\<close> and \<^verbatim>\<open>cmd\<close>.\<close>

datatype boot_event =
    EvOpenPostgres string "err + handle"
  | EvOpenSqlite string "err + handle"
  | EvMigrate handle "err option"
  | EvSqlDB handle "err option"
  | EvPing handle ctx "err option"
  | EvCloseSqlDB handle "err option"

datatype event = DB db_event | Media media_event | AMQP amqp_event | Boot boot_event

record 'w world =
  ext :: 'w
  log :: "event list"

type_synonym ('w, 'a) io = "('w world, 'a) state"

text \<open>The Go runtime: the number of processors, and the scheduler's choice among \<open>n\<close> moves.\<close>

record 'w runtime =
  rt_numcpu :: nat
  rt_pick :: "nat \<Rightarrow> 'w \<Rightarrow> nat \<times> 'w"

definition perform :: "('w \<Rightarrow> 'a \<times> 'w) \<Rightarrow> ('a \<Rightarrow> event) \<Rightarrow> ('w, 'a) io" where
  "perform f ev = State (\<lambda>w. case f (ext w) of (r, x) \<Rightarrow>
     (r, w\<lparr>ext := x, log := log w @ [ev r]\<rparr>))"

definition silently :: "('w, 'a) state \<Rightarrow> ('w, 'a) io" where
  "silently m = State (\<lambda>w. case run_state m (ext w) of (r, x) \<Rightarrow> (r, w\<lparr>ext := x\<rparr>))"

lemma run_perform [exec_simps]:
  "run_state (perform f ev) w =
     (fst (f (ext w)), w\<lparr>ext := snd (f (ext w)), log := log w @ [ev (fst (f (ext w)))]\<rparr>)"
  by (simp add: perform_def split_beta)

lemma run_silently [exec_simps]:
  "run_state (silently m) w = (val m (ext w), w\<lparr>ext := post m (ext w)\<rparr>)"
  by (simp add: silently_def split_beta)


text \<open>A call whose error the program reads as an outcome: with a value, or with none.\<close>

definition call :: "('w \<Rightarrow> (err + 'a) \<times> 'w) \<Rightarrow> (err + 'a \<Rightarrow> event) \<Rightarrow> ('w, 'a res) io" where
  "call f ev = do { r \<leftarrow> perform f ev; ret (res_of_sum r) }"

definition call_unit :: "('w \<Rightarrow> err option \<times> 'w) \<Rightarrow> (err option \<Rightarrow> event) \<Rightarrow> ('w, unit res) io" where
  "call_unit f ev = do { r \<leftarrow> perform f ev; ret (res_of_option r) }"

lemma run_call [exec_simps]:
  "run_state (call f ev) w =
     (res_of_sum (fst (f (ext w))),
      w\<lparr>ext := snd (f (ext w)), log := log w @ [ev (fst (f (ext w)))]\<rparr>)"
  by (simp add: call_def run_perform)

lemma run_call_unit [exec_simps]:
  "run_state (call_unit f ev) w =
     (res_of_option (fst (f (ext w))),
      w\<lparr>ext := snd (f (ext w)), log := log w @ [ev (fst (f (ext w)))]\<rparr>)"
  by (simp add: call_unit_def run_perform)


section \<open>What a program can do to the log\<close>

definition emits :: "(event \<Rightarrow> bool) \<Rightarrow> ('w, 'a) io \<Rightarrow> bool" where
  "emits P m \<longleftrightarrow> (\<forall>w. \<exists>es. log (post m w) = log w @ es \<and> list_all P es)"

text \<open>The events of one run.\<close>

definition events :: "('w, 'a) io \<Rightarrow> 'w world \<Rightarrow> event list" where
  "events m w = drop (length (log w)) (log (post m w))"

lemma emitsI: "(\<And>w. \<exists>es. log (post m w) = log w @ es \<and> list_all P es) \<Longrightarrow> emits P m"
  by (simp add: emits_def)

lemma emits_log: "emits P m \<Longrightarrow> log (post m w) = log w @ events m w"
  unfolding emits_def events_def by (metis append_eq_conv_conj)

lemma emits_events: "emits P m \<Longrightarrow> list_all P (events m w)"
  unfolding emits_def events_def by (metis append_eq_conv_conj)

lemma emits_mono: "emits P m \<Longrightarrow> (\<And>e. P e \<Longrightarrow> Q e) \<Longrightarrow> emits Q m"
  unfolding emits_def by (metis (mono_tags, lifting) list.pred_mono_strong)

lemma emits_ret [emit_rules]: "emits P (ret x)"
  by (rule emitsI) simp

lemma emits_bind [emit_rules]:
  assumes "emits P m" "\<And>x. emits P (f x)"
  shows "emits P (State_Monad.bind m f)"
proof (rule emitsI)
  fix w
  obtain es where es: "log (post m w) = log w @ es" "list_all P es"
    using assms(1) unfolding emits_def by blast
  obtain fs where fs: "log (post (f (val m w)) (post m w)) = log (post m w) @ fs" "list_all P fs"
    using assms(2) unfolding emits_def by blast
  show "\<exists>es. log (post (State_Monad.bind m f) w) = log w @ es \<and> list_all P es"
    by (rule exI [of _ "es @ fs"]) (use es fs in \<open>simp add: split_beta\<close>)
qed

lemma emits_perform [emit_rules]: "(\<And>r. P (ev r)) \<Longrightarrow> emits P (perform f ev)"
  by (rule emitsI) (simp add: exec_simps)

lemma emits_silently [emit_rules]: "emits P (silently m)"
  by (rule emitsI) (simp add: exec_simps)

lemma emits_call [emit_rules]: "(\<And>r. P (ev r)) \<Longrightarrow> emits P (call f ev)"
  "(\<And>r. P (ev' r)) \<Longrightarrow> emits P (call_unit f' ev')"
  by (rule emitsI, simp add: exec_simps)+

lemma emits_deref [emit_rules]: "(\<And>x. p = Some x \<Longrightarrow> emits P (f x)) \<Longrightarrow> emits P (deref p f)"
  by (cases p) (simp_all add: emits_ret)

lemma emits_if [emit_rules]: "(b \<Longrightarrow> emits P m) \<Longrightarrow> (\<not> b \<Longrightarrow> emits P n) \<Longrightarrow> emits P (if b then m else n)"
  by simp

lemma emits_case_option [emit_rules]:
  "(r = None \<Longrightarrow> emits P m) \<Longrightarrow> (\<And>x. r = Some x \<Longrightarrow> emits P (f x)) \<Longrightarrow> emits P (case r of None \<Rightarrow> m | Some x \<Rightarrow> f x)"
  by (simp split: option.split)

lemma emits_case_sum [emit_rules]:
  "(\<And>e. r = Inl e \<Longrightarrow> emits P (f e)) \<Longrightarrow> (\<And>x. r = Inr x \<Longrightarrow> emits P (g x)) \<Longrightarrow>
    emits P (case r of Inl e \<Rightarrow> f e | Inr x \<Rightarrow> g x)"
  by (simp split: sum.split)

lemma emits_case_res [emit_rules]:
  "(\<And>x. r = Ok x \<Longrightarrow> emits P (f x)) \<Longrightarrow> (\<And>e. r = Err e \<Longrightarrow> emits P (g e)) \<Longrightarrow> (r = Panic \<Longrightarrow> emits P h)
     \<Longrightarrow> emits P (case r of Ok x \<Rightarrow> f x | Err e \<Rightarrow> g e | Panic \<Rightarrow> h)"
  by (simp split: res.split)

lemma emits_case_prod [emit_rules]:
  "(\<And>a b. p = (a, b) \<Longrightarrow> emits P (f a b)) \<Longrightarrow> emits P (case p of (a, b) \<Rightarrow> f a b)"
  by (simp split: prod.split)

lemma emits_attempt [emit_rules]:
  "emits P m \<Longrightarrow> (\<And>x. emits P (f x)) \<Longrightarrow> emits P (attempt m f)"
  unfolding attempt_def by (intro emit_rules)

lemma emits_wrap [emit_rules]: "emits P m \<Longrightarrow> emits P (wrap p m)"
  unfolding wrap_def by (intro emit_rules)

lemma emits_deferring [emit_rules]: "emits P d \<Longrightarrow> emits P m \<Longrightarrow> emits P (deferring d m)"
  unfolding deferring_def by (intro emit_rules)

lemma emits_let [emit_rules]: "emits P (f x) \<Longrightarrow> emits P (let y = x in f y)"
  by simp


section \<open>Symbolic runs over the log\<close>

text \<open>The events of a composed program are those of its parts, in order.\<close>

lemma events_ret [simp]: "events (ret x) w = []"
  by (simp add: events_def)

lemma events_perform [simp]: "events (perform f ev) w = [ev (fst (f (ext w)))]"
  by (simp add: events_def exec_simps)

lemma events_silently [simp]: "events (silently m) w = []"
  by (simp add: events_def exec_simps)

lemma events_call [simp]:
  "events (call f ev) w = [ev (fst (f (ext w)))]"
  "events (call_unit f' ev') w = [ev' (fst (f' (ext w)))]"
  by (simp_all add: events_def exec_simps)

lemma events_eqI: "log (post m w) = log w @ es \<Longrightarrow> events m w = es"
  by (simp add: events_def)

lemma events_bind:
  assumes "emits P m" "\<And>x. emits Q (f x)"
  shows "events (State_Monad.bind m f) w = events m w @ events (f (val m w)) (post m w)"
  by (rule events_eqI)
     (simp add: post_bind emits_log [OF assms(1)] emits_log [OF assms(2)] del: run_state_bind)

lemma events_attempt:
  assumes "emits P m" "\<And>x. emits Q (f x)"
  shows "events (attempt m f) w =
    events m w @ (case val m w of Ok x \<Rightarrow> events (f x) (post m w) | _ \<Rightarrow> [])"
  by (rule events_eqI)
     (simp add: run_attempt split_beta emits_log [OF assms(1)] emits_log [OF assms(2)] split: res.split)

lemma events_wrap [simp]: "emits P m \<Longrightarrow> events (wrap p m) w = events m w"
  by (simp add: events_def run_wrap split_beta)

lemma events_deferring:
  assumes "emits P m" "emits Q d"
  shows "events (deferring d m) w = events m w @ events d (post m w)"
  by (rule events_eqI)
     (simp add: run_deferring split_beta emits_log [OF assms(1)] emits_log [OF assms(2)])


section \<open>What a program leaves alone\<close>

text \<open>
  \<open>keeps V m\<close>: the part of the outside world that \<open>V\<close> reads is the same after \<open>m\<close>. The rules
  follow the structure of \<open>m\<close>, as those of \<open>emits\<close> do.
\<close>

definition keeps :: "('w \<Rightarrow> 'v) \<Rightarrow> ('w, 'a) io \<Rightarrow> bool" where
  "keeps V m \<longleftrightarrow> (\<forall>w. V (ext (post m w)) = V (ext w))"

lemma keepsI: "(\<And>w. V (ext (post m w)) = V (ext w)) \<Longrightarrow> keeps V m"
  by (simp add: keeps_def)

lemma keepsD: "keeps V m \<Longrightarrow> V (ext (post m w)) = V (ext w)"
  by (simp add: keeps_def)

lemma keeps_ret [keep_rules]: "keeps V (ret x)"
  by (rule keepsI) simp

lemma keeps_bind [keep_rules]:
  "keeps V m \<Longrightarrow> (\<And>x. keeps V (f x)) \<Longrightarrow> keeps V (State_Monad.bind m f)"
  by (simp add: keeps_def split_beta)

lemma keeps_perform [keep_rules]: "(\<And>x. V (snd (f x)) = V x) \<Longrightarrow> keeps V (perform f ev)"
  by (rule keepsI) (simp add: exec_simps)

lemma keeps_call [keep_rules]:
  "(\<And>x. V (snd (f x)) = V x) \<Longrightarrow> keeps V (call f ev)"
  "(\<And>x. V (snd (f' x)) = V x) \<Longrightarrow> keeps V (call_unit f' ev')"
  by (rule keepsI, simp add: exec_simps)+

lemma keeps_attempt [keep_rules]:
  "keeps V m \<Longrightarrow> (\<And>x. keeps V (f x)) \<Longrightarrow> keeps V (attempt m f)"
  by (simp add: keeps_def run_attempt split_beta split: res.split)

lemma keeps_wrap [keep_rules]: "keeps V m \<Longrightarrow> keeps V (wrap p m)"
  by (simp add: keeps_def run_wrap split_beta)

lemma keeps_deferring [keep_rules]: "keeps V d \<Longrightarrow> keeps V m \<Longrightarrow> keeps V (deferring d m)"
  by (simp add: keeps_def run_deferring split_beta)

lemma keeps_deref [keep_rules]: "(\<And>x. p = Some x \<Longrightarrow> keeps V (f x)) \<Longrightarrow> keeps V (deref p f)"
  by (cases p) (simp_all add: keeps_ret)

lemma keeps_if [keep_rules]:
  "(b \<Longrightarrow> keeps V m) \<Longrightarrow> (\<not> b \<Longrightarrow> keeps V n) \<Longrightarrow> keeps V (if b then m else n)"
  by simp

lemma keeps_let [keep_rules]: "(\<And>x. x = t \<Longrightarrow> keeps V (f x)) \<Longrightarrow> keeps V (let x = t in f x)"
  by (simp add: Let_def)

lemma keeps_get [keep_rules]: "(\<And>w. keeps V (f w)) \<Longrightarrow> keeps V (State_Monad.bind State_Monad.get f)"
  by (simp add: keeps_def)

lemma keeps_case_prod [keep_rules]:
  "(\<And>x y. z = (x, y) \<Longrightarrow> keeps V (f x y)) \<Longrightarrow> keeps V (case z of (x, y) \<Rightarrow> f x y)"
  by (cases z) simp

lemma keeps_case_sum [keep_rules]:
  "(\<And>x. r = Inl x \<Longrightarrow> keeps V (f x)) \<Longrightarrow> (\<And>x. r = Inr x \<Longrightarrow> keeps V (g x)) \<Longrightarrow>
     keeps V (case r of Inl x \<Rightarrow> f x | Inr x \<Rightarrow> g x)"
  by (cases r) simp_all

lemma keeps_case_res [keep_rules]:
  "(\<And>x. r = Ok x \<Longrightarrow> keeps V (f x)) \<Longrightarrow> (\<And>e. r = Err e \<Longrightarrow> keeps V (g e)) \<Longrightarrow> (r = Panic \<Longrightarrow> keeps V m) \<Longrightarrow>
     keeps V (case r of Ok x \<Rightarrow> f x | Err e \<Rightarrow> g e | Panic \<Rightarrow> m)"
  by (cases r) simp_all

lemma keeps_case_option [keep_rules]:
  "(r = None \<Longrightarrow> keeps V m) \<Longrightarrow> (\<And>x. r = Some x \<Longrightarrow> keeps V (f x)) \<Longrightarrow> keeps V (case r of None \<Rightarrow> m | Some x \<Rightarrow> f x)"
  by (simp split: option.split)


section \<open>Resources\<close>

text \<open>
  What a program opens, it has to close: the storage clients, readers, writers, files, broker
  connections and channels that an event list opens and closes.
\<close>

datatype resource = Client handle | Reader handle | Writer handle | File handle
  | Conn handle | Chan handle | SqlPool handle
fun acquired :: "event \<Rightarrow> resource multiset" where
  "acquired (Media (EvNewClient c (Inr h))) = {#Client h#}"
| "acquired (Media (EvNewReader c cl b n (Inr h))) = {#Reader h#}"
| "acquired (Media (EvNewWriter c cl b n h)) = {#Writer h#}"
| "acquired (Media (EvCreateFile p (Inr h))) = {#File h#}"
| "acquired (Media (EvOpenFile p (Inr h))) = {#File h#}"
| "acquired (AMQP (EvDial u (Inr h))) = {#Conn h#}"
| "acquired (AMQP (EvOpenChannel c (Inr h))) = {#Chan h#}"
| "acquired (Boot (EvOpenPostgres d (Inr h))) = {#SqlPool h#}"
| "acquired (Boot (EvOpenSqlite d (Inr h))) = {#SqlPool h#}"
| "acquired _ = {#}"

fun released :: "event \<Rightarrow> resource multiset" where
  "released (Media (EvCloseClient h r)) = {#Client h#}"
| "released (Media (EvCloseReader h)) = {#Reader h#}"
| "released (Media (EvCloseWriter h r)) = {#Writer h#}"
| "released (Media (EvCloseFile h)) = {#File h#}"
| "released (AMQP (EvCloseConn h r)) = {#Conn h#}"
| "released (AMQP (EvCloseChannel h r)) = {#Chan h#}"
| "released (Boot (EvCloseSqlDB h r)) = {#SqlPool h#}"
| "released _ = {#}"

definition owes :: "resource multiset \<Rightarrow> ('w, 'a) io \<Rightarrow> bool" where
  "owes R m \<longleftrightarrow> (\<forall>w. \<exists>es. log (post m w) = log w @ es \<and>
     sum_list (map acquired es) + R = sum_list (map released es))"

text \<open>\<open>owes R m\<close>: \<open>m\<close> closes the resources \<open>R\<close> it was given and everything it opens itself.\<close>

lemma owesI:
  "(\<And>w. \<exists>es. log (post m w) = log w @ es \<and> sum_list (map acquired es) + R = sum_list (map released es))
    \<Longrightarrow> owes R m"
  by (simp add: owes_def)

lemma owes_events:
  "owes {#} m \<Longrightarrow> sum_list (map acquired (events m w)) = sum_list (map released (events m w))"
  unfolding owes_def events_def by (metis add.right_neutral append_eq_conv_conj)

lemma owes_seq:
  assumes "owes R m" "\<And>x. owes R' (f x)"
  shows "\<exists>es. log (post (f (val m w)) (post m w)) = log w @ es \<and>
    sum_list (map acquired es) + (R + R') = sum_list (map released es)"
proof -
  obtain es where es: "log (post m w) = log w @ es"
      "sum_list (map acquired es) + R = sum_list (map released es)"
    using assms(1) unfolding owes_def by blast
  obtain fs where fs: "log (post (f (val m w)) (post m w)) = log (post m w) @ fs"
      "sum_list (map acquired fs) + R' = sum_list (map released fs)"
    using assms(2) unfolding owes_def by blast
  show ?thesis
    by (rule exI [of _ "es @ fs"])
       (simp add: es(1) fs(1) es(2) [symmetric] fs(2) [symmetric] union_ac)
qed

lemma owes_ret [balance_rules]: "owes {#} (ret x)"
  by (rule owesI) simp

lemma owes_bind: "owes R m \<Longrightarrow> (\<And>x. owes R' (f x)) \<Longrightarrow> owes (R + R') (State_Monad.bind m f)"
  by (rule owesI) (simp only: post_bind, rule owes_seq)

lemma owes_bind0 [balance_rules]: "owes {#} m \<Longrightarrow> (\<And>x. owes {#} (f x)) \<Longrightarrow> owes {#} (State_Monad.bind m f)"
  using owes_bind [of "{#}" m "{#}" f] by simp

lemma owes_wrap [balance_rules]: "owes R m \<Longrightarrow> owes R (wrap p m)"
  by (simp add: owes_def run_wrap split_beta)

lemma owes_attempt [balance_rules]:
  assumes "owes {#} m" "\<And>x. owes {#} (f x)"
  shows "owes {#} (attempt m f)"
proof -
  have "owes {#} (case r of Ok x \<Rightarrow> f x | Err e \<Rightarrow> ret (Err e) | Panic \<Rightarrow> ret Panic)" for r
    using assms(2) by (cases r) (auto intro: owes_ret)
  then show ?thesis unfolding attempt_def by (intro owes_bind0 assms(1))
qed

lemma owes_deferring [balance_rules]:
  assumes d: "owes R d" and m: "owes {#} m"
  shows "owes R (deferring d m)"
proof -
  have "owes ({#} + (R + {#})) (deferring d m)"
    unfolding deferring_def by (intro owes_bind m d owes_ret)
  then show ?thesis by simp
qed

text \<open>Opening a resource and handing it to a program that closes it.\<close>

lemma owes_open_bind:
  assumes "\<And>x. acquired (ev x) = R x \<and> released (ev x) = {#}" "\<And>x. owes (R x) (f x)"
  shows "owes {#} (State_Monad.bind (perform g ev) f)"
proof (rule owesI)
  fix w :: "'b world"
  let ?x = "fst (g (ext w))"
  let ?w = "w\<lparr>ext := snd (g (ext w)), log := log w @ [ev ?x]\<rparr>"
  obtain es where "log (post (f ?x) ?w) = log ?w @ es"
      "sum_list (map acquired es) + R ?x = sum_list (map released es)"
    using assms(2) unfolding owes_def by blast
  then show "\<exists>es. log (post (State_Monad.bind (perform g ev) f) w) = log w @ es \<and>
      sum_list (map acquired es) + {#} = sum_list (map released es)"
    using assms(1) by (intro exI [of _ "ev ?x # es"]) (simp add: run_perform union_ac split_beta)
qed

lemma owes_open:
  assumes "\<And>r. released (ev r) = {#}" "\<And>e. acquired (ev (Inl e)) = {#}" "\<And>h. owes (acquired (ev (Inr h))) (f h)"
  shows "owes {#} (attempt (call g ev) f)"
proof -
  have "owes (acquired (ev r))
      (case res_of_sum r of Ok x \<Rightarrow> f x | Err e \<Rightarrow> ret (Err e) | Panic \<Rightarrow> ret Panic)" for r
    using assms(2,3) by (cases r) (auto intro: owes_ret)
  then have "owes {#} (State_Monad.bind (perform g ev) (\<lambda>r.
      case res_of_sum r of Ok x \<Rightarrow> f x | Err e \<Rightarrow> ret (Err e) | Panic \<Rightarrow> ret Panic))"
    using assms(1) by (intro owes_open_bind [where R = "\<lambda>r. acquired (ev r)"]) simp_all
  moreover have "attempt (call g ev) f = State_Monad.bind (perform g ev) (\<lambda>r.
      case res_of_sum r of Ok x \<Rightarrow> f x | Err e \<Rightarrow> ret (Err e) | Panic \<Rightarrow> ret Panic)"
    by (rule state.expand) (simp add: attempt_def call_def fun_eq_iff split_beta)
  ultimately show ?thesis by simp
qed

lemma owes_open_wrap:
  assumes "\<And>r. released (ev r) = {#}" "\<And>e. acquired (ev (Inl e)) = {#}" "\<And>h. owes (acquired (ev (Inr h))) (f h)"
  shows "owes {#} (attempt (wrap p (call g ev)) f)"
proof -
  have "owes {#} (attempt (call g ev) (\<lambda>h. f h))"
    by (rule owes_open) (use assms in auto)
  moreover have "log (post (attempt (wrap p (call g ev)) f) w) = log (post (attempt (call g ev) f) w)" for w
    by (simp add: run_attempt run_wrap split_beta split: res.split)
  ultimately show ?thesis by (simp add: owes_def)
qed

lemma owes_perform:
  "(\<And>r. acquired (ev r) = {#}) \<Longrightarrow> (\<And>r. released (ev r) = R) \<Longrightarrow> owes R (perform f ev)"
  by (rule owesI) (simp add: exec_simps)

lemma owes_call:
  "(\<And>r. acquired (ev r) = {#}) \<Longrightarrow> (\<And>r. released (ev r) = R) \<Longrightarrow> owes R (call f ev)"
  "(\<And>r. acquired (ev' r) = {#}) \<Longrightarrow> (\<And>r. released (ev' r) = R) \<Longrightarrow> owes R (call_unit f' ev')"
  by (rule owesI, simp add: exec_simps)+

lemma owes_call0 [balance_rules]:
  "(\<And>r. acquired (ev r) = {#} \<and> released (ev r) = {#}) \<Longrightarrow> owes {#} (perform f ev)"
  "(\<And>r. acquired (ev' r) = {#} \<and> released (ev' r) = {#}) \<Longrightarrow> owes {#} (call_unit f' ev')"
  by (simp_all add: owes_perform owes_call)

lemma owes_silently [balance_rules]: "owes {#} (silently m)"
  by (rule owesI) (simp add: exec_simps)

lemma owes_deref [balance_rules]: "(\<And>x. p = Some x \<Longrightarrow> owes {#} (f x)) \<Longrightarrow> owes {#} (deref p f)"
  by (cases p) (simp_all add: owes_ret)

lemma owes_if [balance_rules]: "(b \<Longrightarrow> owes R m) \<Longrightarrow> (\<not> b \<Longrightarrow> owes R n) \<Longrightarrow> owes R (if b then m else n)"
  by simp

end
