(* ===== verification/Repositories.thy ===== *)
theory Repositories
  imports World
begin

text \<open>
  The persistence layer \<^verbatim>\<open>internal/repositories/{video,job}\<close>: the Go interfaces as records of
  methods, their GORM implementations, and the contracts the rest of the program relies on.
  GORM is not part of the repository: the calls the code makes are the fields of \<open>gorm\<close>, and
  \<open>gorm_contract\<close> (with \<open>store_contract\<close>) states what the documentation promises about them, over the two tables they
  read and write. \<open>job_repository_contract\<close> and \<open>video_repository_contract\<close> are the same
  promises at the level of the Go interfaces; the GORM repositories are shown to keep them.
\<close>


section \<open>Interfaces\<close>

record 'w job_repository =
  jr_Insert :: "job \<Rightarrow> ('w, job res) io"
  jr_Find :: "string \<Rightarrow> ('w, job res) io"
  jr_Update :: "job \<Rightarrow> ('w, job res) io"

record 'w video_repository =
  vr_Insert :: "video \<Rightarrow> ('w, video res) io"
  vr_Find :: "string \<Rightarrow> ('w, video res) io"


section \<open>The GORM calls\<close>

text \<open>
  \<open>Create\<close> and \<open>Save\<close> return the record as the call leaves it (GORM fills the time stamps and the
  foreign key in place); \<open>First\<close> returns the loaded record with its association.
\<close>

record 'w gorm =
  gorm_create_video :: "video \<Rightarrow> 'w \<Rightarrow> (err + video) \<times> 'w"
  gorm_first_video :: "string \<Rightarrow> 'w \<Rightarrow> (err + video) \<times> 'w"
  gorm_create_job :: "job \<Rightarrow> 'w \<Rightarrow> (err + job) \<times> 'w"
  gorm_first_job :: "string \<Rightarrow> 'w \<Rightarrow> (err + job) \<times> 'w"
  gorm_save_job :: "job \<Rightarrow> 'w \<Rightarrow> (err + job) \<times> 'w"

definition err_of :: "err + 'a \<Rightarrow> err option" where
  "err_of r = (case r of Inl e \<Rightarrow> Some e | Inr _ \<Rightarrow> None)"

lemma err_of_simps [simp]: "err_of (Inl e) = Some e" "err_of (Inr x) = None"
  by (simp_all add: err_of_def)

definition db_call :: "('w \<Rightarrow> (err + 'a) \<times> 'w) \<Rightarrow> (err option \<Rightarrow> db_event) \<Rightarrow> ('w, err + 'a) io" where
  "db_call f ev = perform f (\<lambda>r. DB (ev (err_of r)))"

lemma run_db_call [exec_simps]:
  "run_state (db_call f ev) w =
     (fst (f (ext w)), w\<lparr>ext := snd (f (ext w)), log := log w @ [DB (ev (err_of (fst (f (ext w)))))]\<rparr>)"
  by (simp add: db_call_def exec_simps)

lemma emits_db_call [emit_rules]: "(\<And>r. P (DB (ev r))) \<Longrightarrow> emits P (db_call f ev)"
  unfolding db_call_def by (intro emit_rules)


section \<open>The video repository\<close>

text \<open>\<^verbatim>\<open>VideoRepositoryDb.Insert\<close> draws an id when the video has none.\<close>

definition VideoRepositoryDb_Insert :: "'w lib \<Rightarrow> 'w gorm \<Rightarrow> video \<Rightarrow> ('w, video res) io" where
  "VideoRepositoryDb_Insert L G v = do {
     v' \<leftarrow> (if video_ID v = '''' then do {
              i \<leftarrow> silently (State (lib_uuid L));
              ret (v\<lparr>video_ID := i\<rparr>)
            } else ret v);
     r \<leftarrow> db_call (gorm_create_video G v') (EvCreateVideo v');
     case r of Inl e \<Rightarrow> ret (Err e) | Inr v'' \<Rightarrow> ret (Ok v'')
   }"

definition VideoRepositoryDb_Find :: "'w gorm \<Rightarrow> string \<Rightarrow> ('w, video res) io" where
  "VideoRepositoryDb_Find G i = do {
     r \<leftarrow> db_call (gorm_first_video G i) (EvFirstVideo i);
     case r of
       Inl e \<Rightarrow> if err_is e ErrRecordNotFound then ret (Err ErrVideoNotFound)
                else ret (Err (ErrWrap ''find video: '' e))
     | Inr v \<Rightarrow> ret (Ok v)
   }"

definition VideoRepositoryDb :: "'w lib \<Rightarrow> 'w gorm \<Rightarrow> 'w video_repository" where
  "VideoRepositoryDb L G =
     \<lparr>vr_Insert = VideoRepositoryDb_Insert L G, vr_Find = VideoRepositoryDb_Find G\<rparr>"


section \<open>The job repository\<close>

definition JobRepositoryDb_Insert :: "'w gorm \<Rightarrow> job \<Rightarrow> ('w, job res) io" where
  "JobRepositoryDb_Insert G j = do {
     r \<leftarrow> db_call (gorm_create_job G j) (EvCreateJob j);
     case r of Inl e \<Rightarrow> ret (Err e) | Inr j' \<Rightarrow> ret (Ok j')
   }"

definition JobRepositoryDb_Find :: "'w gorm \<Rightarrow> string \<Rightarrow> ('w, job res) io" where
  "JobRepositoryDb_Find G i = do {
     r \<leftarrow> db_call (gorm_first_job G i) (EvFirstJob i);
     case r of
       Inl e \<Rightarrow> if err_is e ErrRecordNotFound then ret (Err ErrJobNotFound)
                else ret (Err (ErrWrap ''find job: '' e))
     | Inr j \<Rightarrow> ret (Ok j)
   }"

definition JobRepositoryDb_Update :: "'w gorm \<Rightarrow> job \<Rightarrow> ('w, job res) io" where
  "JobRepositoryDb_Update G j = do {
     r \<leftarrow> db_call (gorm_save_job G j) (EvSaveJob j);
     case r of Inl e \<Rightarrow> ret (Err e) | Inr j' \<Rightarrow> ret (Ok j')
   }"

definition JobRepositoryDb :: "'w gorm \<Rightarrow> 'w job_repository" where
  "JobRepositoryDb G =
     \<lparr>jr_Insert = JobRepositoryDb_Insert G, jr_Find = JobRepositoryDb_Find G,
      jr_Update = JobRepositoryDb_Update G\<rparr>"

lemma repository_sel [simp]:
  "jr_Insert (JobRepositoryDb G) = JobRepositoryDb_Insert G"
  "jr_Find (JobRepositoryDb G) = JobRepositoryDb_Find G"
  "jr_Update (JobRepositoryDb G) = JobRepositoryDb_Update G"
  "vr_Insert (VideoRepositoryDb L G) = VideoRepositoryDb_Insert L G"
  "vr_Find (VideoRepositoryDb L G) = VideoRepositoryDb_Find G"
  by (simp_all add: JobRepositoryDb_def VideoRepositoryDb_def)

text \<open>
  One equation per method: the outcome, the new world and the logged call.
  \<open>with_id\<close> is the record \<^verbatim>\<open>Insert\<close> writes and the world after drawing its id.
\<close>

definition with_id :: "'w lib \<Rightarrow> video \<Rightarrow> 'w \<Rightarrow> video \<times> 'w" where
  "with_id L v x =
     (if video_ID v = '''' then (v\<lparr>video_ID := fst (lib_uuid L x)\<rparr>, snd (lib_uuid L x)) else (v, x))"

definition not_found_as :: "string \<Rightarrow> err \<Rightarrow> err + 'a \<Rightarrow> 'a res" where
  "not_found_as p sentinel r = (case r of
       Inl e \<Rightarrow> if err_is e ErrRecordNotFound then Err sentinel else Err (ErrWrap p e)
     | Inr x \<Rightarrow> Ok x)"

lemma run_VideoRepositoryDb_Insert [exec_simps]:
  "run_state (VideoRepositoryDb_Insert L G v) w =
    (let p = with_id L v (ext w); q = gorm_create_video G (fst p) (snd p)
     in (res_of_sum (fst q),
         w\<lparr>ext := snd q, log := log w @ [DB (EvCreateVideo (fst p) (err_of (fst q)))]\<rparr>))"
  by (simp add: VideoRepositoryDb_Insert_def with_id_def exec_simps Let_def split_beta split: sum.split)

lemma run_VideoRepositoryDb_Find [exec_simps]:
  "run_state (VideoRepositoryDb_Find G i) w =
    (let q = gorm_first_video G i (ext w)
     in (not_found_as ''find video: '' ErrVideoNotFound (fst q),
         w\<lparr>ext := snd q, log := log w @ [DB (EvFirstVideo i (err_of (fst q)))]\<rparr>))"
  by (simp add: VideoRepositoryDb_Find_def not_found_as_def exec_simps Let_def split: sum.split)

lemma run_JobRepositoryDb_Insert [exec_simps]:
  "run_state (JobRepositoryDb_Insert G j) w =
    (let q = gorm_create_job G j (ext w)
     in (res_of_sum (fst q), w\<lparr>ext := snd q, log := log w @ [DB (EvCreateJob j (err_of (fst q)))]\<rparr>))"
  by (simp add: JobRepositoryDb_Insert_def exec_simps Let_def split: sum.split)

lemma run_JobRepositoryDb_Find [exec_simps]:
  "run_state (JobRepositoryDb_Find G i) w =
    (let q = gorm_first_job G i (ext w)
     in (not_found_as ''find job: '' ErrJobNotFound (fst q),
         w\<lparr>ext := snd q, log := log w @ [DB (EvFirstJob i (err_of (fst q)))]\<rparr>))"
  by (simp add: JobRepositoryDb_Find_def not_found_as_def exec_simps Let_def split: sum.split)

lemma run_JobRepositoryDb_Update [exec_simps]:
  "run_state (JobRepositoryDb_Update G j) w =
    (let q = gorm_save_job G j (ext w)
     in (res_of_sum (fst q), w\<lparr>ext := snd q, log := log w @ [DB (EvSaveJob j (err_of (fst q)))]\<rparr>))"
  by (simp add: JobRepositoryDb_Update_def exec_simps Let_def split: sum.split)

lemma not_found_as_iff:
  "not_found_as p t r = Ok x \<longleftrightarrow> r = Inr x"
  "not_found_as p t r = Err e \<longleftrightarrow>
     (\<exists>e'. r = Inl e' \<and> e = (if err_is e' ErrRecordNotFound then t else ErrWrap p e'))"
  "not_found_as p t r \<noteq> Panic"
  by (auto simp: not_found_as_def split: sum.splits)

text \<open>Each method makes exactly one call, and a lookup never writes.\<close>

fun is_db_read :: "event \<Rightarrow> bool" where
  "is_db_read (DB (EvFirstVideo i e)) = True"
| "is_db_read (DB (EvFirstJob i e)) = True"
| "is_db_read _ = False"

fun is_db :: "event \<Rightarrow> bool" where
  "is_db (DB e) = True"
| "is_db _ = False"

lemma emits_repositories [emit_rules]:
  "emits is_db_read (VideoRepositoryDb_Find G i)"
  "emits is_db_read (JobRepositoryDb_Find G i)"
  "emits is_db (VideoRepositoryDb_Insert L G v)"
  "emits is_db (JobRepositoryDb_Insert G j)"
  "emits is_db (JobRepositoryDb_Update G j)"
  by (rule emitsI, simp add: exec_simps Let_def)+


section \<open>Contracts\<close>

text \<open>
  What the documentation of GORM promises of the calls, over the two tables: \<open>jobs x\<close> and
  \<open>videos x\<close> are their rows by primary key in the world \<open>x\<close> (a video's row with an empty
  \<open>video_Jobs\<close>).
  A lookup changes no row, returns the row of the key with its association loaded, and reports
  \<^verbatim>\<open>ErrRecordNotFound\<close> only when there is none. \<open>Create\<close> and \<open>Save\<close>, when they succeed, leave
  exactly the row of the record written, with the foreign key taken from the associated video and
  with time stamps of their own choice; when they fail they leave every other row alone (the
  failed write itself may have reached the table whole, or not at all). The association upserts that come
  with a job leave existing videos and jobs as they are. No error of GORM is one of the program's own
  sentinels.
\<close>

definition same_job :: "job \<Rightarrow> job \<Rightarrow> bool" where
  "same_job j j' \<longleftrightarrow> job_ID j' = job_ID j \<and> job_OutputBucketPath j' = job_OutputBucketPath j \<and>
     job_Status j' = job_Status j \<and> job_Error j' = job_Error j \<and> job_Video j' = job_Video j \<and>
     job_VideoID j' = (case job_Video j of Some v \<Rightarrow> video_ID v | None \<Rightarrow> job_VideoID j)"

locale gorm_contract =
  fixes G :: "'w gorm"
    and jobs :: "'w \<Rightarrow> string \<Rightarrow> job_row option"
    and videos :: "'w \<Rightarrow> string \<Rightarrow> video option"
  assumes first_job_reads: "jobs (snd (gorm_first_job G i x)) = jobs x"
      "videos (snd (gorm_first_job G i x)) = videos x"
    and first_job_found: "fst (gorm_first_job G i x) = Inr j \<Longrightarrow>
      job_ID j = i \<and> jobs x i = Some (row_of j) \<and>
      map_option (\<lambda>v. v\<lparr>video_Jobs := []\<rparr>) (job_Video j) = videos x (job_VideoID j) \<and>
      (\<forall>v. job_Video j = Some v \<longrightarrow> video_ID v = job_VideoID j)"
    and first_job_missing: "fst (gorm_first_job G i x) = Inl e \<Longrightarrow> err_is e ErrRecordNotFound \<Longrightarrow>
      jobs x i = None"
    and first_video_reads: "jobs (snd (gorm_first_video G i x)) = jobs x"
      "videos (snd (gorm_first_video G i x)) = videos x"
    and first_video_found: "fst (gorm_first_video G i x) = Inr v \<Longrightarrow>
      video_ID v = i \<and> videos x i = Some (v\<lparr>video_Jobs := []\<rparr>) \<and>
      set (video_Jobs v) = {r. \<exists>k. jobs x k = Some r \<and> job_VideoID r = i}"
    and first_video_missing: "fst (gorm_first_video G i x) = Inl e \<Longrightarrow> err_is e ErrRecordNotFound \<Longrightarrow>
      videos x i = None"
    and save_job_ok: "gorm_save_job G j x = (Inr j', x') \<Longrightarrow>
      same_job j j' \<and> jobs x' = (jobs x)(job_ID j \<mapsto> row_of j')"
    and save_job_frame: "k \<noteq> job_ID j \<Longrightarrow> jobs (snd (gorm_save_job G j x)) k = jobs x k"
    and create_job_ok: "gorm_create_job G j x = (Inr j', x') \<Longrightarrow>
      same_job j j' \<and> jobs x (job_ID j) = None \<and> jobs x' = (jobs x)(job_ID j \<mapsto> row_of j')"
    and create_job_frame: "k \<noteq> job_ID j \<Longrightarrow> jobs (snd (gorm_create_job G j x)) k = jobs x k"
    and create_video_ok: "gorm_create_video G v x = (Inr v', x') \<Longrightarrow>
      video_ID v' = video_ID v \<and> video_ResourceID v' = video_ResourceID v \<and>
      video_FilePath v' = video_FilePath v \<and> video_Jobs v' = video_Jobs v \<and>
      videos x (video_ID v) = None \<and>
      videos x' = (videos x)(video_ID v \<mapsto> v'\<lparr>video_Jobs := []\<rparr>)"
    and create_video_frame: "k \<noteq> video_ID v \<Longrightarrow> videos (snd (gorm_create_video G v x)) k = videos x k"
    and create_video_jobs: "video_Jobs v = [] \<Longrightarrow> jobs (snd (gorm_create_video G v x)) = jobs x"
    and first_job_foreign: "fst (gorm_first_job G i x) = Inl e \<Longrightarrow> \<not> err_is e ErrJobNotFound"
    and first_video_foreign: "fst (gorm_first_video G i x) = Inl e \<Longrightarrow> \<not> err_is e ErrVideoNotFound"
    and save_job_failed: "gorm_save_job G j x = (Inl e, x') \<Longrightarrow>
      jobs x' = jobs x \<or> (\<exists>j'. same_job j j' \<and> jobs x' = (jobs x)(job_ID j \<mapsto> row_of j'))"
    and create_job_failed: "gorm_create_job G j x = (Inl e, x') \<Longrightarrow>
      jobs x' = jobs x \<or> jobs x (job_ID j) = None \<and> (\<exists>j'. same_job j j' \<and> jobs x' = (jobs x)(job_ID j \<mapsto> row_of j'))"

text \<open>Random ids and the clock leave the tables alone.\<close>

locale store_contract = gorm_contract G jobs videos
  for G :: "'w gorm" and jobs :: "'w \<Rightarrow> string \<Rightarrow> job_row option"
    and videos :: "'w \<Rightarrow> string \<Rightarrow> video option" +
  fixes L :: "'w lib"
  assumes uuid_frame: "jobs (snd (lib_uuid L x)) = jobs x" "videos (snd (lib_uuid L x)) = videos x"
    and now_frame: "jobs (snd (lib_now L x)) = jobs x" "videos (snd (lib_now L x)) = videos x"

text \<open>The same promises as the program sees them, through the Go interfaces.\<close>

locale job_repository_contract =
  fixes R :: "'w job_repository"
    and jobs :: "'w \<Rightarrow> string \<Rightarrow> job_row option"
  assumes Find_reads: "jobs (ext (post (jr_Find R i) w)) = jobs (ext w)"
    and Find_Ok: "val (jr_Find R i) w = Ok j \<Longrightarrow> job_ID j = i \<and> jobs (ext w) i = Some (row_of j) \<and>
      (\<forall>v. job_Video j = Some v \<longrightarrow> video_ID v = job_VideoID j)"
    and Find_missing: "val (jr_Find R i) w = Err e \<Longrightarrow> err_is e ErrJobNotFound \<Longrightarrow> jobs (ext w) i = None"
    and Update_Ok: "val (jr_Update R j) w = Ok j' \<Longrightarrow>
      same_job j j' \<and> jobs (ext (post (jr_Update R j) w)) = (jobs (ext w))(job_ID j \<mapsto> row_of j')"
    and Update_frame: "k \<noteq> job_ID j \<Longrightarrow> jobs (ext (post (jr_Update R j) w)) k = jobs (ext w) k"
    and Insert_Ok: "val (jr_Insert R j) w = Ok j' \<Longrightarrow>
      same_job j j' \<and> jobs (ext w) (job_ID j) = None \<and>
      jobs (ext (post (jr_Insert R j) w)) = (jobs (ext w))(job_ID j \<mapsto> row_of j')"
    and Insert_frame: "k \<noteq> job_ID j \<Longrightarrow> jobs (ext (post (jr_Insert R j) w)) k = jobs (ext w) k"
    and no_panic: "val (jr_Find R i) w \<noteq> Panic" "val (jr_Update R j) w \<noteq> Panic"
      "val (jr_Insert R j) w \<noteq> Panic"
    and Update_Err: "val (jr_Update R j) w = Err e \<Longrightarrow> jobs (ext (post (jr_Update R j) w)) = jobs (ext w) \<or>
      (\<exists>j'. same_job j j' \<and> jobs (ext (post (jr_Update R j) w)) = (jobs (ext w))(job_ID j \<mapsto> row_of j'))"
    and Insert_Err: "val (jr_Insert R j) w = Err e \<Longrightarrow> jobs (ext (post (jr_Insert R j) w)) = jobs (ext w) \<or>
      jobs (ext w) (job_ID j) = None \<and>
      (\<exists>j'. same_job j j' \<and> jobs (ext (post (jr_Insert R j) w)) = (jobs (ext w))(job_ID j \<mapsto> row_of j'))"

locale video_repository_contract =
  fixes V :: "'w video_repository"
    and jobs :: "'w \<Rightarrow> string \<Rightarrow> job_row option"
    and videos :: "'w \<Rightarrow> string \<Rightarrow> video option"
  assumes vFind_reads: "videos (ext (post (vr_Find V i) w)) = videos (ext w)"
      "jobs (ext (post (vr_Find V i) w)) = jobs (ext w)"
    and vFind_Ok: "val (vr_Find V i) w = Ok v \<Longrightarrow>
      video_ID v = i \<and> videos (ext w) i = Some (v\<lparr>video_Jobs := []\<rparr>) \<and>
      set (video_Jobs v) = {r. \<exists>k. jobs (ext w) k = Some r \<and> job_VideoID r = i}"
    and vFind_missing: "val (vr_Find V i) w = Err e \<Longrightarrow> err_is e ErrVideoNotFound \<Longrightarrow> videos (ext w) i = None"
    and vInsert_Ok: "val (vr_Insert V v) w = Ok v' \<Longrightarrow>
      (video_ID v \<noteq> '''' \<longrightarrow> video_ID v' = video_ID v) \<and>
      video_ResourceID v' = video_ResourceID v \<and> video_FilePath v' = video_FilePath v \<and>
      video_Jobs v' = video_Jobs v \<and>
      videos (ext w) (video_ID v') = None \<and>
      videos (ext (post (vr_Insert V v) w)) = (videos (ext w))(video_ID v' \<mapsto> v'\<lparr>video_Jobs := []\<rparr>)"
    and vInsert_jobs: "video_Jobs v = [] \<Longrightarrow> jobs (ext (post (vr_Insert V v) w)) = jobs (ext w)"
    and v_no_panic: "val (vr_Find V i) w \<noteq> Panic" "val (vr_Insert V v) w \<noteq> Panic"

text \<open>The GORM repositories keep both contracts, for every GORM that keeps its own.\<close>

sublocale gorm_contract \<subseteq> job_repo: job_repository_contract "JobRepositoryDb G" jobs
proof (unfold_locales, goal_cases)
  case (1 i w) show ?case by (simp add: exec_simps Let_def first_job_reads)
next
  case (2 i w j) then show ?case
    using first_job_found [of i "ext w" j] by (simp add: exec_simps Let_def not_found_as_iff)
next
  case (3 i w e) then show ?case
    using first_job_missing [of i "ext w"] first_job_foreign [of i "ext w"]
    by (auto simp: exec_simps Let_def not_found_as_iff split: if_splits)
next
  case (4 j w j') then show ?case
    using save_job_ok [of j "ext w" j' "snd (gorm_save_job G j (ext w))"]
    by (cases "gorm_save_job G j (ext w)") (simp add: exec_simps Let_def)
next
  case (5 k j w) then show ?case by (simp add: exec_simps Let_def save_job_frame)
next
  case (6 j w j') then show ?case
    using create_job_ok [of j "ext w" j' "snd (gorm_create_job G j (ext w))"]
    by (cases "gorm_create_job G j (ext w)") (simp add: exec_simps Let_def)
next
  case (7 k j w) then show ?case by (simp add: exec_simps Let_def create_job_frame)
next
  case (11 j w e) then show ?case
    using save_job_failed [of j "ext w" e "snd (gorm_save_job G j (ext w))"]
    by (cases "gorm_save_job G j (ext w)") (simp add: exec_simps Let_def)
next
  case (12 j w e) then show ?case
    using create_job_failed [of j "ext w" e "snd (gorm_create_job G j (ext w))"]
    by (cases "gorm_create_job G j (ext w)") (simp add: exec_simps Let_def)
qed (simp_all add: exec_simps Let_def not_found_as_iff)

sublocale store_contract \<subseteq> video_repo: video_repository_contract "VideoRepositoryDb L G" jobs videos
proof (unfold_locales, goal_cases)
  case (1 i w) show ?case by (simp add: exec_simps Let_def first_video_reads)
next
  case (2 i w) show ?case by (simp add: exec_simps Let_def first_video_reads)
next
  case (3 i w v) then show ?case
    using first_video_found [of i "ext w" v] by (simp add: exec_simps Let_def not_found_as_iff)
next
  case (4 i w e) then show ?case
    using first_video_missing [of i "ext w"] first_video_foreign [of i "ext w"]
    by (auto simp: exec_simps Let_def not_found_as_iff split: if_splits)
next
  case (5 v w v')
  let ?p = "with_id L v (ext w)"
  from 5 have "gorm_create_video G (fst ?p) (snd ?p) =
      (Inr v', ext (post (vr_Insert (VideoRepositoryDb L G) v) w))"
    by (simp add: exec_simps Let_def prod_eq_iff)
  from create_video_ok [OF this] show ?case
    by (auto simp: with_id_def uuid_frame split: if_splits)
next
  case (6 v w) then show ?case
    by (simp add: exec_simps Let_def with_id_def create_video_jobs uuid_frame)
qed (simp_all add: exec_simps Let_def not_found_as_iff)

end
