(* ===== verification/Mem_Store.thy ===== *)
theory Mem_Store
  imports Repositories
begin

text \<open>
  A concrete database that keeps the GORM contract, in the spirit of the in-memory one that
  \<^verbatim>\<open>database.NewDbTest\<close> opens for the tests: two lists of rows, a clock, a supply of ids, and a list
  of faults that makes chosen calls fail. It shows that the contract can hold, and it is the
  database the concrete runs of this development use.
\<close>

record memdb =
  mem_jobs :: "job_row list"
  mem_videos :: "video list"
  mem_clock :: time
  mem_ids :: "string list"
  mem_faults :: "bool list"

definition mem_job :: "'a memdb_scheme \<Rightarrow> string \<Rightarrow> job_row option" where
  "mem_job x i = find (\<lambda>r. job_ID r = i) (mem_jobs x)"

definition mem_video :: "'a memdb_scheme \<Rightarrow> string \<Rightarrow> video option" where
  "mem_video x i = map_option (\<lambda>v. v\<lparr>video_Jobs := []\<rparr>) (find (\<lambda>v. video_ID v = i) (mem_videos x))"

definition mem_down :: err where
  "mem_down = ErrExternal ''connection refused''"

definition faulty :: "('a memdb_scheme \<Rightarrow> (err + 'b) \<times> 'a memdb_scheme) \<Rightarrow>
    'a memdb_scheme \<Rightarrow> (err + 'b) \<times> 'a memdb_scheme" where
  "faulty f x = (let y = x\<lparr>mem_faults := tl (mem_faults x)\<rparr>
     in if mem_faults x \<noteq> [] \<and> hd (mem_faults x) then (Inl mem_down, y) else f y)"

definition mem_put :: "job \<Rightarrow> 'a memdb_scheme \<Rightarrow> 'a memdb_scheme" where
  "mem_put j x = x\<lparr>mem_jobs := row_of j # filter (\<lambda>r. job_ID r \<noteq> job_ID j) (mem_jobs x)\<rparr>"

definition mem_fk :: "job \<Rightarrow> job" where
  "mem_fk j = (case job_Video j of Some v \<Rightarrow> j\<lparr>job_VideoID := video_ID v\<rparr> | None \<Rightarrow> j)"

definition mem_jobs_of :: "'a memdb_scheme \<Rightarrow> string \<Rightarrow> job_row list" where
  "mem_jobs_of x i =
     filter (\<lambda>r. job_VideoID r = i \<and> mem_job x (job_ID r) = Some r) (mem_jobs x)"

definition job_with_video :: "job_row \<Rightarrow> video option \<Rightarrow> job" where
  "job_with_video r v = \<lparr>job_ID = job_ID r, job_OutputBucketPath = job_OutputBucketPath r,
     job_Status = job_Status r, job_VideoID = job_VideoID r, job_Error = job_Error r,
     job_CreatedAt = job_CreatedAt r, job_UpdatedAt = job_UpdatedAt r, job_Video = v\<rparr>"

definition mem_gorm :: "'a memdb_scheme gorm" where
  "mem_gorm = \<lparr>
     gorm_create_video = (\<lambda>v. faulty (\<lambda>x.
       if mem_video x (video_ID v) \<noteq> None then (Inl (ErrExternal ''duplicate key''), x)
       else let v' = v\<lparr>video_CreatedAt := mem_clock x\<rparr>
            in (Inr v', x\<lparr>mem_videos := v'\<lparr>video_Jobs := []\<rparr> # mem_videos x\<rparr>))),
     gorm_first_video = (\<lambda>i. faulty (\<lambda>x. case mem_video x i of
         None \<Rightarrow> (Inl ErrRecordNotFound, x)
       | Some v \<Rightarrow> (Inr (v\<lparr>video_Jobs := mem_jobs_of x i\<rparr>), x))),
     gorm_create_job = (\<lambda>j. faulty (\<lambda>x.
       if mem_job x (job_ID j) \<noteq> None then (Inl (ErrExternal ''duplicate key''), x)
       else (Inr (mem_fk j), mem_put (mem_fk j) x))),
     gorm_first_job = (\<lambda>i. faulty (\<lambda>x. case mem_job x i of
         None \<Rightarrow> (Inl ErrRecordNotFound, x)
       | Some r \<Rightarrow> (Inr (job_with_video r (mem_video x (job_VideoID r))), x))),
     gorm_save_job = (\<lambda>j. faulty (\<lambda>x.
       let j' = mem_fk (j\<lparr>job_UpdatedAt := mem_clock x\<rparr>) in (Inr j', mem_put j' x))) \<rparr>"

definition mem_lib :: "'a memdb_scheme lib" where
  "mem_lib = \<lparr>
     lib_now = (\<lambda>x. (mem_clock x, x\<lparr>mem_clock := mem_clock x + 1\<rparr>)),
     lib_uuid = (\<lambda>x. case mem_ids x of
         [] \<Rightarrow> (''00000000-0000-4000-8000-000000000000'', x)
       | i # is \<Rightarrow> (i, x\<lparr>mem_ids := is\<rparr>)),
     lib_validate_job = (\<lambda>j. None), lib_validate_video = (\<lambda>v. None)\<rparr>"


section \<open>It keeps the contract\<close>

lemma find_filter_other:
  "(\<And>r. Q r \<Longrightarrow> P r) \<Longrightarrow> find Q (filter P rs) = find Q rs"
  by (induction rs) auto

lemma mem_job_ID: "mem_job x i = Some r \<Longrightarrow> job_ID r = i"
  by (auto simp: mem_job_def find_Some_iff)

lemma mem_video_ID: "mem_video x i = Some v \<Longrightarrow> video_ID v = i \<and> video_Jobs v = []"
  by (auto simp: mem_video_def find_Some_iff)

lemma mem_job_put: "mem_job (mem_put j x) = (mem_job x)(job_ID j \<mapsto> row_of j)"
  by (rule ext) (auto simp: mem_job_def mem_put_def find_filter_other)

lemma mem_frames [simp]:
  "mem_job (x\<lparr>mem_faults := bs\<rparr>) = mem_job x" "mem_video (x\<lparr>mem_faults := bs\<rparr>) = mem_video x"
  "mem_job (x\<lparr>mem_clock := t\<rparr>) = mem_job x" "mem_video (x\<lparr>mem_clock := t\<rparr>) = mem_video x"
  "mem_job (x\<lparr>mem_ids := is\<rparr>) = mem_job x" "mem_video (x\<lparr>mem_ids := is\<rparr>) = mem_video x"
  "mem_job (x\<lparr>mem_videos := vs\<rparr>) = mem_job x"
  "mem_jobs_of (x\<lparr>mem_faults := bs\<rparr>) = mem_jobs_of x"
  "mem_video (mem_put j x) = mem_video x"
  by (auto simp: fun_eq_iff mem_job_def mem_video_def mem_jobs_of_def mem_put_def)

lemma mem_fk_ID [simp]: "job_ID (mem_fk j) = job_ID j"
  by (simp add: mem_fk_def split: option.split)

lemma same_job_mem_fk: "same_job j (mem_fk j)" "same_job j (mem_fk (j\<lparr>job_UpdatedAt := t\<rparr>))"
  by (auto simp: same_job_def mem_fk_def split: option.splits)

lemma job_with_video_sel [simp]:
  "row_of (job_with_video r v) = r" "job_Video (job_with_video r v) = v"
  "job_ID (job_with_video r v) = job_ID r" "job_VideoID (job_with_video r v) = job_VideoID r"
  by (simp_all add: row_of_def job_with_video_def job_row.defs)

lemma mem_jobs_of_rows:
  "set (mem_jobs_of x i) = {r. \<exists>k. mem_job x k = Some r \<and> job_VideoID r = i}"
  by (auto simp: mem_jobs_of_def mem_job_def find_Some_iff in_set_conv_nth)

lemma mem_video_stripped [simp]:
  "map_option (video_Jobs_update (\<lambda>_. [])) (mem_video x i) = mem_video x i"
  by (simp add: mem_video_def option.map_comp comp_def)

lemma mem_video_strip: "mem_video x i = Some v \<Longrightarrow> v\<lparr>video_Jobs := []\<rparr> = v"
  by (auto simp: mem_video_def)

lemma mem_video_Cons:
  "mem_video (x\<lparr>mem_faults := bs, mem_videos := v # mem_videos x\<rparr>) = (mem_video x)(video_ID v \<mapsto> v\<lparr>video_Jobs := []\<rparr>)"
  by (rule ext) (simp add: mem_video_def)

lemma mem_down_not_missing [simp]: "\<not> err_is mem_down ErrRecordNotFound"
  by (simp add: mem_down_def)

lemmas mem_gorm_defs = mem_gorm_def faulty_def Let_def mem_job_put

text \<open>Every law is the unfolding of one call, split on its fault and on the row it looks up.\<close>

interpretation mem: store_contract mem_gorm mem_job mem_video mem_lib
proof (unfold_locales, goal_cases)
  case (1 i x) show ?case by (simp add: mem_gorm_defs split: option.split)
next
  case (2 i x) show ?case by (simp add: mem_gorm_defs split: option.split)
next
  case (3 i x j) then show ?case
    by (auto simp: mem_gorm_defs dest: mem_job_ID mem_video_ID split: option.splits if_splits)
next
  case (4 i x e) then show ?case by (auto simp: mem_gorm_defs split: option.splits if_splits)
next
  case (5 i x) show ?case by (simp add: mem_gorm_defs split: option.split)
next
  case (6 i x) show ?case by (simp add: mem_gorm_defs split: option.split)
next
  case (7 i x v) then show ?case
    by (auto simp: mem_gorm_defs mem_jobs_of_rows mem_video_strip dest: mem_video_ID
        split: option.splits if_splits)
next
  case (8 i x e) then show ?case by (auto simp: mem_gorm_defs split: option.splits if_splits)
next
  case (9 j x j' x') then show ?case
    by (auto simp: mem_gorm_defs same_job_mem_fk split: if_splits)
next
  case (10 k j x) then show ?case by (simp add: mem_gorm_defs mem_fk_def split: option.split)
next
  case (11 j x j' x') then show ?case
    by (auto simp: mem_gorm_defs same_job_mem_fk split: if_splits)
next
  case (12 k j x) then show ?case by (simp add: mem_gorm_defs mem_fk_def split: option.split)
next
  case (13 v x v' x') then show ?case
    by (auto simp: mem_gorm_defs mem_video_Cons split: if_splits)
next
  case (14 k v x) then show ?case by (simp add: mem_gorm_defs mem_video_Cons)
next
  case (15 v x) show ?case by (simp add: mem_gorm_defs)
next
  case (16 i x e) then show ?case
    by (auto simp: mem_gorm_defs mem_down_def split: option.splits if_splits)
next
  case (17 i x e) then show ?case
    by (auto simp: mem_gorm_defs mem_down_def split: option.splits if_splits)
next
  case (18 j x e x') then show ?case by (auto simp: mem_gorm_defs split: if_splits)
next
  case (19 j x e x') then show ?case by (auto simp: mem_gorm_defs split: if_splits)
next
  case (20 x) show ?case by (simp add: mem_lib_def split: list.split)
next
  case (21 x) show ?case by (simp add: mem_lib_def split: list.split)
next
  case (22 x) show ?case by (simp add: mem_lib_def)
next
  case (23 x) show ?case by (simp add: mem_lib_def)
qed

end
