(* ===== verification/Job_Service.thy ===== *)
theory Job_Service
  imports Repositories Mem_Store
begin

text \<open>
  \<^verbatim>\<open>internal/job/service.go\<close>: the lifecycle operations of a job over the repositories. The two
  repositories of a service are interface values that may be nil (\<open>None\<close>). The lemmas about a
  service are proved from the contract of the job repository, once, inside its locale.
\<close>

definition JobStatusPending :: string where "JobStatusPending = ''Pending''"
definition JobStatusProcessing :: string where "JobStatusProcessing = ''Processing''"
definition JobStatusCompleted :: string where "JobStatusCompleted = ''Completed''"
definition JobStatusFailed :: string where "JobStatusFailed = ''Failed''"

lemmas job_status_defs =
  JobStatusPending_def JobStatusProcessing_def JobStatusCompleted_def JobStatusFailed_def

record 'w job_service =
  svc_jobs :: "'w job_repository option"
  svc_videos :: "'w video_repository option"

definition NewJobService :: "'w job_repository option \<Rightarrow> 'w video_repository option \<Rightarrow> 'w job_service" where
  "NewJobService R V = \<lparr>svc_jobs = R, svc_videos = V\<rparr>"

definition CreatePendingJob :: "'w lib \<Rightarrow> 'w job_service \<Rightarrow> string \<Rightarrow> string \<Rightarrow> ('w, job res) io" where
  "CreatePendingJob L S videoID outputBucketPath =
     (case (svc_jobs S, svc_videos S) of
        (Some R, Some V) \<Rightarrow>
          attempt (vr_Find V videoID) (\<lambda>video.
          attempt (silently (NewJob L outputBucketPath JobStatusPending (Some video))) (\<lambda>job.
          jr_Insert R job))
      | _ \<Rightarrow> ret (Err (ErrText ''job service repositories are not configured'')))"

definition JobService_Find :: "'w job_service \<Rightarrow> string \<Rightarrow> ('w, job res) io" where
  "JobService_Find S jobID = (case svc_jobs S of
       None \<Rightarrow> ret (Err (ErrText ''job repository is not configured''))
     | Some R \<Rightarrow> jr_Find R jobID)"

text \<open>\<^verbatim>\<open>updateStatus\<close> loads the job, changes two fields and saves it.\<close>

definition updateStatus :: "'w job_service \<Rightarrow> string \<Rightarrow> string \<Rightarrow> string \<Rightarrow> ('w, job res) io" where
  "updateStatus S jobID status errMessage = (case svc_jobs S of
       None \<Rightarrow> ret (Err (ErrText ''job repository is not configured''))
     | Some R \<Rightarrow>
         attempt (jr_Find R jobID) (\<lambda>job.
         jr_Update R (job\<lparr>job_Status := status, job_Error := errMessage\<rparr>)))"

definition MarkProcessing :: "'w job_service \<Rightarrow> string \<Rightarrow> ('w, job res) io" where
  "MarkProcessing S jobID = updateStatus S jobID JobStatusProcessing ''''"

definition MarkCompleted :: "'w job_service \<Rightarrow> string \<Rightarrow> ('w, job res) io" where
  "MarkCompleted S jobID = updateStatus S jobID JobStatusCompleted ''''"

definition MarkFailed :: "'w job_service \<Rightarrow> string \<Rightarrow> err option \<Rightarrow> ('w, job res) io" where
  "MarkFailed S jobID processErr =
     updateStatus S jobID JobStatusFailed (case processErr of None \<Rightarrow> '''' | Some e \<Rightarrow> err_text e)"

lemmas mark_defs = MarkProcessing_def MarkCompleted_def MarkFailed_def


section \<open>What the service does, from the contract of its repository\<close>

context job_repository_contract
begin

lemma updateStatus_frame:
  assumes "svc_jobs S = Some R" "k \<noteq> i"
  shows "jobs (ext (post (updateStatus S i st msg) w)) k = jobs (ext w) k"
  using assms Find_Ok [of i w]
  by (auto simp: updateStatus_def run_attempt split_beta Find_reads Update_frame split: res.split)

lemma updateStatus_Ok:
  assumes "svc_jobs S = Some R" and ok: "val (updateStatus S i st msg) w = Ok j"
  shows "jobs (ext (post (updateStatus S i st msg) w)) = (jobs (ext w))(i \<mapsto> row_of j)"
    and "job_ID j = i" "job_Status j = st" "job_Error j = msg"
    and "\<exists>r. jobs (ext w) i = Some r \<and> job_OutputBucketPath j = job_OutputBucketPath r \<and>
           job_VideoID j = job_VideoID r"
proof -
  obtain j0 where j0: "val (jr_Find R i) w = Ok j0"
    and up: "val (jr_Update R (j0\<lparr>job_Status := st, job_Error := msg\<rparr>)) (post (jr_Find R i) w) = Ok j"
    using assms by (auto simp: updateStatus_def run_attempt split_beta split: res.splits)
  note found = Find_Ok [OF j0] and saved = Update_Ok [OF up]
  have same: "same_job (j0\<lparr>job_Status := st, job_Error := msg\<rparr>) j"
    using saved by simp
  show "jobs (ext (post (updateStatus S i st msg) w)) = (jobs (ext w))(i \<mapsto> row_of j)"
    using assms(1) j0 saved found
    by (simp add: updateStatus_def run_attempt split_beta Find_reads)
  show "job_ID j = i" "job_Status j = st" "job_Error j = msg"
    using same found by (simp_all add: same_job_def)
  show "\<exists>r. jobs (ext w) i = Some r \<and> job_OutputBucketPath j = job_OutputBucketPath r \<and>
           job_VideoID j = job_VideoID r"
    using same found by (auto simp: same_job_def split: option.splits)
qed

lemma updateStatus_no_panic: "svc_jobs S = Some R \<Longrightarrow> val (updateStatus S i st msg) w \<noteq> Panic"
  by (auto simp: updateStatus_def run_attempt split_beta no_panic split: res.split)

lemma updateStatus_missing:
  assumes "svc_jobs S = Some R" "jobs (ext w) i = None"
  shows "\<exists>e. val (updateStatus S i st msg) w = Err e"
    and "jobs (ext (post (updateStatus S i st msg) w)) = jobs (ext w)"
  using assms Find_Ok [of i w] no_panic(1) [of i w]
  by (auto simp: updateStatus_def run_attempt split_beta Find_reads split: res.split)

end

text \<open>A new job needs both contracts: the lookup of its video and the insertion of its row.\<close>

locale job_service_contract =
  jr: job_repository_contract R jobs + vr: video_repository_contract V jobs videos
  for R :: "'w job_repository" and V :: "'w video_repository"
    and jobs :: "'w \<Rightarrow> string \<Rightarrow> job_row option" and videos :: "'w \<Rightarrow> string \<Rightarrow> video option" +
  fixes L :: "'w lib"
  assumes lib_uuid_frame: "jobs (snd (lib_uuid L x)) = jobs x"
    and lib_now_frame: "jobs (snd (lib_now L x)) = jobs x"
begin

lemma NewJob_frame: "jobs (post (NewJob L out st v) x) = jobs x"
  by (simp add: NewJob_def prepare_def Job_Validate_def split_beta lib_uuid_frame lib_now_frame
      split: option.split)

lemma CreatePendingJob_Ok:
  assumes S: "svc_jobs S = Some R" "svc_videos S = Some V"
    and ok: "val (CreatePendingJob L S vid out) w = Ok j"
  shows "jobs (ext w) (job_ID j) = None"
    and "jobs (ext (post (CreatePendingJob L S vid out) w)) = (jobs (ext w))(job_ID j \<mapsto> row_of j)"
    and "job_Status j = JobStatusPending" "job_Error j = ''''" "job_OutputBucketPath j = out"
      "job_VideoID j = vid" "\<exists>v. job_Video j = Some v \<and> video_ID v = vid \<and> videos (ext w) vid = Some (v\<lparr>video_Jobs := []\<rparr>)"
proof -
  let ?w1 = "post (vr_Find V vid) w"
  obtain v j0 where v: "val (vr_Find V vid) w = Ok v"
    and j0: "val (NewJob L out JobStatusPending (Some v)) (ext ?w1) = Ok j0"
    and ins: "val (jr_Insert R j0) (post (silently (NewJob L out JobStatusPending (Some v))) ?w1) = Ok j"
    using ok S by (auto simp: CreatePendingJob_def run_attempt run_silently split_beta split: res.splits)
  note video = vr.vFind_Ok [OF v] and new = NewJob_Ok [OF j0]
    and row = jr.Insert_Ok [OF ins]
  have same: "same_job j0 j" using row by simp
  have mid: "jobs (ext (post (silently (NewJob L out JobStatusPending (Some v))) ?w1)) = jobs (ext w)"
    by (simp add: run_silently NewJob_frame vr.vFind_reads)
  show "jobs (ext w) (job_ID j) = None"
    using row mid same by (simp add: same_job_def)
  show "jobs (ext (post (CreatePendingJob L S vid out) w)) = (jobs (ext w))(job_ID j \<mapsto> row_of j)"
    using S v j0 row mid same
    by (simp add: CreatePendingJob_def run_attempt split_beta run_silently same_job_def)
  show "job_Status j = JobStatusPending" "job_Error j = ''''" "job_OutputBucketPath j = out"
      "job_VideoID j = vid"
    using same new video by (simp_all add: same_job_def)
  show "\<exists>v. job_Video j = Some v \<and> video_ID v = vid \<and> videos (ext w) vid = Some (v\<lparr>video_Jobs := []\<rparr>)"
    using same new video by (simp add: same_job_def)
qed

lemma CreatePendingJob_unknown_video:
  assumes S: "svc_jobs S = Some R" "svc_videos S = Some V" and no: "videos (ext w) vid = None"
  shows "\<exists>e. val (CreatePendingJob L S vid out) w = Err e"
    and "jobs (ext (post (CreatePendingJob L S vid out) w)) = jobs (ext w)"
  using S no vr.vFind_Ok [of vid w] vr.v_no_panic(1) [of vid w]
  by (auto simp: CreatePendingJob_def run_attempt split_beta vr.vFind_reads split: res.split)

lemma CreatePendingJob_no_panic:
  assumes "svc_jobs S = Some R" "svc_videos S = Some V"
  shows "val (CreatePendingJob L S vid out) w \<noteq> Panic"
  using assms
  by (auto simp: CreatePendingJob_def run_attempt run_silently split_beta NewJob_no_panic
      jr.no_panic vr.v_no_panic split: res.split)

end

text \<open>The service the program runs: both repositories over one GORM connection.\<close>

definition gorm_service :: "'w lib \<Rightarrow> 'w gorm \<Rightarrow> 'w job_service" where
  "gorm_service L G = NewJobService (Some (JobRepositoryDb G)) (Some (VideoRepositoryDb L G))"

lemma gorm_service_sel [simp]:
  "svc_jobs (gorm_service L G) = Some (JobRepositoryDb G)"
  "svc_videos (gorm_service L G) = Some (VideoRepositoryDb L G)"
  by (simp_all add: gorm_service_def NewJobService_def)

sublocale store_contract \<subseteq>
  service: job_service_contract "JobRepositoryDb G" "VideoRepositoryDb L G" jobs videos L
  by unfold_locales (simp_all add: uuid_frame now_frame)

context store_contract
begin

lemma is_service:
  "job_service_contract (JobRepositoryDb G) (VideoRepositoryDb L G) jobs videos L"
  by (rule service.job_service_contract_axioms)

lemma is_job_repository: "job_repository_contract (JobRepositoryDb G) jobs"
  by (rule job_repo.job_repository_contract_axioms)

end

end
