(* ===== verification/Go_Strings.thy ===== *)
theory Go_Strings
  imports Prelude
begin

text \<open>
  What the program uses of Go's \<^verbatim>\<open>strings\<close>, \<^verbatim>\<open>strconv\<close> and \<^verbatim>\<open>os.Getenv\<close>. A Go string is a
  sequence of bytes, here a \<open>string\<close> (a list of 8-bit characters).
\<close>


abbreviation byte :: "char \<Rightarrow> nat" where
  "byte \<equiv> of_char"


section \<open>Prefixes and bytes\<close>

definition TrimPrefix :: "string \<Rightarrow> string \<Rightarrow> string" where
  "TrimPrefix s p = (if prefix p s then drop (length p) s else s)"

lemma TrimPrefix_append [simp]: "TrimPrefix (p @ s) p = s"
  by (simp add: TrimPrefix_def)

text \<open>\<^verbatim>\<open>strings.IndexByte\<close>: the first position of the byte, or -1.\<close>

fun IndexByte :: "string \<Rightarrow> char \<Rightarrow> int" where
  "IndexByte [] b = -1"
| "IndexByte (c # cs) b = (if c = b then 0 else (let i = IndexByte cs b in if i < 0 then -1 else i + 1))"

lemma IndexByte_nonneg: "0 \<le> IndexByte s b \<longleftrightarrow> b \<in> set s"
  by (induction s) (auto simp: Let_def)


section \<open>\<^verbatim>\<open>strings.TrimSpace\<close>\<close>

text \<open>The UTF-8 encodings of the code points for which \<^verbatim>\<open>unicode.IsSpace\<close> holds.\<close>

definition utf8_spaces :: "string list" where
  "utf8_spaces =
    [[CHR 0x09], [CHR 0x0A], [CHR 0x0B], [CHR 0x0C], [CHR 0x0D], [CHR 0x20],
     [CHR 0xC2, CHR 0x85], [CHR 0xC2, CHR 0xA0], [CHR 0xE1, CHR 0x9A, CHR 0x80],
     [CHR 0xE2, CHR 0x80, CHR 0x80], [CHR 0xE2, CHR 0x80, CHR 0x81],
     [CHR 0xE2, CHR 0x80, CHR 0x82], [CHR 0xE2, CHR 0x80, CHR 0x83],
     [CHR 0xE2, CHR 0x80, CHR 0x84], [CHR 0xE2, CHR 0x80, CHR 0x85],
     [CHR 0xE2, CHR 0x80, CHR 0x86], [CHR 0xE2, CHR 0x80, CHR 0x87],
     [CHR 0xE2, CHR 0x80, CHR 0x88], [CHR 0xE2, CHR 0x80, CHR 0x89],
     [CHR 0xE2, CHR 0x80, CHR 0x8A], [CHR 0xE2, CHR 0x80, CHR 0xA8],
     [CHR 0xE2, CHR 0x80, CHR 0xA9], [CHR 0xE2, CHR 0x80, CHR 0xAF],
     [CHR 0xE2, CHR 0x81, CHR 0x9F], [CHR 0xE3, CHR 0x80, CHR 0x80]]"

lemma utf8_spaces_nonempty: "p \<in> set utf8_spaces \<Longrightarrow> 0 < length p"
  by (auto simp: utf8_spaces_def)

function TrimLeftSpace :: "string \<Rightarrow> string" where
  "TrimLeftSpace s = (case find (\<lambda>p. prefix p s) utf8_spaces of
       None \<Rightarrow> s | Some p \<Rightarrow> TrimLeftSpace (drop (length p) s))"
  by pat_completeness auto
termination
proof (relation "measure length")
  fix s p assume "find (\<lambda>p. prefix p s) utf8_spaces = Some p"
  then have "p \<in> set utf8_spaces" "prefix p s"
    by (auto simp: find_Some_iff)
  then have "0 < length p" "length p \<le> length s"
    using utf8_spaces_nonempty [of p] prefix_length_le [of p s] by simp_all
  then show "(drop (length p) s, s) \<in> measure length"
    unfolding in_measure length_drop length_take by linarith
qed simp

function TrimRightSpace :: "string \<Rightarrow> string" where
  "TrimRightSpace s = (case find (\<lambda>p. suffix p s) utf8_spaces of
       None \<Rightarrow> s | Some p \<Rightarrow> TrimRightSpace (take (length s - length p) s))"
  by pat_completeness auto
termination
proof (relation "measure length")
  fix s p assume "find (\<lambda>p. suffix p s) utf8_spaces = Some p"
  then have "p \<in> set utf8_spaces" "suffix p s"
    by (auto simp: find_Some_iff)
  then have "0 < length p" "length p \<le> length s"
    using utf8_spaces_nonempty [of p] suffix_length_le [of p s] by simp_all
  then show "(take (length s - length p) s, s) \<in> measure length"
    unfolding in_measure length_drop length_take by linarith
qed simp

declare TrimLeftSpace.simps [simp del] TrimRightSpace.simps [simp del]

definition TrimSpace :: "string \<Rightarrow> string" where
  "TrimSpace s = TrimRightSpace (TrimLeftSpace s)"

text \<open>What trimming leaves is a piece of the string with no white space at its ends.\<close>

definition trimmed :: "string \<Rightarrow> bool" where
  "trimmed s \<longleftrightarrow> list_all (\<lambda>p. \<not> prefix p s \<and> \<not> suffix p s) utf8_spaces"

lemma TrimLeft_spec:
  "suffix (TrimLeftSpace s) s \<and> list_all (\<lambda>p. \<not> prefix p (TrimLeftSpace s)) utf8_spaces"
proof (induction s rule: TrimLeftSpace.induct)
  case (1 s)
  show ?case
  proof (cases "find (\<lambda>p. prefix p s) utf8_spaces")
    case None
    then have "TrimLeftSpace s = s" by (simp add: TrimLeftSpace.simps [of s])
    with None show ?thesis by (simp add: find_None_iff list_all_iff)
  next
    case (Some p)
    with 1 [OF Some] show ?thesis
      by (auto simp: TrimLeftSpace.simps [of s] intro: suffix_order.trans suffix_drop)
  qed
qed

lemma TrimRight_spec:
  "prefix (TrimRightSpace s) s \<and> list_all (\<lambda>p. \<not> suffix p (TrimRightSpace s)) utf8_spaces"
proof (induction s rule: TrimRightSpace.induct)
  case (1 s)
  show ?case
  proof (cases "find (\<lambda>p. suffix p s) utf8_spaces")
    case None
    then have "TrimRightSpace s = s" by (simp add: TrimRightSpace.simps [of s])
    with None show ?thesis by (simp add: find_None_iff list_all_iff)
  next
    case (Some p)
    with 1 [OF Some] show ?thesis
      by (auto simp: TrimRightSpace.simps [of s] intro: prefix_order.trans take_is_prefix)
  qed
qed

lemma TrimSpace_trimmed: "trimmed (TrimSpace s)"
proof -
  have "prefix p (TrimLeftSpace s)" if "prefix p (TrimSpace s)" for p
    using that TrimRight_spec [of "TrimLeftSpace s"] unfolding TrimSpace_def
    by (meson prefix_order.trans)
  then show ?thesis
    using TrimLeft_spec [of s] TrimRight_spec [of "TrimLeftSpace s"]
    unfolding trimmed_def TrimSpace_def list_all_iff by blast
qed

lemma TrimSpace_sublist: "sublist (TrimSpace s) s"
  using TrimLeft_spec [of s] TrimRight_spec [of "TrimLeftSpace s"]
  unfolding TrimSpace_def by (meson prefix_imp_sublist suffix_imp_sublist sublist_order.order.trans)

lemma TrimSpace_length: "length (TrimSpace s) \<le> length s"
  by (rule sublist_length_le [OF TrimSpace_sublist])

lemma TrimSpace_id: "trimmed s \<Longrightarrow> TrimSpace s = s"
proof -
  assume "trimmed s"
  then have "find (\<lambda>p. prefix p s) utf8_spaces = None" "find (\<lambda>p. suffix p s) utf8_spaces = None"
    by (auto simp: trimmed_def list_all_iff find_None_iff)
  then show ?thesis
    by (simp add: TrimSpace_def TrimLeftSpace.simps [of s] TrimRightSpace.simps [of s])
qed


section \<open>\<^verbatim>\<open>strconv.Atoi\<close> and \<^verbatim>\<open>strconv.ParseBool\<close>\<close>

definition is_digit :: "char \<Rightarrow> bool" where
  "is_digit c \<longleftrightarrow> 48 \<le> byte c \<and> byte c \<le> 57"

definition digit_val :: "char \<Rightarrow> int" where
  "digit_val c = int (byte c) - 48"

definition digits_val :: "string \<Rightarrow> int" where
  "digits_val = foldl (\<lambda>n c. n * 10 + digit_val c) 0"

text \<open>\<open>None\<close> is a syntax or range error; the range is that of a 64-bit \<^verbatim>\<open>int\<close>.\<close>

definition Atoi :: "string \<Rightarrow> int option" where
  "Atoi s =
     (let (neg, ds) = (case s of
            [] \<Rightarrow> (False, [])
          | c # cs \<Rightarrow> if c = CHR ''-'' then (True, cs) else if c = CHR ''+'' then (False, cs) else (False, s));
          n = (if neg then - digits_val ds else digits_val ds)
      in if ds \<noteq> [] \<and> list_all is_digit ds \<and> - (2 ^ 63) \<le> n \<and> n < 2 ^ 63 then Some n else None)"

lemma Atoi_range: "Atoi s = Some n \<Longrightarrow> - (2 ^ 63) \<le> n \<and> n < 2 ^ 63"
  by (auto simp: Atoi_def Let_def split: prod.splits if_splits)

definition ParseBool :: "string \<Rightarrow> bool option" where
  "ParseBool s =
     (if s \<in> {''1'', ''t'', ''T'', ''true'', ''TRUE'', ''True''} then Some True
      else if s \<in> {''0'', ''f'', ''F'', ''false'', ''FALSE'', ''False''} then Some False
      else None)"

text \<open>\<^verbatim>\<open>os.Getenv\<close>: an unset variable reads as the empty string.\<close>

type_synonym environ = "string \<Rightarrow> string"

end
