(* ===== verification/Go_Path.thy ===== *)
theory Go_Path
  imports Go_Strings
begin

text \<open>
  What the program uses of Go's \<^verbatim>\<open>path\<close> and \<^verbatim>\<open>path/filepath\<close> (on Unix, where they agree):
  \<^verbatim>\<open>Clean\<close>, \<^verbatim>\<open>Join\<close>, \<^verbatim>\<open>Base\<close> and \<^verbatim>\<open>Walk\<close>. A path is split at its slashes; \<open>clean_step\<close> is
  what \<^verbatim>\<open>Clean\<close> does with one element.
\<close>

abbreviation slash :: char where
  "slash \<equiv> CHR ''/''"

fun split_slash :: "string \<Rightarrow> string list" where
  "split_slash [] = [[]]"
| "split_slash (c # cs) =
     (if c = slash then [] # split_slash cs
      else (case split_slash cs of [] \<Rightarrow> [[c]] | x # xs \<Rightarrow> (c # x) # xs))"

fun join_slash :: "string list \<Rightarrow> string" where
  "join_slash [] = []"
| "join_slash [s] = s"
| "join_slash (s # t # ts) = s @ slash # join_slash (t # ts)"

definition clean_step :: "bool \<Rightarrow> string list \<Rightarrow> string \<Rightarrow> string list" where
  "clean_step rooted out e =
     (if e = '''' \<or> e = ''.'' then out
      else if e = ''..'' then
        (if out \<noteq> [] \<and> last out \<noteq> ''..'' then butlast out
         else if rooted then out else out @ [''..''])
      else out @ [e])"

definition rooted :: "string \<Rightarrow> bool" where
  "rooted p \<longleftrightarrow> p \<noteq> [] \<and> hd p = slash"

definition clean_elems :: "string \<Rightarrow> string list" where
  "clean_elems p = foldl (clean_step (rooted p)) [] (split_slash p)"

definition Clean :: "string \<Rightarrow> string" where
  "Clean p =
     (if p = '''' then ''.''
      else if rooted p then slash # join_slash (clean_elems p)
      else if clean_elems p = [] then ''.'' else join_slash (clean_elems p))"

definition Join :: "string list \<Rightarrow> string" where
  "Join elems = (case dropWhile (\<lambda>e. e = '''') elems of [] \<Rightarrow> '''' | es \<Rightarrow> Clean (join_slash es))"

definition Base :: "string \<Rightarrow> string" where
  "Base p =
     (if p = '''' then ''.''
      else let q = rev (dropWhile (\<lambda>c. c = slash) (rev p));
               b = rev (takeWhile (\<lambda>c. c \<noteq> slash) (rev q))
           in if b = '''' then ''/'' else b)"

lemma Clean_examples: "Clean ''/tmp//a/../b/.'' = ''/tmp/b''" and "Join ['''', ''a'', ''b''] = ''a/b''"
  and "Base ''/tmp/abc/'' = ''abc''"
  by code_simp+


section \<open>Names and clean paths\<close>

text \<open>An entry of a directory, as an operating system returns it.\<close>

definition valid_name :: "string \<Rightarrow> bool" where
  "valid_name n \<longleftrightarrow> n \<noteq> '''' \<and> n \<noteq> ''.'' \<and> n \<noteq> ''..'' \<and> slash \<notin> set n"

lemma split_slash_nonempty [simp]: "split_slash s \<noteq> []"
  by (cases s) (auto split: list.splits)

lemma split_slash_plain: "slash \<notin> set s \<Longrightarrow> split_slash s = [s]"
  by (induction s) auto

lemma split_slash_append: "split_slash (s @ slash # t) = split_slash s @ split_slash t"
proof (induction s)
  case (Cons c cs)
  then show ?case
    by (cases "split_slash cs") auto
qed simp

lemma join_slash_append:
  "es \<noteq> [] \<Longrightarrow> fs \<noteq> [] \<Longrightarrow> join_slash (es @ fs) = join_slash es @ slash # join_slash fs"
proof (induction es rule: join_slash.induct)
  case (2 s)
  then show ?case by (cases fs) auto
qed auto

lemma split_join:
  "es \<noteq> [] \<Longrightarrow> list_all (\<lambda>e. slash \<notin> set e) es \<Longrightarrow> split_slash (join_slash es) = es"
  by (induction es rule: join_slash.induct) (auto simp: split_slash_append split_slash_plain)

lemma valid_names_plain: "list_all valid_name ns \<Longrightarrow> list_all (\<lambda>e. slash \<notin> set e) ns"
  by (auto simp: list_all_iff valid_name_def)

lemma join_slash_inj:
  assumes "list_all valid_name ns" "list_all valid_name ms" "join_slash ns = join_slash ms"
    "ns \<noteq> []" "ms \<noteq> []"
  shows "ns = ms"
  by (metis assms split_join valid_names_plain)

lemma join_slash_names:
  assumes "list_all valid_name ns" "ns \<noteq> []"
  shows "join_slash ns \<noteq> [] \<and> \<not> rooted (join_slash ns)"
proof -
  obtain n ms where ns: "ns = n # ms" using assms(2) by (cases ns) auto
  with assms have n: "n \<noteq> []" "hd n \<noteq> slash"
    by (auto simp: valid_name_def dest: hd_in_set)
  then show ?thesis
    unfolding ns by (cases ms) (simp_all add: rooted_def)
qed

lemma foldl_clean_names: "list_all valid_name ns \<Longrightarrow> foldl (clean_step r) out ns = out @ ns"
  by (induction ns arbitrary: out) (auto simp: clean_step_def valid_name_def)

lemma rooted_append: "p \<noteq> [] \<Longrightarrow> rooted (p @ q) = rooted p"
  by (simp add: rooted_def)

lemma clean_elems_append:
  assumes "p \<noteq> []" "list_all valid_name ns" "ns \<noteq> []"
  shows "clean_elems (p @ slash # join_slash ns) = clean_elems p @ ns"
  using assms
  by (simp add: clean_elems_def split_slash_append split_join valid_names_plain foldl_clean_names
      rooted_append)

text \<open>Joining names to a path cleans the path and appends the names.\<close>

lemma Join_names:
  assumes "p \<noteq> []" "list_all valid_name ns" "ns \<noteq> []"
  shows "Join [p, join_slash ns] =
    (if rooted p then slash # join_slash (clean_elems p @ ns) else join_slash (clean_elems p @ ns))"
  using assms by (simp add: Join_def Clean_def clean_elems_append rooted_append)

lemma Join_names_empty:
  assumes "list_all valid_name ns" "ns \<noteq> []"
  shows "Join ['''', join_slash ns] = join_slash ns"
  using assms join_slash_names [OF assms]
  by (simp add: Join_def Clean_def clean_elems_def split_join valid_names_plain foldl_clean_names)

text \<open>A clean path that is neither the root nor the current directory.\<close>

definition clean_dir :: "string \<Rightarrow> bool" where
  "clean_dir p \<longleftrightarrow> Clean p = p \<and> p \<noteq> ''/'' \<and> p \<noteq> ''.'' \<and> p \<noteq> ''''"

lemma clean_dir_elems:
  assumes "clean_dir p"
  shows "clean_elems p \<noteq> []"
    "p = (if rooted p then slash # join_slash (clean_elems p) else join_slash (clean_elems p))"
  using assms by (auto simp: clean_dir_def Clean_def split: if_splits)

lemma Join_clean_dir:
  assumes p: "clean_dir p" and ns: "list_all valid_name ns" "ns \<noteq> []"
  shows "Join [p, join_slash ns] = p @ slash # join_slash ns"
proof -
  have "p \<noteq> []" using p by (simp add: clean_dir_def)
  with Join_names [OF this ns] clean_dir_elems [OF p] join_slash_append [OF clean_dir_elems(1) [OF p] ns(2)]
  show ?thesis by (metis append_Cons)
qed

lemma clean_dir_Join:
  assumes p: "clean_dir p" and ns: "list_all valid_name ns" "ns \<noteq> []"
  shows "clean_dir (p @ slash # join_slash ns)"
proof -
  have "p \<noteq> []" using p by (simp add: clean_dir_def)
  then have "Clean (p @ slash # join_slash ns) = Join [p, join_slash ns]"
    by (simp add: Join_def)
  moreover have "p @ slash # join_slash ns \<noteq> ''/''" "p @ slash # join_slash ns \<noteq> ''.''"
    using \<open>p \<noteq> []\<close> join_slash_names [OF ns] by (auto simp: append_eq_Cons_conv)
  ultimately show ?thesis
    using Join_clean_dir [OF p ns] by (simp add: clean_dir_def)
qed

lemma clean_dir_Join1:
  assumes "clean_dir p" "valid_name n"
  shows "Join [p, n] = p @ slash # n" "clean_dir (p @ slash # n)"
  using Join_clean_dir [of p "[n]"] clean_dir_Join [of p "[n]"] assms by simp_all


section \<open>\<^verbatim>\<open>filepath.Walk\<close>\<close>

text \<open>
  A snapshot of a file tree: a directory either cannot be read or lists its entries in the order
  \<^verbatim>\<open>Walk\<close> visits them; an entry whose \<^verbatim>\<open>lstat\<close> fails is \<open>Lost\<close>. The callback gets the path,
  whether it is a directory (\<open>None\<close> when \<^verbatim>\<open>lstat\<close> failed) and the error, and threads a state.
\<close>

datatype fsnode = FileNode | Unreadable err | DirNode "fsentry list"
  and fsentry = Lost string err | Entry string fsnode

primrec entry_name :: "fsentry \<Rightarrow> string" where
  "entry_name (Lost n e) = n"
| "entry_name (Entry n t) = n"

type_synonym 's walk_fn = "string \<Rightarrow> bool option \<Rightarrow> err option \<Rightarrow> 's \<Rightarrow> err option \<times> 's"

fun walk :: "'s walk_fn \<Rightarrow> string \<Rightarrow> fsnode \<Rightarrow> 's \<Rightarrow> err option \<times> 's"
  and walk_names :: "'s walk_fn \<Rightarrow> string \<Rightarrow> fsentry list \<Rightarrow> 's \<Rightarrow> err option \<times> 's"
where
  "walk fn path FileNode s = fn path (Some False) None s"
| "walk fn path (Unreadable e) s = fn path (Some True) (Some e) s"
| "walk fn path (DirNode names) s =
     (case fn path (Some True) None s of
        (Some e, s') \<Rightarrow> (Some e, s')
      | (None, s') \<Rightarrow> walk_names fn path names s')"
| "walk_names fn path [] s = (None, s)"
| "walk_names fn path (Lost name e # rest) s =
     (case fn (Join [path, name]) None (Some e) s of
        (Some e', s') \<Rightarrow> (Some e', s')
      | (None, s') \<Rightarrow> walk_names fn path rest s')"
| "walk_names fn path (Entry name n # rest) s =
     (case walk fn (Join [path, name]) n s of
        (Some e, s') \<Rightarrow> (Some e, s')
      | (None, s') \<Rightarrow> walk_names fn path rest s')"

definition Walk :: "'s walk_fn \<Rightarrow> string \<Rightarrow> err + fsnode \<Rightarrow> 's \<Rightarrow> err option \<times> 's" where
  "Walk fn root r s = (case r of Inl e \<Rightarrow> fn root None (Some e) s | Inr n \<Rightarrow> walk fn root n s)"

text \<open>The files of a tree as lists of names below its root, in the order of the walk.\<close>

fun rel_files :: "fsnode \<Rightarrow> string list list"
  and rel_files_in :: "fsentry list \<Rightarrow> string list list"
where
  "rel_files FileNode = [[]]"
| "rel_files (Unreadable e) = []"
| "rel_files (DirNode names) = rel_files_in names"
| "rel_files_in [] = []"
| "rel_files_in (Lost name e # rest) = rel_files_in rest"
| "rel_files_in (Entry name n # rest) = map (\<lambda>ns. name # ns) (rel_files n) @ rel_files_in rest"

text \<open>A tree without unreadable entries, and one whose names are those of a real directory.\<close>

fun readable :: "fsnode \<Rightarrow> bool"
  and readable_in :: "fsentry list \<Rightarrow> bool"
where
  "readable FileNode \<longleftrightarrow> True"
| "readable (Unreadable e) \<longleftrightarrow> False"
| "readable (DirNode names) \<longleftrightarrow> readable_in names"
| "readable_in [] \<longleftrightarrow> True"
| "readable_in (Lost name e # rest) \<longleftrightarrow> False"
| "readable_in (Entry name n # rest) \<longleftrightarrow> readable n \<and> readable_in rest"

fun proper_tree :: "fsnode \<Rightarrow> bool"
  and proper_in :: "fsentry list \<Rightarrow> bool"
where
  "proper_tree FileNode \<longleftrightarrow> True"
| "proper_tree (Unreadable e) \<longleftrightarrow> True"
| "proper_tree (DirNode names) \<longleftrightarrow> distinct (map entry_name names) \<and> proper_in names"
| "proper_in [] \<longleftrightarrow> True"
| "proper_in (Lost name e # rest) \<longleftrightarrow> valid_name name \<and> proper_in rest"
| "proper_in (Entry name n # rest) \<longleftrightarrow> valid_name name \<and> proper_tree n \<and> proper_in rest"

lemma rel_files_valid:
  "proper_tree n \<Longrightarrow> ns \<in> set (rel_files n) \<Longrightarrow> list_all valid_name ns"
  "proper_in es \<Longrightarrow> ns \<in> set (rel_files_in es) \<Longrightarrow> list_all valid_name ns \<and> ns \<noteq> []"
  by (induction n and es arbitrary: ns and ns rule: rel_files_rel_files_in.induct) auto

lemma rel_files_in_hd: "ns \<in> set (rel_files_in es) \<Longrightarrow> ns \<noteq> [] \<and> hd ns \<in> entry_name ` set es"
proof (induction es)
  case (Cons e es)
  then show ?case by (cases e) auto
qed simp

lemma rel_files_distinct:
  "proper_tree n \<Longrightarrow> distinct (rel_files n)"
  "proper_in es \<Longrightarrow> distinct (map entry_name es) \<Longrightarrow> distinct (rel_files_in es)"
proof (induction n and es rule: rel_files_rel_files_in.induct)
  case (6 name n rest)
  then show ?case
    by (auto simp: distinct_map dest: rel_files_in_hd)
qed (auto simp: inj_on_def)

end
