(* ===== verification/Video_Service.thy ===== *)
theory Video_Service
  imports Repositories Go_Path
begin

text \<open>
  \<^verbatim>\<open>internal/video/service.go\<close>: download, packaging and cleanup of one video. Cloud Storage, the
  disk and the external commands are the fields of \<open>media\<close>; the environment of the process is a
  function (\<open>environ\<close>). A handle is an open client, reader, writer or file. Logging is not
  modelled, so \<^verbatim>\<open>printOutput\<close> has no counterpart.
\<close>

record 'w media =
  st_new_client :: "ctx \<Rightarrow> 'w \<Rightarrow> (err + handle) \<times> 'w"
  st_close_client :: "handle \<Rightarrow> 'w \<Rightarrow> err option \<times> 'w"
  st_new_reader :: "ctx \<Rightarrow> handle \<Rightarrow> string \<Rightarrow> string \<Rightarrow> 'w \<Rightarrow> (err + handle) \<times> 'w"
  st_close_reader :: "handle \<Rightarrow> 'w \<Rightarrow> unit \<times> 'w"
  st_new_writer :: "ctx \<Rightarrow> handle \<Rightarrow> string \<Rightarrow> string \<Rightarrow> 'w \<Rightarrow> handle \<times> 'w"
  st_close_writer :: "handle \<Rightarrow> 'w \<Rightarrow> err option \<times> 'w"
  os_create :: "string \<Rightarrow> 'w \<Rightarrow> (err + handle) \<times> 'w"
  os_open :: "string \<Rightarrow> 'w \<Rightarrow> (err + handle) \<times> 'w"
  os_close :: "handle \<Rightarrow> 'w \<Rightarrow> unit \<times> 'w"
  io_copy :: "handle \<Rightarrow> handle \<Rightarrow> 'w \<Rightarrow> err option \<times> 'w"
  os_mkdir :: "string \<Rightarrow> 'w \<Rightarrow> err option \<times> 'w"
  exec_command :: "ctx \<Rightarrow> string \<Rightarrow> string list \<Rightarrow> 'w \<Rightarrow> err option \<times> 'w"
  os_remove_all :: "string \<Rightarrow> 'w \<Rightarrow> err option \<times> 'w"
  os_tree :: "string \<Rightarrow> 'w \<Rightarrow> err + fsnode"

record 'w video_service =
  vs_Video :: "video option"
  vs_VideoRepository :: "'w video_repository option"
  vs_storageClient :: "handle option"

definition NewVideoService :: "'w media \<Rightarrow> ('w, 'w video_service res) io" where
  "NewVideoService M =
     attempt (call (st_new_client M Background) (\<lambda>r. Media (EvNewClient Background r))) (\<lambda>c.
     ret (Ok \<lparr>vs_Video = None, vs_VideoRepository = None, vs_storageClient = Some c\<rparr>))"

definition VideoService_Close :: "'w media \<Rightarrow> 'w video_service \<Rightarrow> ('w, unit res) io" where
  "VideoService_Close M V = (case vs_storageClient V of
       Some c \<Rightarrow> call_unit (st_close_client M c) (\<lambda>r. Media (EvCloseClient c r))
     | None \<Rightarrow> ret (Ok ()))"

definition basePath :: "environ \<Rightarrow> string" where
  "basePath E = E ''localStoragePath''"

definition close_reader :: "'w media \<Rightarrow> handle \<Rightarrow> ('w, unit) io" where
  "close_reader M h = perform (st_close_reader M h) (\<lambda>_. Media (EvCloseReader h))"

definition close_file :: "'w media \<Rightarrow> handle \<Rightarrow> ('w, unit) io" where
  "close_file M h = perform (os_close M h) (\<lambda>_. Media (EvCloseFile h))"

definition copy :: "'w media \<Rightarrow> handle \<Rightarrow> handle \<Rightarrow> ('w, unit res) io" where
  "copy M dst src = call_unit (io_copy M dst src) (\<lambda>r. Media (EvCopy dst src r))"

definition command :: "'w media \<Rightarrow> ctx \<Rightarrow> string \<Rightarrow> string list \<Rightarrow> ('w, unit res) io" where
  "command M c name args = call_unit (exec_command M c name args) (\<lambda>r. Media (EvExec c name args r))"

definition Download :: "environ \<Rightarrow> 'w media \<Rightarrow> 'w video_service \<Rightarrow> ctx \<Rightarrow> string \<Rightarrow> ('w, unit res) io" where
  "Download E M V c bucketName =
     deref (vs_storageClient V) (\<lambda>cl. deref (vs_Video V) (\<lambda>v.
     attempt (call (st_new_reader M c cl bucketName (video_FilePath v))
                   (\<lambda>r. Media (EvNewReader c cl bucketName (video_FilePath v) r))) (\<lambda>reader.
     deferring (close_reader M reader) (
     let localFilePath = basePath E @ ''/'' @ video_ID v @ ''.mp4'' in
     attempt (call (os_create M localFilePath) (\<lambda>r. Media (EvCreateFile localFilePath r))) (\<lambda>f.
     deferring (close_file M f) (
     copy M f reader))))))"

definition Fragment :: "environ \<Rightarrow> 'w media \<Rightarrow> 'w video_service \<Rightarrow> ctx \<Rightarrow> ('w, unit res) io" where
  "Fragment E M V c =
     deref (vs_Video V) (\<lambda>v.
     let dir = basePath E @ ''/'' @ video_ID v;
         source = basePath E @ ''/'' @ video_ID v @ ''.mp4'';
         target = basePath E @ ''/'' @ video_ID v @ ''.frag'' in
     attempt (call_unit (os_mkdir M dir) (\<lambda>r. Media (EvMkdir dir r))) (\<lambda>_.
     command M c ''mp4fragment'' [source, target]))"

definition Encode :: "environ \<Rightarrow> 'w media \<Rightarrow> 'w video_service \<Rightarrow> ctx \<Rightarrow> ('w, unit res) io" where
  "Encode E M V c =
     deref (vs_Video V) (\<lambda>v.
     command M c ''mp4dash''
       [basePath E @ ''/'' @ video_ID v @ ''.frag'', ''--use-segment-timeline'',
        ''-o'', basePath E @ ''/'' @ video_ID v, ''-f'', ''--exec-dir'', ''/opt/bento4/bin/''])"

text \<open>The loop of \<^verbatim>\<open>Finish\<close>: every target is tried, and the errors are collected.\<close>

fun remove_targets :: "'w media \<Rightarrow> string list \<Rightarrow> ('w, err list) io" where
  "remove_targets M [] = ret []"
| "remove_targets M (t # ts) = do {
     r \<leftarrow> perform (os_remove_all M t) (\<lambda>r. Media (EvRemoveAll t r));
     es \<leftarrow> remove_targets M ts;
     ret (case r of Some e \<Rightarrow> ErrWrap (''remove '' @ t @ '': '') e # es | None \<Rightarrow> es)
   }"

definition finish_targets :: "environ \<Rightarrow> video \<Rightarrow> string list" where
  "finish_targets E v =
     [basePath E @ ''/'' @ video_ID v @ ''.mp4'',
      basePath E @ ''/'' @ video_ID v @ ''.frag'',
      basePath E @ ''/'' @ video_ID v]"

definition Finish :: "environ \<Rightarrow> 'w media \<Rightarrow> 'w video_service \<Rightarrow> ('w, unit res) io" where
  "Finish E M V =
     deref (vs_Video V) (\<lambda>v. do {
       errs \<leftarrow> remove_targets M (finish_targets E v);
       ret (if errs \<noteq> [] then Err (ErrJoin errs) else Ok ())
     })"


section \<open>Calls made\<close>

fun is_media :: "event \<Rightarrow> bool" where
  "is_media (Media e) = True"
| "is_media _ = False"

lemma emits_remove_targets [emit_rules]: "emits is_media (remove_targets M ts)"
  by (induction ts) (auto intro!: emit_rules)

lemma emits_video_service [emit_rules]:
  "emits is_media (NewVideoService M)"
  "emits is_media (VideoService_Close M V)"
  "emits is_media (Download E M V c b)"
  "emits is_media (Fragment E M V c)"
  "emits is_media (Encode E M V c)"
  "emits is_media (Finish E M V)"
  unfolding NewVideoService_def VideoService_Close_def Download_def Fragment_def Encode_def
    Finish_def Let_def command_def copy_def close_reader_def close_file_def
  by (auto intro!: emit_rules)

lemma remove_targets_events:
  "\<exists>rs. length rs = length ts \<and> events (remove_targets M ts) w = map2 (\<lambda>t r. Media (EvRemoveAll t r)) ts rs \<and>
     val (remove_targets M ts) w =
       map (\<lambda>p. ErrWrap (''remove '' @ fst p @ '': '') (the (snd p))) (filter (\<lambda>p. snd p \<noteq> None) (zip ts rs))"
proof (induction ts arbitrary: w)
  case (Cons t ts)
  let ?q = "os_remove_all M t (ext w)"
  let ?w = "w\<lparr>ext := snd ?q, log := log w @ [Media (EvRemoveAll t (fst ?q))]\<rparr>"
  obtain rs where rs: "length rs = length ts"
      "events (remove_targets M ts) ?w = map2 (\<lambda>t r. Media (EvRemoveAll t r)) ts rs"
      "val (remove_targets M ts) ?w =
         map (\<lambda>p. ErrWrap (''remove '' @ fst p @ '': '') (the (snd p))) (filter (\<lambda>p. snd p \<noteq> None) (zip ts rs))"
    using Cons.IH [of ?w] by blast
  have "events (remove_targets M (t # ts)) w =
      Media (EvRemoveAll t (fst ?q)) # events (remove_targets M ts) ?w"
    by (rule events_eqI) (simp add: run_perform split_beta emits_log [OF emits_remove_targets])
  with rs show ?case
    by (intro exI [of _ "fst ?q # rs"]) (auto simp: run_perform split_beta split: option.split)
qed (simp add: events_def)


section \<open>Resources and frame\<close>

lemma owes_remove_targets [balance_rules]: "owes {#} (remove_targets M ts)"
  by (induction ts) (auto intro!: balance_rules)

lemma owes_Download [balance_rules]: "owes {#} (Download E M V c b)"
  unfolding Download_def Let_def copy_def close_reader_def close_file_def
  by (intro owes_deref owes_open owes_deferring owes_call0)
     (auto intro!: owes_perform)

lemma owes_video_service [balance_rules]:
  "owes {#} (Fragment E M V c)" "owes {#} (Encode E M V c)" "owes {#} (Finish E M V)"
  unfolding Fragment_def Encode_def Finish_def Let_def command_def
  by (auto intro!: balance_rules)

text \<open>
  Cloud Storage, the disk, the external commands and the scheduler have no access to the part of
  the world that \<open>V\<close> reads; the database tables are the instance the program relies on.
\<close>

locale media_contract =
  fixes T :: "'w runtime" and M :: "'w media" and V :: "'w \<Rightarrow> 'v"
  assumes pick_frame: "V (snd (rt_pick T n x)) = V x"
    and client_frame: "V (snd (st_new_client M c x)) = V x" "V (snd (st_close_client M h x)) = V x"
    and reader_frame: "V (snd (st_new_reader M c h b p x)) = V x" "V (snd (st_close_reader M h x)) = V x"
    and writer_frame: "V (snd (st_new_writer M c h b p x)) = V x" "V (snd (st_close_writer M h x)) = V x"
    and disk_frame: "V (snd (os_create M p x)) = V x" "V (snd (os_open M p x)) = V x"
      "V (snd (os_close M h x)) = V x" "V (snd (io_copy M h h' x)) = V x"
      "V (snd (os_mkdir M p x)) = V x" "V (snd (os_remove_all M p x)) = V x"
    and exec_frame: "V (snd (exec_command M c p as x)) = V x"
begin

lemmas media_frame = client_frame reader_frame writer_frame disk_frame exec_frame

lemma keeps_remove_targets: "keeps V (remove_targets M ts)"
  by (induction ts) (auto intro!: keep_rules media_frame)

lemma keeps_video_service:
  "keeps V (NewVideoService M)" "keeps V (VideoService_Close M S)"
  "keeps V (Download E M S c b)" "keeps V (Fragment E M S c)" "keeps V (Encode E M S c)"
  "keeps V (Finish E M S)"
  unfolding NewVideoService_def VideoService_Close_def Download_def Fragment_def Encode_def
    Finish_def Let_def command_def copy_def close_reader_def close_file_def
  by (auto intro!: keep_rules keeps_remove_targets media_frame)

end

end
