(* ===== verification/Mem_Media.thy ===== *)
theory Mem_Media
  imports Mem_Store Video_Service
begin

text \<open>
  A concrete Cloud Storage, disk and scheduler for the concrete runs of this development: handles
  are counted up, \<open>mm_faults\<close> makes chosen calls fail, \<open>mm_tree\<close> is what the disk holds below any
  path, and the scheduler takes the first move offered.
\<close>

record memworld = memdb +
  mm_handle :: nat
  mm_faults :: "bool list"
  mm_tree :: "err + fsnode"

definition mm_fault :: err where
  "mm_fault = ErrExternal ''i/o timeout''"

definition mm_open :: "'a memworld_scheme \<Rightarrow> (err + handle) \<times> 'a memworld_scheme" where
  "mm_open x = (let y = x\<lparr>mm_faults := tl (mm_faults x)\<rparr>
     in if mm_faults x \<noteq> [] \<and> hd (mm_faults x) then (Inl mm_fault, y)
        else (Inr (mm_handle y), y\<lparr>mm_handle := mm_handle y + 1\<rparr>))"

definition mm_act :: "'a memworld_scheme \<Rightarrow> err option \<times> 'a memworld_scheme" where
  "mm_act x = (let y = x\<lparr>mm_faults := tl (mm_faults x)\<rparr>
     in (if mm_faults x \<noteq> [] \<and> hd (mm_faults x) then Some mm_fault else None, y))"

definition mem_media :: "'a memworld_scheme media" where
  "mem_media = \<lparr>
     st_new_client = (\<lambda>c. mm_open), st_close_client = (\<lambda>h. mm_act),
     st_new_reader = (\<lambda>c h b n. mm_open), st_close_reader = (\<lambda>h x. ((), x)),
     st_new_writer = (\<lambda>c h b n x. (mm_handle x, x\<lparr>mm_handle := mm_handle x + 1\<rparr>)),
     st_close_writer = (\<lambda>h. mm_act),
     os_create = (\<lambda>p. mm_open), os_open = (\<lambda>p. mm_open), os_close = (\<lambda>h x. ((), x)),
     io_copy = (\<lambda>d s. mm_act), os_mkdir = (\<lambda>p. mm_act), exec_command = (\<lambda>c n a. mm_act),
     os_remove_all = (\<lambda>p. mm_act), os_tree = (\<lambda>p x. mm_tree x) \<rparr>"

definition mem_runtime :: "'a memworld_scheme runtime" where
  "mem_runtime = \<lparr>rt_numcpu = 2, rt_pick = (\<lambda>n x. (0, x))\<rparr>"

text \<open>A video with two encoded files, and a world that holds it.\<close>

definition demo_id :: string where
  "demo_id = ''7d9b0e0e-2c1a-4b3c-8a1f-1a2b3c4d5e6f''"

definition demo_job_id :: string where
  "demo_job_id = ''11111111-2222-4333-8444-555555555555''"

definition demo_video :: video where
  "demo_video = \<lparr>video_ID = demo_id, video_ResourceID = ''campaign-42'', video_FilePath = ''invite.mp4'',
     video_CreatedAt = 0, video_Jobs = []\<rparr>"

definition demo_tree :: fsnode where
  "demo_tree = DirNode [Entry ''stream.mpd'' FileNode, Entry ''video'' (DirNode [Entry ''init.mp4'' FileNode])]"

definition demo_ext :: memworld where
  "demo_ext = \<lparr>mem_jobs = [], mem_videos = [demo_video], mem_clock = 100, mem_ids = [demo_job_id],
     mem_faults = [], mm_handle = 0, mm_faults = [], mm_tree = Inr demo_tree\<rparr>"

definition demo_world :: "memworld world" where
  "demo_world = \<lparr>ext = demo_ext, log = []\<rparr>"

lemmas demo_defs = demo_world_def demo_ext_def demo_tree_def demo_video_def demo_id_def
  demo_job_id_def


lemma mm_frame [simp]:
  "mem_jobs (snd (mm_open x)) = mem_jobs x" "mem_jobs (snd (mm_act x)) = mem_jobs x"
  by (simp_all add: mm_open_def mm_act_def Let_def)

interpretation mm: media_contract mem_runtime mem_media "mem_job :: 'a memworld_scheme \<Rightarrow> _"
  by unfold_locales (simp_all add: mem_runtime_def mem_media_def mem_job_def fun_eq_iff)

end
