(* ===== verification/Upload.thy ===== *)
theory Upload
  imports Mem_Media
begin

text \<open>
  \<^verbatim>\<open>internal/upload/manager.go\<close>: discovery of the encoded files, the names of their objects, and
  the pool of goroutines that uploads them. The pool is modelled step by step: the feeding loop,
  the buffered channel \<^verbatim>\<open>in\<close> and the workers move one at a time, in an order the Go scheduler
  chooses (\<open>rt_pick\<close>), so a theorem about a run holds for every interleaving. One upload is one
  step: the calls of two uploads do not interleave in the log.
\<close>

record video_upload =
  vu_Paths :: "string list"
  vu_VideoPath :: string
  vu_OutputBucket :: string
  vu_OutputPrefix :: string
  vu_Errors :: "string list"

definition NewVideoUpload :: video_upload where
  "NewVideoUpload = \<lparr>vu_Paths = [], vu_VideoPath = '''', vu_OutputBucket = '''',
     vu_OutputPrefix = '''', vu_Errors = []\<rparr>"


section \<open>Object names\<close>

definition objectName :: "video_upload \<Rightarrow> string \<Rightarrow> string" where
  "objectName vu localPath =
     (let rel = TrimPrefix localPath (vu_VideoPath vu @ ''/'');
          prefix = (if vu_OutputPrefix vu = '''' then Base (vu_VideoPath vu) else vu_OutputPrefix vu)
      in Join [prefix, rel])"

text \<open>The path \<^verbatim>\<open>Walk\<close> reports for the file with these names below a root.\<close>

definition walk_path :: "string \<Rightarrow> string list \<Rightarrow> string" where
  "walk_path root ns = foldl (\<lambda>p n. Join [p, n]) root ns"

definition effective_prefix :: "video_upload \<Rightarrow> string" where
  "effective_prefix vu = (if vu_OutputPrefix vu = '''' then Base (vu_VideoPath vu) else vu_OutputPrefix vu)"

lemma effective_prefix_nonempty: "effective_prefix vu \<noteq> ''''"
  by (simp add: effective_prefix_def Base_def Let_def)

lemma walk_path_clean:
  assumes "clean_dir root" "list_all valid_name ns" "ns \<noteq> []"
  shows "walk_path root ns = root @ slash # join_slash ns"
  using assms
proof (induction ns arbitrary: root)
  case (Cons n ms)
  note j = clean_dir_Join1 [of root n]
  show ?case
  proof (cases ms)
    case Nil
    then show ?thesis using Cons.prems j by (simp add: walk_path_def)
  next
    case (Cons m ms')
    then show ?thesis
      using Cons.IH [of "root @ slash # n"] Cons.prems j by (simp add: walk_path_def)
  qed
qed simp

lemma objectName_clean:
  assumes "clean_dir (vu_VideoPath vu)" "list_all valid_name ns" "ns \<noteq> []"
  shows "objectName vu (walk_path (vu_VideoPath vu) ns) = Join [effective_prefix vu, join_slash ns]"
proof -
  have "TrimPrefix (vu_VideoPath vu @ slash # join_slash ns) (vu_VideoPath vu @ ''/'') = join_slash ns"
    using TrimPrefix_append [of "vu_VideoPath vu @ ''/''" "join_slash ns"] by simp
  then show ?thesis
    by (simp add: objectName_def walk_path_clean [OF assms] effective_prefix_def Let_def)
qed

lemma Join_prefix_inj:
  assumes p: "p \<noteq> ''''" and ns: "list_all valid_name ns" "ns \<noteq> []" and ms: "list_all valid_name ms" "ms \<noteq> []"
    and eq: "Join [p, join_slash ns] = Join [p, join_slash ms]"
  shows "ns = ms"
proof (cases "clean_elems p")
  case Nil
  then have "join_slash ns = join_slash ms"
    using eq Join_names [OF p ns] Join_names [OF p ms] by (simp split: if_splits)
  then show ?thesis using join_slash_inj ns ms by blast
next
  case (Cons e es)
  then have "join_slash ns = join_slash ms"
    using eq Join_names [OF p ns] Join_names [OF p ms]
      join_slash_append [of "clean_elems p" ns] join_slash_append [of "clean_elems p" ms] ns(2) ms(2)
    by (simp split: if_splits)
  then show ?thesis using join_slash_inj ns ms by blast
qed


section \<open>Discovery\<close>

definition load_visit :: "string list walk_fn" where
  "load_visit p info err paths = (case err of
       Some e \<Rightarrow> (Some e, paths)
     | None \<Rightarrow> (None, if info = Some False then paths @ [p] else paths))"

definition loadPaths :: "'w media \<Rightarrow> video_upload \<Rightarrow> ('w, video_upload res) io" where
  "loadPaths M vu = do {
     w \<leftarrow> State_Monad.get;
     case Walk load_visit (vu_VideoPath vu) (os_tree M (vu_VideoPath vu) (ext w)) (vu_Paths vu) of
       (Some e, ps) \<Rightarrow> ret (Err e)
     | (None, ps) \<Rightarrow> ret (Ok (vu\<lparr>vu_Paths := ps\<rparr>))
   }"

lemma walk_load:
  "readable n \<Longrightarrow> walk load_visit p n ps = (None, ps @ map (walk_path p) (rel_files n))"
  "readable_in es \<Longrightarrow> walk_names load_visit p es ps = (None, ps @ map (walk_path p) (rel_files_in es))"
proof (induction n and es arbitrary: p ps and p ps rule: rel_files_rel_files_in.induct)
  case (6 name n rest)
  then show ?case by (simp add: walk_path_def comp_def)
qed (simp_all add: load_visit_def walk_path_def)

lemma walk_load_unreadable:
  "\<not> readable n \<Longrightarrow> \<exists>e ps'. walk load_visit p n ps = (Some e, ps')"
  "\<not> readable_in es \<Longrightarrow> \<exists>e ps'. walk_names load_visit p es ps = (Some e, ps')"
proof (induction n and es arbitrary: p ps and p ps rule: rel_files_rel_files_in.induct)
  case (6 name n rest)
  show ?case
  proof (cases "readable n")
    case True
    with 6 show ?thesis by (auto simp: walk_load)
  next
    case False
    then obtain e ps' where "walk load_visit (Join [p, name]) n ps = (Some e, ps')"
      using 6 by blast
    then show ?thesis by simp
  qed
qed (simp_all add: load_visit_def)


section \<open>One upload\<close>

definition UploadObject :: "'w media \<Rightarrow> video_upload \<Rightarrow> ctx \<Rightarrow> string \<Rightarrow> handle \<Rightarrow> ('w, unit res) io" where
  "UploadObject M vu c objectPath client =
     attempt (call (os_open M objectPath) (\<lambda>r. Media (EvOpenFile objectPath r))) (\<lambda>f.
     deferring (close_file M f) (do {
       wc \<leftarrow> perform (st_new_writer M c client (vu_OutputBucket vu) (objectName vu objectPath))
               (\<lambda>h. Media (EvNewWriter c client (vu_OutputBucket vu) (objectName vu objectPath) h));
       r \<leftarrow> copy M wc f;
       closed \<leftarrow> call_unit (st_close_writer M wc) (\<lambda>r. Media (EvCloseWriter wc r));
       ret (case r of Err e \<Rightarrow> Err e | Panic \<Rightarrow> Panic | Ok _ \<Rightarrow> closed)
     }))"

lemma emits_UploadObject [emit_rules]: "emits is_media (UploadObject M vu c p cl)"
  unfolding UploadObject_def close_file_def copy_def
  by (auto intro!: emit_rules)

text \<open>The calls one upload can make, all of them under its context.\<close>

fun is_upload :: "ctx \<Rightarrow> event \<Rightarrow> bool" where
  "is_upload c (Media (EvOpenFile p r)) = True"
| "is_upload c (Media (EvNewWriter c' cl b n h)) = (c' = c)"
| "is_upload c (Media (EvCopy d s r)) = True"
| "is_upload c (Media (EvCloseWriter h r)) = True"
| "is_upload c (Media (EvCloseFile h)) = True"
| "is_upload c _ = False"

lemma emits_UploadObject_upload: "emits (is_upload c) (UploadObject M vu c p cl)"
  unfolding UploadObject_def close_file_def copy_def
  by (auto intro!: emit_rules)

lemma is_upload_media: "is_upload c e \<Longrightarrow> is_media e"
  by (induction c e rule: is_upload.induct) auto

lemma UploadObject_no_panic: "val (UploadObject M vu c p cl) w \<noteq> Panic"
  by (simp add: UploadObject_def exec_simps copy_def split_beta split: res.split)

text \<open>The local files an event list opens and the objects it writes.\<close>

fun opened :: "event list \<Rightarrow> string list" where
  "opened [] = []"
| "opened (Media (EvOpenFile p r) # es) = p # opened es"
| "opened (_ # es) = opened es"

lemma opened_append [simp]: "opened (es @ fs) = opened es @ opened fs"
  by (induction es rule: opened.induct) auto

lemma UploadObject_opened: "opened (events (UploadObject M vu c p cl) w) = [p]"
proof -
  let ?o = "os_open M p (ext w)"
  have "\<exists>es. log (post (UploadObject M vu c p cl) w) = log w @ Media (EvOpenFile p (fst ?o)) # es \<and> opened es = []"
    by (cases "fst ?o")
       (simp_all add: UploadObject_def exec_simps copy_def close_file_def split_beta)
  then show ?thesis by (auto simp: events_def)
qed


lemma owes_UploadObject [balance_rules]: "owes {#} (UploadObject M vu c p cl)"
proof -
  have close: "owes ({#Writer wc#} + {#})
      (State_Monad.bind (call_unit (st_close_writer M wc) (\<lambda>r. Media (EvCloseWriter wc r))) (\<lambda>closed. ret (k closed)))"
    for wc and k :: "unit res \<Rightarrow> unit res"
    by (intro owes_bind owes_call owes_ret) simp_all
  have closing: "owes ({#} + ({#Writer wc#} + {#})) (State_Monad.bind (copy M wc f) (\<lambda>r.
      State_Monad.bind (call_unit (st_close_writer M wc) (\<lambda>r. Media (EvCloseWriter wc r))) (\<lambda>closed.
      ret (g r closed))))" for wc f and g :: "unit res \<Rightarrow> unit res \<Rightarrow> unit res"
    unfolding copy_def by (intro owes_bind owes_call close) simp_all
  show ?thesis
    unfolding UploadObject_def close_file_def
    by (intro owes_open owes_deferring owes_open_bind [where R = "\<lambda>wc. {#} + ({#Writer wc#} + {#})"] closing)
       (auto intro!: owes_perform)
qed

context media_contract
begin

lemma keeps_UploadObject: "keeps V (UploadObject M vu c p cl)"
  unfolding UploadObject_def copy_def close_file_def
  by (auto intro!: keep_rules media_frame)

lemma keeps_loadPaths: "keeps V (loadPaths M vu)"
  by (rule keepsI) (simp add: loadPaths_def split: prod.split option.split)

end

end
