(* ===== verification/Upload_Pool.thy ===== *)
theory Upload_Pool
  imports Upload
begin

text \<open>
  \<^verbatim>\<open>ProcessUpload\<close> and \<^verbatim>\<open>uploadWorker\<close> of \<^verbatim>\<open>internal/upload/manager.go\<close>: the feeding loop, the
  buffered channel and the workers as a system of moves. \<open>pl_done\<close> is a history of the model: the
  uploads finished so far with their outcomes, in the order they finished.
\<close>

datatype worker = Idle | Busy nat | Exited

record pool =
  pl_next :: nat
  pl_closed :: bool
  pl_buf :: "nat list"
  pl_workers :: "worker list"
  pl_errors :: "string list"
  pl_panic :: bool
  pl_done :: "(nat \<times> unit res) list"

datatype move = Feed | CloseIn | Recv nat | FinishUpload nat | Exit nat

text \<open>
  The moves the goroutines can make: the main goroutine sends the next index when the channel has
  room and closes it after the last one; a worker receives when there is an index, leaves its loop
  when the channel is closed and empty, or uploads the file it received.
\<close>

definition worker_moves :: "pool \<Rightarrow> nat \<Rightarrow> move list" where
  "worker_moves p i = (case pl_workers p ! i of
       Idle \<Rightarrow> if pl_buf p \<noteq> [] then [Recv i] else if pl_closed p then [Exit i] else []
     | Busy x \<Rightarrow> [FinishUpload i]
     | Exited \<Rightarrow> [])"

definition feeder_moves :: "nat \<Rightarrow> nat \<Rightarrow> pool \<Rightarrow> move list" where
  "feeder_moves n cap p =
     (if pl_next p < n then (if length (pl_buf p) < cap then [Feed] else [])
      else if \<not> pl_closed p then [CloseIn] else [])"

definition moves :: "nat \<Rightarrow> nat \<Rightarrow> pool \<Rightarrow> move list" where
  "moves n cap p = (if pl_panic p then []
     else feeder_moves n cap p @ concat (map (worker_moves p) [0..<length (pl_workers p)]))"

definition is_ok :: "'a res \<Rightarrow> bool" where
  "is_ok r = (case r of Ok _ \<Rightarrow> True | _ \<Rightarrow> False)"

definition finish_upload :: "'w media \<Rightarrow> video_upload \<Rightarrow> ctx \<Rightarrow> handle \<Rightarrow> nat \<Rightarrow> pool \<Rightarrow> ('w, pool) io" where
  "finish_upload M vu c client i p = (case pl_workers p ! i of
       Busy x \<Rightarrow>
         if x < length (vu_Paths vu) then do {
           r \<leftarrow> UploadObject M vu c (vu_Paths vu ! x) client;
           ret (p\<lparr>pl_workers := (pl_workers p)[i := Idle],
                  pl_errors := (if is_ok r then pl_errors p else pl_errors p @ [vu_Paths vu ! x]),
                  pl_done := pl_done p @ [(x, r)]\<rparr>)
         } else ret (p\<lparr>pl_panic := True\<rparr>)
     | _ \<Rightarrow> ret p)"

fun make_move :: "'w media \<Rightarrow> video_upload \<Rightarrow> ctx \<Rightarrow> handle \<Rightarrow> move \<Rightarrow> pool \<Rightarrow> ('w, pool) io" where
  "make_move M vu c client Feed p = ret (p\<lparr>pl_next := pl_next p + 1, pl_buf := pl_buf p @ [pl_next p]\<rparr>)"
| "make_move M vu c client CloseIn p = ret (p\<lparr>pl_closed := True\<rparr>)"
| "make_move M vu c client (Recv i) p =
     ret (p\<lparr>pl_workers := (pl_workers p)[i := Busy (hd (pl_buf p))], pl_buf := tl (pl_buf p)\<rparr>)"
| "make_move M vu c client (Exit i) p = ret (p\<lparr>pl_workers := (pl_workers p)[i := Exited]\<rparr>)"
| "make_move M vu c client (FinishUpload i) p = finish_upload M vu c client i p"

text \<open>Every move uses up some of a budget, so a run ends whatever the scheduler does.\<close>

primrec worker_cost :: "worker \<Rightarrow> nat" where
  "worker_cost Idle = 1"
| "worker_cost (Busy x) = 2"
| "worker_cost Exited = 0"

definition budget :: "nat \<Rightarrow> pool \<Rightarrow> nat" where
  "budget n p = 3 * (n - pl_next p) + 2 * length (pl_buf p) + (\<Sum>v\<leftarrow>pl_workers p. worker_cost v)
     + (if pl_closed p then 0 else 1) + (if pl_panic p then 0 else 1)"

lemma cost_update: "i < length ws \<Longrightarrow>
  (\<Sum>v\<leftarrow>ws[i := u]. worker_cost v) + worker_cost (ws ! i) = (\<Sum>v\<leftarrow>ws. worker_cost v) + worker_cost u"
  by (rule sum_list_update_add)

lemma moves_cases:
  assumes "m \<in> set (moves n cap p)"
  obtains (feed) "m = Feed" "\<not> pl_panic p" "pl_next p < n" "length (pl_buf p) < cap"
  | (close) "m = CloseIn" "\<not> pl_panic p" "n \<le> pl_next p" "\<not> pl_closed p"
  | (recv) i where "m = Recv i" "\<not> pl_panic p" "i < length (pl_workers p)" "pl_workers p ! i = Idle" "pl_buf p \<noteq> []"
  | (exit) i where "m = Exit i" "\<not> pl_panic p" "i < length (pl_workers p)" "pl_workers p ! i = Idle"
      "pl_buf p = []" "pl_closed p"
  | (finish) i x where "m = FinishUpload i" "\<not> pl_panic p" "i < length (pl_workers p)" "pl_workers p ! i = Busy x"
proof -
  have np: "\<not> pl_panic p" and m: "m \<in> set (feeder_moves n cap p) \<or>
      (\<exists>i<length (pl_workers p). m \<in> set (worker_moves p i))"
    using assms by (auto simp: moves_def split: if_splits)
  from m show ?thesis
  proof
    assume "m \<in> set (feeder_moves n cap p)"
    then show ?thesis using np feed close by (auto simp: feeder_moves_def split: if_splits)
  next
    assume "\<exists>i<length (pl_workers p). m \<in> set (worker_moves p i)"
    then obtain i where i: "i < length (pl_workers p)" "m \<in> set (worker_moves p i)" by blast
    then show ?thesis
      using np recv [of i] exit [of i] finish [of i]
      by (cases "pl_workers p ! i") (auto simp: worker_moves_def split: if_splits)
  qed
qed

lemma make_move_budget:
  assumes "m \<in> set (moves n cap p)"
  shows "budget n (val (make_move M vu c client m p) w) < budget n p"
  using assms
proof (cases rule: moves_cases)
  case feed
  then show ?thesis by (simp add: budget_def)
next
  case close
  then show ?thesis by (simp add: budget_def)
next
  case (recv i)
  then show ?thesis
    using cost_update [of i "pl_workers p" "Busy (hd (pl_buf p))"]
    by (cases "pl_buf p") (simp_all add: budget_def)
next
  case (exit i)
  then show ?thesis
    using cost_update [of i "pl_workers p" Exited] by (simp add: budget_def)
next
  case (finish i x)
  then show ?thesis
    using cost_update [of i "pl_workers p" Idle]
    by (simp add: budget_def finish_upload_def split_beta)
qed

text \<open>
  The run of the pool: while some goroutine can move, the scheduler picks one. Nothing can move
  when the wait group is done, or when the pool is stuck.
\<close>

function run_pool :: "'w runtime \<Rightarrow> 'w media \<Rightarrow> video_upload \<Rightarrow> ctx \<Rightarrow> handle \<Rightarrow> pool \<Rightarrow> 'w world \<Rightarrow> pool \<times> 'w world" where
  "run_pool T M vu c client p w =
     (let ms = moves (length (vu_Paths vu)) (rt_numcpu T) p;
          pick = rt_pick T (length ms) (ext w);
          step = run_state (make_move M vu c client (ms ! (fst pick mod length ms)) p) (w\<lparr>ext := snd pick\<rparr>)
      in if ms = [] then (p, w) else run_pool T M vu c client (fst step) (snd step))"
  by pat_completeness auto
termination
  by (relation "measure (\<lambda>(T, M, vu, c, client, p, w). budget (length (vu_Paths vu)) p)")
     (auto simp: Let_def split_beta intro!: make_move_budget nth_mem)

declare run_pool.simps [simp del]

definition init_pool :: "nat \<Rightarrow> pool" where
  "init_pool k = \<lparr>pl_next = 0, pl_closed = False, pl_buf = [], pl_workers = replicate k Idle,
     pl_errors = [], pl_panic = False, pl_done = []\<rparr>"

text \<open>The number of goroutines for a requested concurrency and a number of files.\<close>

definition workerCount :: "int \<Rightarrow> nat \<Rightarrow> nat" where
  "workerCount concurrency n =
     (let workers = (if concurrency \<le> 0 then 1 else concurrency)
      in if workers > int n then n else nat workers)"

definition upload_error :: "video_upload \<Rightarrow> pool \<Rightarrow> err" where
  "upload_error vu p = ErrText (show_nat (length (pl_errors p)) @ '' of '' @
     show_nat (length (vu_Paths vu)) @ '' uploads failed (e.g. '' @ hd (pl_errors p) @ '')'')"

definition ProcessUpload :: "'w runtime \<Rightarrow> 'w media \<Rightarrow> video_upload \<Rightarrow> ctx \<Rightarrow> int \<Rightarrow> ('w, unit res) io" where
  "ProcessUpload T M vu0 c concurrency =
     attempt (wrap ''load output paths: '' (loadPaths M (vu0\<lparr>vu_Paths := [], vu_Errors := []\<rparr>))) (\<lambda>vu.
     if vu_Paths vu = [] then ret (Err (ErrText (''no output files found under '' @ vu_VideoPath vu)))
     else attempt (wrap ''storage client: ''
            (call (st_new_client M c) (\<lambda>r. Media (EvNewClient c r)))) (\<lambda>client.
     deferring (call_unit (st_close_client M client) (\<lambda>r. Media (EvCloseClient client r))) (do {
       p \<leftarrow> State (run_pool T M vu c client (init_pool (workerCount concurrency (length (vu_Paths vu)))));
       ret (if pl_panic p then Panic
            else if pl_errors p \<noteq> [] then Err (upload_error vu p)
            else Ok ())
     })))"


section \<open>The invariant of the pool\<close>

text \<open>Failed calls and written objects, read off the log.\<close>

fun upload_failed :: "event \<Rightarrow> bool" where
  "upload_failed (Media (EvOpenFile p (Inl e))) = True"
| "upload_failed (Media (EvCopy d s (Some e))) = True"
| "upload_failed (Media (EvCloseWriter h (Some e))) = True"
| "upload_failed _ = False"

fun written :: "event list \<Rightarrow> (string \<times> string) list" where
  "written [] = []"
| "written (Media (EvNewWriter c cl b obj h) # es) = (b, obj) # written es"
| "written (_ # es) = written es"

lemma written_append [simp]: "written (es @ fs) = written es @ written fs"
  by (induction es rule: written.induct) auto

lemma UploadObject_log:
  "\<exists>es. log (post (UploadObject M vu c p cl) w) = log w @ es \<and> list_all is_media es \<and> opened es = [p] \<and>
     (is_ok (val (UploadObject M vu c p cl) w) \<longleftrightarrow> \<not> list_ex upload_failed es) \<and>
     (\<not> list_ex upload_failed es \<longrightarrow> written es = [(vu_OutputBucket vu, objectName vu p)])"
proof (cases "fst (os_open M p (ext w))")
  case (Inl e)
  then show ?thesis by (simp add: UploadObject_def exec_simps is_ok_def)
next
  case (Inr f)
  let ?x1 = "snd (os_open M p (ext w))"
  let ?wr = "st_new_writer M c cl (vu_OutputBucket vu) (objectName vu p) ?x1"
  let ?cp = "io_copy M (fst ?wr) f (snd ?wr)"
  let ?cw = "st_close_writer M (fst ?wr) (snd ?cp)"
  let ?es = "[Media (EvOpenFile p (Inr f)),
      Media (EvNewWriter c cl (vu_OutputBucket vu) (objectName vu p) (fst ?wr)),
      Media (EvCopy (fst ?wr) f (fst ?cp)), Media (EvCloseWriter (fst ?wr) (fst ?cw)),
      Media (EvCloseFile f)]"
  have "log (post (UploadObject M vu c p cl) w) = log w @ ?es"
    using Inr by (simp add: UploadObject_def exec_simps copy_def close_file_def)
  moreover have "is_ok (val (UploadObject M vu c p cl) w) \<longleftrightarrow> fst ?cp = None \<and> fst ?cw = None"
    using Inr by (cases "fst ?cp"; cases "fst ?cw")
      (simp_all add: UploadObject_def exec_simps copy_def close_file_def is_ok_def)
  ultimately show ?thesis
    by (intro exI [of _ ?es]) (cases "fst ?cp"; cases "fst ?cw"; simp)
qed

primrec busy_of :: "worker \<Rightarrow> nat multiset" where
  "busy_of Idle = {#}"
| "busy_of (Busy x) = {#x#}"
| "busy_of Exited = {#}"

abbreviation in_flight :: "pool \<Rightarrow> nat multiset" where
  "in_flight p \<equiv> (\<Sum>v\<leftarrow>pl_workers p. busy_of v)"

definition pool_log :: "video_upload \<Rightarrow> 'w world \<Rightarrow> pool \<Rightarrow> 'w world \<Rightarrow> bool" where
  "pool_log vu w0 p w \<longleftrightarrow> (\<exists>es. log w = log w0 @ es \<and> list_all is_media es \<and>
     opened es = map (\<lambda>d. vu_Paths vu ! fst d) (pl_done p) \<and>
     (list_all (\<lambda>d. is_ok (snd d)) (pl_done p) \<longleftrightarrow> \<not> list_ex upload_failed es) \<and>
     (\<not> list_ex upload_failed es \<longrightarrow>
        written es = map (\<lambda>d. (vu_OutputBucket vu, objectName vu (vu_Paths vu ! fst d))) (pl_done p)))"

definition pool_inv :: "video_upload \<Rightarrow> nat \<Rightarrow> 'w world \<Rightarrow> pool \<Rightarrow> 'w world \<Rightarrow> bool" where
  "pool_inv vu k w0 p w \<longleftrightarrow>
     pl_next p \<le> length (vu_Paths vu) \<and> \<not> pl_panic p \<and> length (pl_workers p) = k \<and>
     mset (pl_buf p) + in_flight p + mset (map fst (pl_done p)) = mset [0..<pl_next p] \<and>
     (pl_closed p \<longrightarrow> pl_next p = length (vu_Paths vu)) \<and>
     (Exited \<in> set (pl_workers p) \<longrightarrow> pl_closed p \<and> pl_buf p = []) \<and>
     pl_errors p = map (\<lambda>d. vu_Paths vu ! fst d) (filter (\<lambda>d. \<not> is_ok (snd d)) (pl_done p)) \<and>
     pool_log vu w0 p w"

lemma in_flight_update:
  "i < length ws \<Longrightarrow>
   (\<Sum>v\<leftarrow>ws[i := u]. busy_of v) + busy_of (ws ! i) = (\<Sum>v\<leftarrow>ws. busy_of v) + busy_of u"
  by (rule sum_list_update_add)

lemma pool_inv_init: "pool_inv vu k w (init_pool k) w"
proof -
  have "(\<Sum>v\<leftarrow>replicate k Idle. busy_of v) = {#}" by (induction k) auto
  then show ?thesis
    by (auto simp: pool_inv_def init_pool_def pool_log_def)
qed

lemma pool_log_silent: "log w' = log w \<Longrightarrow> pool_log vu w0 p w \<Longrightarrow> pl_done p' = pl_done p \<Longrightarrow> pool_log vu w0 p' w'"
  by (simp add: pool_log_def)

lemma pool_log_upload:
  assumes "pool_log vu w0 p w"
    and "r = val (UploadObject M vu c (vu_Paths vu ! x) cl) w" "w' = post (UploadObject M vu c (vu_Paths vu ! x) cl) w"
    and "pl_done p' = pl_done p @ [(x, r)]"
  shows "pool_log vu w0 p' w'"
proof -
  obtain es where es: "log w = log w0 @ es" "list_all is_media es"
      "opened es = map (\<lambda>d. vu_Paths vu ! fst d) (pl_done p)"
      "list_all (\<lambda>d. is_ok (snd d)) (pl_done p) \<longleftrightarrow> \<not> list_ex upload_failed es"
      "\<not> list_ex upload_failed es \<longrightarrow>
        written es = map (\<lambda>d. (vu_OutputBucket vu, objectName vu (vu_Paths vu ! fst d))) (pl_done p)"
    using assms(1) unfolding pool_log_def by blast
  obtain fs where fs: "log w' = log w @ fs" "list_all is_media fs" "opened fs = [vu_Paths vu ! x]"
      "is_ok r \<longleftrightarrow> \<not> list_ex upload_failed fs"
      "\<not> list_ex upload_failed fs \<longrightarrow> written fs = [(vu_OutputBucket vu, objectName vu (vu_Paths vu ! x))]"
    using UploadObject_log [of M vu c "vu_Paths vu ! x" cl w] assms(2,3) by blast
  show ?thesis
    unfolding pool_log_def
    by (rule exI [of _ "es @ fs"]) (use es fs assms(4) in auto)
qed


lemma set_update_other: "y \<in> set (xs[i := v]) \<Longrightarrow> y = v \<or> y \<in> set xs"
  by (meson insertE set_update_subset_insert subsetD)

lemma pool_inv_busy:
  assumes inv: "pool_inv vu k w0 p w" and i: "i < length (pl_workers p)" "pl_workers p ! i = Busy x"
  shows "x < length (vu_Paths vu)"
proof -
  have "in_flight p = (\<Sum>v\<leftarrow>(pl_workers p)[i := Idle]. busy_of v) + {#x#}"
    using in_flight_update [OF i(1), of Idle] i(2) by simp
  then have "x \<in># in_flight p" by simp
  then have "x \<in># mset (pl_buf p) + in_flight p + mset (map fst (pl_done p))"
    by simp
  then have "x \<in># mset [0..<pl_next p]"
    using inv by (simp only: pool_inv_def)
  then show ?thesis using inv by (simp add: pool_inv_def)
qed

lemma pool_inv_move:
  assumes m: "m \<in> set (moves (length (vu_Paths vu)) cap p)" and inv: "pool_inv vu k w0 p w"
  shows "pool_inv vu k w0 (val (make_move M vu c cl m p) w) (post (make_move M vu c cl m p) w)"
  using m
proof (cases rule: moves_cases)
  case feed
  then show ?thesis using inv by (auto simp: pool_inv_def pool_log_def)
next
  case close
  then show ?thesis using inv by (auto simp: pool_inv_def pool_log_def)
next
  case (recv i)
  then obtain x xs where buf: "pl_buf p = x # xs" by (cases "pl_buf p") auto
  have "(\<Sum>v\<leftarrow>(pl_workers p)[i := Busy x]. busy_of v) = in_flight p + {#x#}"
    using in_flight_update [of i "pl_workers p" "Busy x"] recv by simp
  moreover have "Exited \<notin> set ((pl_workers p)[i := Busy x])"
    using inv buf by (auto simp: pool_inv_def dest: set_update_other)
  ultimately show ?thesis
    using inv recv buf by (auto simp: pool_inv_def pool_log_def)
next
  case (exit i)
  have "(\<Sum>v\<leftarrow>(pl_workers p)[i := Exited]. busy_of v) = in_flight p"
    using in_flight_update [of i "pl_workers p" Exited] exit by simp
  then show ?thesis
    using inv exit by (auto simp: pool_inv_def pool_log_def)
next
  case (finish i x)
  let ?r = "val (UploadObject M vu c (vu_Paths vu ! x) cl) w"
  let ?w' = "post (UploadObject M vu c (vu_Paths vu ! x) cl) w"
  let ?p' = "p\<lparr>pl_workers := (pl_workers p)[i := Idle],
      pl_errors := (if is_ok ?r then pl_errors p else pl_errors p @ [vu_Paths vu ! x]),
      pl_done := pl_done p @ [(x, ?r)]\<rparr>"
  have x: "x < length (vu_Paths vu)" by (rule pool_inv_busy [OF inv finish(3,4)])
  have run: "val (make_move M vu c cl m p) w = ?p'" "post (make_move M vu c cl m p) w = ?w'"
    using finish x by (simp_all add: finish_upload_def split_beta)
  have fl: "(\<Sum>v\<leftarrow>(pl_workers p)[i := Idle]. busy_of v) + {#x#} = in_flight p"
    using in_flight_update [OF finish(3), of Idle] finish(4) by simp
  have "mset (pl_buf p) + in_flight p + mset (map fst (pl_done p)) = mset [0..<pl_next p]"
    using inv by (simp only: pool_inv_def)
  then have ms: "mset (pl_buf p) + (\<Sum>v\<leftarrow>(pl_workers p)[i := Idle]. busy_of v) + mset (map fst (pl_done ?p'))
      = mset [0..<pl_next p]"
    by (simp add: fl [symmetric] del: mset_map mset_upt)
  have lg: "pool_log vu w0 ?p' ?w'"
  proof (rule pool_log_upload [OF _ refl refl])
    show "pool_log vu w0 p w" using inv by (simp only: pool_inv_def)
  qed simp
  have ex: "Exited \<in> set ((pl_workers p)[i := Idle]) \<longrightarrow> pl_closed p \<and> pl_buf p = []"
    using inv by (auto simp: pool_inv_def dest: set_update_other)
  show ?thesis
    unfolding run using inv ms lg ex by (simp add: pool_inv_def)
qed

lemma pool_stuck:
  assumes inv: "pool_inv vu k w0 p w" and stuck: "moves (length (vu_Paths vu)) cap p = []"
    and "0 < cap" "0 < k"
  shows "pl_closed p" "set (pl_workers p) = {Exited}" "mset (map fst (pl_done p)) = mset [0..<length (vu_Paths vu)]"
proof -
  let ?n = "length (vu_Paths vu)"
  have k: "length (pl_workers p) = k" and np: "\<not> pl_panic p" and le: "pl_next p \<le> ?n"
    using inv by (simp_all add: pool_inv_def)
  have f: "feeder_moves ?n cap p = []" and wm: "\<And>i. i < k \<Longrightarrow> worker_moves p i = []"
    using stuck np k by (auto simp: moves_def)
  have ex: "pl_workers p ! i = Exited \<or> (pl_buf p = [] \<and> \<not> pl_closed p)" if "i < k" for i
    using wm [OF that] by (auto simp: worker_moves_def split: worker.splits if_splits)
  have closed_of_exited: "pl_closed p \<and> pl_buf p = []" if "i < k" "pl_workers p ! i = Exited" for i
  proof -
    have "Exited \<in> set (pl_workers p)" using that k by (metis nth_mem)
    then show ?thesis using inv by (simp add: pool_inv_def)
  qed
  show closed: "pl_closed p"
  proof (rule ccontr)
    assume nc: "\<not> pl_closed p"
    with f have "pl_next p < ?n" "cap \<le> length (pl_buf p)"
      by (auto simp: feeder_moves_def split: if_splits)
    with \<open>0 < cap\<close> have "pl_buf p \<noteq> []" by auto
    with ex [of 0] \<open>0 < k\<close> closed_of_exited [of 0] show False by blast
  qed
  have all: "pl_workers p ! i = Exited" if "i < k" for i
    using ex [OF that] closed by blast
  then show ws: "set (pl_workers p) = {Exited}"
    using k \<open>0 < k\<close> by (auto simp: set_conv_nth) (metis length_greater_0_conv)
  have "in_flight p = (\<Sum>v\<leftarrow>pl_workers p. {#})"
    using ws by (intro arg_cong [where f = sum_list] map_cong) auto
  moreover have "pl_buf p = []" using closed_of_exited [of 0] all [of 0] \<open>0 < k\<close> by blast
  moreover have "pl_next p = ?n" using inv closed by (simp add: pool_inv_def)
  ultimately show "mset (map fst (pl_done p)) = mset [0..<?n]"
    using inv by (simp add: pool_inv_def)
qed

text \<open>A property of pool and world that every move keeps holds at the end of a run.\<close>

lemma run_pool_invariant:
  assumes "P p w"
    and "\<And>p w m n. P p w \<Longrightarrow> m \<in> set (moves (length (vu_Paths vu)) (rt_numcpu T) p) \<Longrightarrow>
      P (val (make_move M vu c cl m p) (w\<lparr>ext := snd (rt_pick T n (ext w))\<rparr>))
        (post (make_move M vu c cl m p) (w\<lparr>ext := snd (rt_pick T n (ext w))\<rparr>))"
  shows "P (fst (run_pool T M vu c cl p w)) (snd (run_pool T M vu c cl p w))"
  using assms
proof (induction T M vu c cl p w rule: run_pool.induct)
  case (1 T M vu c cl p w)
  let ?ms = "moves (length (vu_Paths vu)) (rt_numcpu T) p"
  show ?case
  proof (cases "?ms = []")
    case True
    then show ?thesis using 1(2) by (simp add: run_pool.simps [of T M vu c cl p w] Let_def)
  next
    case False
    let ?pick = "rt_pick T (length ?ms) (ext w)"
    have "?ms ! (fst ?pick mod length ?ms) \<in> set ?ms" using False by simp
    from 1(3) [OF 1(2) this] 1(1) [OF refl refl refl False _ 1(3)] False show ?thesis
      by (simp add: run_pool.simps [of T M vu c cl p w] Let_def)
  qed
qed

lemma run_pool_final: "moves (length (vu_Paths vu)) (rt_numcpu T) (fst (run_pool T M vu c cl p w)) = []"
proof (induction T M vu c cl p w rule: run_pool.induct)
  case (1 T M vu c cl p w)
  show ?case
  proof (cases "moves (length (vu_Paths vu)) (rt_numcpu T) p = []")
    case True
    then show ?thesis by (simp add: run_pool.simps [of T M vu c cl p w] Let_def)
  next
    case False
    with 1 [OF refl refl refl False] show ?thesis
      by (simp add: run_pool.simps [of T M vu c cl p w] Let_def)
  qed
qed

lemma run_pool_spec:
  assumes "pool_inv vu k w0 p w" "0 < rt_numcpu T" "0 < k"
  shows "case run_pool T M vu c cl p w of (p', w') \<Rightarrow>
    pool_inv vu k w0 p' w' \<and> moves (length (vu_Paths vu)) (rt_numcpu T) p' = []"
proof -
  have "pool_inv vu k w0 p (w\<lparr>ext := x\<rparr>)" if "pool_inv vu k w0 p w" for p x and w :: "'a world"
    using that by (simp add: pool_inv_def pool_log_def)
  then have "pool_inv vu k w0 (fst (run_pool T M vu c cl p w)) (snd (run_pool T M vu c cl p w))"
    using assms(1) pool_inv_move by (intro run_pool_invariant [where P = "pool_inv vu k w0"]) blast+
  then show ?thesis by (simp add: split_beta run_pool_final)
qed

text \<open>Every recorded outcome is that of a call of \<^verbatim>\<open>UploadObject\<close> for its file.\<close>

definition done_by :: "'w media \<Rightarrow> video_upload \<Rightarrow> ctx \<Rightarrow> handle \<Rightarrow> pool \<Rightarrow> bool" where
  "done_by M vu c cl p \<longleftrightarrow>
     (\<forall>(x, r) \<in> set (pl_done p). \<exists>w. r = val (UploadObject M vu c (vu_Paths vu ! x) cl) w)"

lemma done_by_move: "done_by M vu c cl p \<Longrightarrow> done_by M vu c cl (val (make_move M vu c cl m p) w)"
  by (cases m) (auto simp: done_by_def finish_upload_def split_beta split: worker.split)

lemma run_pool_done: "done_by M vu c cl (fst (run_pool T M vu c cl (init_pool k) w))"
  by (rule run_pool_invariant [where P = "\<lambda>p w. done_by M vu c cl p"])
     (simp_all add: done_by_move, simp add: done_by_def init_pool_def)

lemma workerCount_bounds:
  assumes "0 < n"
  shows "1 \<le> workerCount q n" "workerCount q n \<le> n" "0 < q \<Longrightarrow> int (workerCount q n) \<le> q"
  using assms by (auto simp: workerCount_def Let_def)



section \<open>What a call of \<^verbatim>\<open>ProcessUpload\<close> does\<close>

lemma emits_make_move: "emits (is_upload c) (make_move M vu c cl m p)"
  by (cases m) (auto simp: finish_upload_def intro!: emit_rules emits_UploadObject_upload split: worker.split)

lemma run_pool_emits:
  fixes M :: "'w media"
  shows "\<exists>es. log (snd (run_pool T M vu c cl p w)) = log w @ es \<and> list_all (is_upload c) es"
proof (rule run_pool_invariant [where P = "\<lambda>p' w'. \<exists>es. log w' = log w @ es \<and> list_all (is_upload c) es"])
  fix p m n and w' :: "'w world"
  let ?w = "w'\<lparr>ext := snd (rt_pick T n (ext w'))\<rparr>"
  assume "\<exists>es. log w' = log w @ es \<and> list_all (is_upload c) es"
  then obtain es where "log ?w = log w @ es" "list_all (is_upload c) es" by auto
  then show "\<exists>es. log (post (make_move M vu c cl m p) ?w) = log w @ es \<and> list_all (is_upload c) es"
    using emits_log [OF emits_make_move, of M vu c cl m p ?w] emits_events [OF emits_make_move, of c M vu cl m p ?w]
    by (intro exI [of _ "es @ events (make_move M vu c cl m p) ?w"]) simp
qed simp

lemma emits_ProcessUpload [emit_rules]: "emits is_media (ProcessUpload T M vu c q)"
proof -
  have pool: "emits is_media (State (run_pool T M vu c cl p))" for cl p and vu :: video_upload
    by (rule emits_mono [OF emitsI, where P = "is_upload c"]) (simp_all add: run_pool_emits is_upload_media)
  have load: "emits is_media (loadPaths M vu)" for vu :: video_upload
    by (rule emitsI) (simp add: loadPaths_def split: prod.split option.split)
  show ?thesis
    unfolding ProcessUpload_def by (auto intro!: emit_rules pool load)
qed

definition upload_call :: "ctx \<Rightarrow> event \<Rightarrow> bool" where
  "upload_call c e \<longleftrightarrow> is_upload c e \<or> (\<exists>r. e = Media (EvNewClient c r)) \<or> (\<exists>h r. e = Media (EvCloseClient h r))"

lemma emits_ProcessUpload_upload: "emits (upload_call c) (ProcessUpload T M vu c q)"
proof -
  have pool: "emits (upload_call c) (State (run_pool T M vu c cl p))" for cl p and vu :: video_upload
    by (rule emits_mono [OF emitsI, where P = "is_upload c"]) (simp_all add: run_pool_emits upload_call_def)
  have load: "emits (upload_call c) (loadPaths M vu)" for vu :: video_upload
    by (rule emitsI) (simp add: loadPaths_def split: prod.split option.split)
  show ?thesis
    unfolding ProcessUpload_def by (auto intro!: emit_rules pool load simp: upload_call_def)
qed

lemma loadPaths_world [simp]: "post (loadPaths M vu) w = w"
  by (simp add: loadPaths_def split: prod.split option.split)

lemma ProcessUpload_run:
  assumes cpu: "0 < rt_numcpu T"
    and load: "val (loadPaths M (vu0\<lparr>vu_Paths := [], vu_Errors := []\<rparr>)) w = Ok vu"
    and some: "vu_Paths vu \<noteq> []"
    and client: "fst (st_new_client M c (ext w)) = Inr cl"
  obtains p es r where
    "events (ProcessUpload T M vu0 c q) w = Media (EvNewClient c (Inr cl)) # es @ [Media (EvCloseClient cl r)]"
    "val (ProcessUpload T M vu0 c q) w = (if pl_errors p \<noteq> [] then Err (upload_error vu p) else Ok ())"
    "mset (map fst (pl_done p)) = mset [0..<length (vu_Paths vu)]"
    "pl_errors p = map (\<lambda>d. vu_Paths vu ! fst d) (filter (\<lambda>d. \<not> is_ok (snd d)) (pl_done p))"
    "opened es = map (\<lambda>d. vu_Paths vu ! fst d) (pl_done p)"
    "list_all (\<lambda>d. is_ok (snd d)) (pl_done p) \<longleftrightarrow> \<not> list_ex upload_failed es"
    "\<not> list_ex upload_failed es \<longrightarrow>
       written es = map (\<lambda>d. (vu_OutputBucket vu, objectName vu (vu_Paths vu ! fst d))) (pl_done p)"
    "list_all (is_upload c) es" "done_by M vu c cl p"
proof -
  let ?k = "workerCount q (length (vu_Paths vu))"
  let ?w1 = "w\<lparr>ext := snd (st_new_client M c (ext w)), log := log w @ [Media (EvNewClient c (Inr cl))]\<rparr>"
  let ?pr = "run_pool T M vu c cl (init_pool ?k) ?w1"
  let ?p = "fst ?pr" and ?w2 = "snd ?pr"
  have k: "0 < ?k" using workerCount_bounds(1) [of "length (vu_Paths vu)" q] some by simp
  have inv: "pool_inv vu ?k ?w1 ?p ?w2" and stuck: "moves (length (vu_Paths vu)) (rt_numcpu T) ?p = []"
    using run_pool_spec [OF pool_inv_init cpu k, of vu ?w1 M c cl] by (simp_all add: split_beta)
  from inv obtain es where es: "log ?w2 = log ?w1 @ es"
      "opened es = map (\<lambda>d. vu_Paths vu ! fst d) (pl_done ?p)"
      "list_all (\<lambda>d. is_ok (snd d)) (pl_done ?p) \<longleftrightarrow> \<not> list_ex upload_failed es"
      "\<not> list_ex upload_failed es \<longrightarrow>
        written es = map (\<lambda>d. (vu_OutputBucket vu, objectName vu (vu_Paths vu ! fst d))) (pl_done ?p)"
    unfolding pool_inv_def pool_log_def by blast
  have up: "list_all (is_upload c) es"
    using run_pool_emits [of T M vu c cl "init_pool ?k" ?w1] es(1) by auto
  let ?r = "fst (st_close_client M cl (ext ?w2))"
  have run: "log (post (ProcessUpload T M vu0 c q) w) =
        log w @ Media (EvNewClient c (Inr cl)) # es @ [Media (EvCloseClient cl ?r)]"
      "val (ProcessUpload T M vu0 c q) w = (if pl_errors ?p \<noteq> [] then Err (upload_error vu ?p) else Ok ())"
    using load some client es(1) inv
    by (simp_all add: ProcessUpload_def run_attempt run_wrap run_call run_call_unit run_deferring
        split_beta pool_inv_def)
  show ?thesis
  proof (rule that)
    show "done_by M vu c cl ?p" by (rule run_pool_done)
    show "events (ProcessUpload T M vu0 c q) w =
        Media (EvNewClient c (Inr cl)) # es @ [Media (EvCloseClient cl ?r)]"
      by (rule events_eqI [OF run(1)])
    show "mset (map fst (pl_done ?p)) = mset [0..<length (vu_Paths vu)]"
      by (rule pool_stuck(3) [OF inv stuck cpu k])
    show "pl_errors ?p = map (\<lambda>d. vu_Paths vu ! fst d) (filter (\<lambda>d. \<not> is_ok (snd d)) (pl_done ?p))"
      using inv by (simp only: pool_inv_def)
  qed (use run(2) es up in simp_all)
qed

lemma owes_make_move: "owes {#} (make_move M vu c cl m p)"
  by (cases m) (auto simp: finish_upload_def intro!: balance_rules split: worker.split)

lemma owes_run_pool:
  fixes M :: "'w media"
  shows "owes {#} (State (run_pool T M vu c cl p))"
proof (rule owesI)
  fix w :: "'w world"
  have "\<exists>es. log (snd (run_pool T M vu c cl p w)) = log w @ es \<and>
      sum_list (map acquired es) = sum_list (map released es)"
  proof (rule run_pool_invariant [where P = "\<lambda>p' w'. \<exists>es. log w' = log w @ es \<and>
      sum_list (map acquired es) = sum_list (map released es)"])
    fix p m n and w' :: "'w world"
    let ?w = "w'\<lparr>ext := snd (rt_pick T n (ext w'))\<rparr>"
    assume "\<exists>es. log w' = log w @ es \<and> sum_list (map acquired es) = sum_list (map released es)"
    then obtain es where es: "log ?w = log w @ es" "sum_list (map acquired es) = sum_list (map released es)"
      by auto
    obtain fs where "log (post (make_move M vu c cl m p) ?w) = log ?w @ fs"
        "sum_list (map acquired fs) = sum_list (map released fs)"
      using owes_make_move unfolding owes_def by fastforce
    with es show "\<exists>es. log (post (make_move M vu c cl m p) ?w) = log w @ es \<and>
        sum_list (map acquired es) = sum_list (map released es)"
      by (intro exI [of _ "es @ fs"]) simp
  qed simp
  then show "\<exists>es. log (post (State (run_pool T M vu c cl p)) w) = log w @ es \<and>
      sum_list (map acquired es) + {#} = sum_list (map released es)" by simp
qed

lemma owes_ProcessUpload [balance_rules]: "owes {#} (ProcessUpload T M vu c q)"
proof -
  have load: "owes {#} (loadPaths M vu)" for vu
    by (rule owesI) (simp add: loadPaths_def split: prod.split option.split)
  have body: "owes {#Client cl#}
     (deferring (call_unit (st_close_client M cl) (\<lambda>r. Media (EvCloseClient cl r)))
       (State_Monad.bind (State (run_pool T M vu c cl p)) (\<lambda>p. ret (g p))))"
    for cl vu p and g :: "pool \<Rightarrow> unit res"
    by (intro owes_deferring owes_call owes_bind0 owes_run_pool owes_ret) simp_all
  show ?thesis
    unfolding ProcessUpload_def
    by (intro owes_attempt owes_wrap load owes_if owes_ret owes_open_wrap)
       (auto intro: body)
qed

context media_contract
begin

lemma keeps_make_move: "keeps V (make_move M vu c cl m p)"
  by (cases m) (auto simp: finish_upload_def intro!: keep_rules keeps_UploadObject split: worker.split)

end

lemma keeps_run_pool:
  assumes "media_contract T M V"
  shows "V (ext (snd (run_pool T M vu c cl p w))) = V (ext w)"
  by (rule run_pool_invariant [where P = "\<lambda>p' w'. V (ext w') = V (ext w)"])
     (simp_all add: keepsD [OF media_contract.keeps_make_move [OF assms]] media_contract.pick_frame [OF assms])

context media_contract
begin

lemma keeps_ProcessUpload: "keeps V (ProcessUpload T M vu c q)"
proof -
  have pool: "keeps V (State (run_pool T M vu c cl p))" for vu cl p
    by (rule keepsI) (simp add: keeps_run_pool [OF media_contract_axioms])
  show ?thesis
    unfolding ProcessUpload_def
    by (auto intro!: keep_rules pool keeps_loadPaths media_frame)
qed

end

lemma ProcessUpload_no_panic:
  assumes "0 < rt_numcpu T"
  shows "val (ProcessUpload T M vu0 c q) w \<noteq> Panic"
proof (cases "val (loadPaths M (vu0\<lparr>vu_Paths := [], vu_Errors := []\<rparr>)) w")
  case (Ok vu)
  show ?thesis
  proof (cases "vu_Paths vu = []")
    case True
    with Ok show ?thesis by (simp add: ProcessUpload_def run_attempt run_wrap split_beta)
  next
    case False
    show ?thesis
    proof (cases "fst (st_new_client M c (ext w))")
      case (Inl e)
      with Ok False show ?thesis
        by (simp add: ProcessUpload_def run_attempt run_wrap run_call split_beta)
    next
      case (Inr cl)
      from ProcessUpload_run [OF assms Ok False Inr, of q] show ?thesis
        by (metis res.distinct(3,5))
    qed
  qed
qed (simp_all add: ProcessUpload_def loadPaths_def run_attempt run_wrap split_beta
      split: prod.splits option.splits)

text \<open>The files behind a permutation of the indices are a permutation of the files.\<close>

lemma mset_nth_perm:
  assumes "mset (map fst ds) = mset [0..<length xs]"
  shows "mset (map (\<lambda>d. f (xs ! fst d)) ds) = mset (map f xs)"
proof -
  have "mset (map (\<lambda>d. f (xs ! fst d)) ds) = image_mset (\<lambda>i. f (xs ! i)) (mset (map fst ds))"
    by (simp add: image_mset.compositionality comp_def)
  also have "\<dots> = mset (map (\<lambda>i. f (xs ! i)) [0..<length xs])"
    by (subst assms) (simp only: mset_map)
  also have "map (\<lambda>i. f (xs ! i)) [0..<length xs] = map f xs"
    by (rule nth_equalityI) simp_all
  finally show ?thesis .
qed



section \<open>Properties\<close>

definition demo_upload :: video_upload where
  "demo_upload = \<lparr>vu_Paths = [], vu_VideoPath = ''/tmp/'' @ demo_id, vu_OutputBucket = ''out'',
     vu_OutputPrefix = ''out/x/'', vu_Errors = []\<rparr>"

lemma demo_loadPaths:
  "val (loadPaths mem_media (demo_upload\<lparr>vu_Paths := [], vu_Errors := []\<rparr>)) demo_world =
     Ok (demo_upload\<lparr>vu_Paths := [''/tmp/7d9b0e0e-2c1a-4b3c-8a1f-1a2b3c4d5e6f/stream.mpd'',
        ''/tmp/7d9b0e0e-2c1a-4b3c-8a1f-1a2b3c4d5e6f/video/init.mp4'']\<rparr>)"
  by code_simp


text \<open>
  C8: Whatever order the scheduler runs the goroutines in, a call of \<^verbatim>\<open>ProcessUpload\<close> that gets its
  storage client uploads every discovered file exactly once: the files it opens are the discovered
  files, as a multiset, and it ends without a panic, with every worker gone.
\<close>

theorem ProcessUpload_each_file_once:
  assumes "0 < rt_numcpu T"
    and "val (loadPaths M (vu0\<lparr>vu_Paths := [], vu_Errors := []\<rparr>)) w = Ok vu" "vu_Paths vu \<noteq> []"
    and "fst (st_new_client M c (ext w)) = Inr cl"
  shows "mset (opened (events (ProcessUpload T M vu0 c q) w)) = mset (vu_Paths vu) \<and>
    val (ProcessUpload T M vu0 c q) w \<noteq> Panic"
proof (rule ProcessUpload_run [OF assms, of q])
  fix p :: pool and es r
  assume "events (ProcessUpload T M vu0 c q) w = Media (EvNewClient c (Inr cl)) # es @ [Media (EvCloseClient cl r)]"
    and "mset (map fst (pl_done p)) = mset [0..<length (vu_Paths vu)]"
    and "opened es = map (\<lambda>d. vu_Paths vu ! fst d) (pl_done p)"
    and "val (ProcessUpload T M vu0 c q) w = (if pl_errors p \<noteq> [] then Err (upload_error vu p) else Ok ())"
  then show ?thesis using mset_nth_perm [of "pl_done p" "vu_Paths vu" "\<lambda>x. x"] by simp
qed

theorem ProcessUpload_each_file_once_witness:
  "mset (opened (events (ProcessUpload mem_runtime mem_media demo_upload Background 4) demo_world)) =
     {#''/tmp/7d9b0e0e-2c1a-4b3c-8a1f-1a2b3c4d5e6f/stream.mpd'',
       ''/tmp/7d9b0e0e-2c1a-4b3c-8a1f-1a2b3c4d5e6f/video/init.mp4''#} \<and>
   val (ProcessUpload mem_runtime mem_media demo_upload Background 4) demo_world \<noteq> Panic"
  using ProcessUpload_each_file_once [of mem_runtime mem_media demo_upload demo_world _ Background 0 4,
      OF _ demo_loadPaths]
  by (simp add: mem_runtime_def mem_media_def mm_open_def demo_world_def demo_ext_def Let_def)

text \<open>
  C9: \<^verbatim>\<open>ProcessUpload\<close> succeeds exactly when every open, copy and close of its uploads succeeded, and
  then the objects written are one per discovered file, in the configured bucket under the name
  \<^verbatim>\<open>objectName\<close> gives it; when one fails, the others are uploaded all the same (C1).
\<close>

theorem ProcessUpload_Ok_iff:
  assumes "0 < rt_numcpu T"
    and "val (loadPaths M (vu0\<lparr>vu_Paths := [], vu_Errors := []\<rparr>)) w = Ok vu" "vu_Paths vu \<noteq> []"
    and "fst (st_new_client M c (ext w)) = Inr cl"
  shows "(val (ProcessUpload T M vu0 c q) w = Ok () \<longleftrightarrow>
           \<not> list_ex upload_failed (events (ProcessUpload T M vu0 c q) w)) \<and>
    (val (ProcessUpload T M vu0 c q) w = Ok () \<longrightarrow>
       mset (written (events (ProcessUpload T M vu0 c q) w)) =
       mset (map (\<lambda>p. (vu_OutputBucket vu, objectName vu p)) (vu_Paths vu)))"
proof (rule ProcessUpload_run [OF assms, of q])
  fix p :: pool and es r
  assume ev: "events (ProcessUpload T M vu0 c q) w = Media (EvNewClient c (Inr cl)) # es @ [Media (EvCloseClient cl r)]"
    and perm: "mset (map fst (pl_done p)) = mset [0..<length (vu_Paths vu)]"
    and wr: "\<not> list_ex upload_failed es \<longrightarrow>
       written es = map (\<lambda>d. (vu_OutputBucket vu, objectName vu (vu_Paths vu ! fst d))) (pl_done p)"
    and ok: "list_all (\<lambda>d. is_ok (snd d)) (pl_done p) \<longleftrightarrow> \<not> list_ex upload_failed es"
    and er: "pl_errors p = map (\<lambda>d. vu_Paths vu ! fst d) (filter (\<lambda>d. \<not> is_ok (snd d)) (pl_done p))"
    and v: "val (ProcessUpload T M vu0 c q) w = (if pl_errors p \<noteq> [] then Err (upload_error vu p) else Ok ())"
  have "pl_errors p = [] \<longleftrightarrow> \<not> list_ex upload_failed es"
    using ok er by (simp add: filter_empty_conv list_all_iff)
  then show ?thesis
    using ev v wr mset_nth_perm [OF perm, of "\<lambda>x. (vu_OutputBucket vu, objectName vu x)"]
    by (simp split: if_splits)
qed

theorem ProcessUpload_Ok_iff_witness:
  "val (ProcessUpload mem_runtime mem_media demo_upload Background 4) demo_world = Ok () \<longleftrightarrow>
     \<not> list_ex upload_failed (events (ProcessUpload mem_runtime mem_media demo_upload Background 4) demo_world)"
  using ProcessUpload_Ok_iff [of mem_runtime mem_media demo_upload demo_world _ Background 0 4,
      OF _ demo_loadPaths]
  by (simp add: mem_runtime_def mem_media_def mm_open_def demo_world_def demo_ext_def Let_def)

text \<open>
  C10: The object names of an upload are faithful to the tree: when the working directory is a clean
  path, the files found under it are named by the output prefix joined with their path relative to
  it, and two files never get the same name.
\<close>

theorem upload_names_of_tree:
  assumes "clean_dir (vu_VideoPath vu)"
    and "os_tree M (vu_VideoPath vu) (ext w) = Inr (DirNode es)"
    and "readable (DirNode es)" "proper_tree (DirNode es)"
  shows "\<exists>vu'. val (loadPaths M (vu\<lparr>vu_Paths := []\<rparr>)) w = Ok vu' \<and>
    map (objectName vu') (vu_Paths vu') =
      map (\<lambda>ns. Join [effective_prefix vu, join_slash ns]) (rel_files (DirNode es)) \<and>
    distinct (map (objectName vu') (vu_Paths vu'))"
proof -
  let ?vu = "vu\<lparr>vu_Paths := map (walk_path (vu_VideoPath vu)) (rel_files_in es)\<rparr>"
  have load: "val (loadPaths M (vu\<lparr>vu_Paths := []\<rparr>)) w = Ok ?vu"
    using assms(2) walk_load(1) [OF assms(3), of "vu_VideoPath vu" "[]"]
    by (simp add: loadPaths_def Walk_def)
  have valid: "list_all valid_name ns \<and> ns \<noteq> []" if "ns \<in> set (rel_files_in es)" for ns
    using rel_files_valid(2) [OF _ that] assms(4) by simp
  have pre: "effective_prefix ?vu = effective_prefix vu" by (simp add: effective_prefix_def)
  have names: "map (objectName ?vu) (vu_Paths ?vu) =
      map (\<lambda>ns. Join [effective_prefix vu, join_slash ns]) (rel_files_in es)"
    using valid assms(1) pre objectName_clean [of ?vu] by simp
  have "inj_on (\<lambda>ns. Join [effective_prefix vu, join_slash ns]) (set (rel_files_in es))"
    using valid Join_prefix_inj [OF effective_prefix_nonempty] by (intro inj_onI) blast
  moreover have "distinct (rel_files_in es)"
    using rel_files_distinct(2) assms(4) by simp
  ultimately have "distinct (map (objectName ?vu) (vu_Paths ?vu))"
    unfolding names by (simp add: distinct_map)
  with load names show ?thesis by auto
qed

theorem upload_names_of_tree_witness:
  "\<exists>vu'. val (loadPaths mem_media (demo_upload\<lparr>vu_Paths := []\<rparr>)) demo_world = Ok vu' \<and>
     map (objectName vu') (vu_Paths vu') = [''out/x/stream.mpd'', ''out/x/video/init.mp4''] \<and>
     distinct (map (objectName vu') (vu_Paths vu'))"
proof -
  have "clean_dir (vu_VideoPath demo_upload)" by code_simp
  moreover have "os_tree mem_media (vu_VideoPath demo_upload) (ext demo_world) =
      Inr (DirNode [Entry ''stream.mpd'' FileNode, Entry ''video'' (DirNode [Entry ''init.mp4'' FileNode])])"
    by (simp add: mem_media_def demo_defs)
  moreover have "readable (DirNode [Entry ''stream.mpd'' FileNode, Entry ''video'' (DirNode [Entry ''init.mp4'' FileNode])])"
    "proper_tree (DirNode [Entry ''stream.mpd'' FileNode, Entry ''video'' (DirNode [Entry ''init.mp4'' FileNode])])"
    by (simp_all add: valid_name_def)
  moreover have "map (\<lambda>ns. Join [effective_prefix demo_upload, join_slash ns])
      (rel_files (DirNode [Entry ''stream.mpd'' FileNode, Entry ''video'' (DirNode [Entry ''init.mp4'' FileNode])]))
      = [''out/x/stream.mpd'', ''out/x/video/init.mp4'']"
    by code_simp
  ultimately show ?thesis
    using upload_names_of_tree [of demo_upload mem_media demo_world] by metis
qed


section \<open>The pool against a loop\<close>

text \<open>The reference: upload one file after the other and collect those that failed.\<close>

fun sequential_upload :: "'w media \<Rightarrow> video_upload \<Rightarrow> ctx \<Rightarrow> handle \<Rightarrow> string list \<Rightarrow> ('w, string list) io" where
  "sequential_upload M vu c client [] = ret []"
| "sequential_upload M vu c client (p # ps) = do {
     r \<leftarrow> UploadObject M vu c p client;
     failed \<leftarrow> sequential_upload M vu c client ps;
     ret (if is_ok r then failed else p # failed)
   }"

text \<open>A storage where the outcome of an upload depends on the file only.\<close>

definition steady :: "'w media \<Rightarrow> video_upload \<Rightarrow> ctx \<Rightarrow> handle \<Rightarrow> (string \<Rightarrow> bool) \<Rightarrow> bool" where
  "steady M vu c client ok \<longleftrightarrow> (\<forall>p w. is_ok (val (UploadObject M vu c p client) w) = ok p)"

lemma sequential_upload_failed:
  "steady M vu c cl ok \<Longrightarrow> val (sequential_upload M vu c cl ps) w = filter (\<lambda>p. \<not> ok p) ps"
  by (induction ps arbitrary: w) (simp_all add: steady_def split_beta)

lemma emits_sequential: "emits (is_upload c) (sequential_upload M vu c cl ps)"
  by (induction ps) (auto intro!: emit_rules emits_UploadObject_upload)

lemma sequential_upload_opened: "opened (events (sequential_upload M vu c cl ps) w) = ps"
proof (induction ps arbitrary: w)
  case (Cons p ps)
  let ?w = "post (UploadObject M vu c p cl) w"
  have "log (post (sequential_upload M vu c cl (p # ps)) w) =
      log w @ events (UploadObject M vu c p cl) w @ events (sequential_upload M vu c cl ps) ?w"
    using emits_log [OF emits_sequential, of M vu c cl ps ?w] emits_log [OF emits_UploadObject_upload, of M vu c p cl w]
    by (simp add: split_beta)
  then show ?case using Cons.IH by (simp add: events_eqI UploadObject_opened)
qed (simp add: events_ret)


text \<open>A storage that refuses one of the two files.\<close>

definition picky_media :: "memworld media" where
  "picky_media = mem_media\<lparr>
     os_open := (\<lambda>p x. (if p = ''/tmp/7d9b0e0e-2c1a-4b3c-8a1f-1a2b3c4d5e6f/stream.mpd'' then Inl mm_fault else Inr 1, x)),
     st_new_writer := (\<lambda>c h b n x. (2, x)), io_copy := (\<lambda>d s x. (None, x)), st_close_writer := (\<lambda>h x. (None, x))\<rparr>"


end
