(* ===== verification/Go_Time.thy ===== *)
theory Go_Time
  imports Go_Strings
begin

text \<open>
  What the program uses of Go's \<^verbatim>\<open>time\<close>: durations, which are 64-bit signed counts of nanoseconds,
  and \<^verbatim>\<open>time.ParseDuration\<close>. The fraction of a unit is computed exactly and rounded down; Go
  computes it in floating point, which may differ in the last nanosecond.
\<close>

type_synonym duration = "64 word"

definition Second :: duration where "Second = 1000000000"
definition Minute :: duration where "Minute = 60 * Second"

text \<open>\<^verbatim>\<open>leadingInt\<close>: the value of the leading digits and the rest, or nothing past \<open>2 ^ 63\<close>.\<close>

fun leadingInt :: "string \<Rightarrow> nat \<Rightarrow> (nat \<times> string) option" where
  "leadingInt [] x = Some (x, [])"
| "leadingInt (c # cs) x =
     (if is_digit c then
        (if x > 2 ^ 63 div 10 then None
         else let y = x * 10 + nat (digit_val c) in if y > 2 ^ 63 then None else leadingInt cs y)
      else Some (x, c # cs))"

text \<open>\<^verbatim>\<open>leadingFraction\<close>: digits past the range are read and ignored.\<close>

fun leadingFraction :: "string \<Rightarrow> nat \<Rightarrow> nat \<Rightarrow> bool \<Rightarrow> nat \<times> nat \<times> string" where
  "leadingFraction [] x scale over = (x, scale, [])"
| "leadingFraction (c # cs) x scale over =
     (if is_digit c then
        (if over \<or> x > (2 ^ 63 - 1) div 10 then leadingFraction cs x scale True
         else let y = x * 10 + nat (digit_val c)
              in if y > 2 ^ 63 then leadingFraction cs x scale True
                 else leadingFraction cs y (scale * 10) over)
      else (x, scale, c # cs))"

definition unit_of :: "string \<Rightarrow> nat option" where
  "unit_of u = map_of
     [(''ns'', 1), (''us'', 1000), ([CHR 0xC2, CHR 0xB5, CHR ''s''], 1000),
      ([CHR 0xCE, CHR 0xBC, CHR ''s''], 1000), (''ms'', 1000000), (''s'', 1000000000),
      (''m'', 60000000000), (''h'', 3600000000000)] u"

definition unit_char :: "char \<Rightarrow> bool" where
  "unit_char c \<longleftrightarrow> c \<noteq> CHR ''.'' \<and> \<not> is_digit c"

text \<open>One number and its unit, and the rest of the string.\<close>

definition duration_part :: "string \<Rightarrow> (nat \<times> string) option" where
  "duration_part s =
     (case leadingInt s 0 of
        None \<Rightarrow> None
      | Some (v, s1) \<Rightarrow>
          let pre = length s1 \<noteq> length s;
              dot = (s1 \<noteq> [] \<and> hd s1 = CHR ''.'');
              (f, scale, s2) = (if dot then leadingFraction (tl s1) 0 1 False else (0, 1, s1));
              post = dot \<and> length s2 \<noteq> length (tl s1);
              u = takeWhile unit_char s2; rest = dropWhile unit_char s2
          in if \<not> pre \<and> \<not> post then None
             else (case unit_of u of
                 None \<Rightarrow> None
               | Some k \<Rightarrow>
                   if v > 2 ^ 63 div k then None
                   else let t = v * k + f * k div scale
                        in if t > 2 ^ 63 then None else Some (t, rest)))"

lemma leadingInt_length: "leadingInt s x = Some (v, r) \<Longrightarrow> length r \<le> length s"
  by (induction s x rule: leadingInt.induct) (auto simp: Let_def split: if_splits)

lemma leadingFraction_length: "leadingFraction s x k ov = (f, k', r) \<Longrightarrow> length r \<le> length s"
  by (induction s x k ov rule: leadingFraction.induct) (auto simp: Let_def split: if_splits)

lemma duration_part_shorter:
  assumes "duration_part s = Some (t, r)"
  shows "length r < length s"
proof -
  obtain v s1 where i: "leadingInt s 0 = Some (v, s1)"
    using assms by (auto simp: duration_part_def split: option.splits)
  let ?dot = "s1 \<noteq> [] \<and> hd s1 = CHR ''.''"
  let ?q = "if ?dot then leadingFraction (tl s1) 0 1 False else (0, 1, s1)"
  obtain f k s2 where q: "?q = (f, k, s2)" by (cases ?q) auto
  have r: "r = dropWhile unit_char s2" and u: "unit_of (takeWhile unit_char s2) \<noteq> None"
    using assms i q by (auto simp: duration_part_def Let_def split: option.splits if_splits)
  have "takeWhile unit_char s2 \<noteq> []" using u by (auto simp: unit_of_def)
  then have "length r < length s2"
    unfolding r by (metis append_Nil length_append length_greater_0_conv less_add_same_cancel2 takeWhile_dropWhile_id)
  moreover have "length s2 \<le> length s1"
    using q leadingFraction_length [of "tl s1" 0 1 False f k s2] by (auto split: if_splits)
  ultimately show ?thesis using leadingInt_length [OF i] by linarith
qed

function duration_parts :: "string \<Rightarrow> nat \<Rightarrow> nat option" where
  "duration_parts s d =
     (if s = [] then Some d
      else case duration_part s of
          None \<Rightarrow> None
        | Some (t, rest) \<Rightarrow> if d + t > 2 ^ 63 then None else duration_parts rest (d + t))"
  by pat_completeness auto
termination
  by (relation "measure (\<lambda>(s, d). length s)") (auto dest: duration_part_shorter)

declare duration_parts.simps [simp del]

definition ParseDuration :: "string \<Rightarrow> duration option" where
  "ParseDuration s0 =
     (let neg = (s0 \<noteq> [] \<and> hd s0 = CHR ''-'');
          s = (if s0 \<noteq> [] \<and> (hd s0 = CHR ''-'' \<or> hd s0 = CHR ''+'') then tl s0 else s0)
      in if s = ''0'' then Some 0
         else if s = '''' then None
         else case duration_parts s 0 of
             None \<Rightarrow> None
           | Some d \<Rightarrow>
               if neg then Some (- (of_nat d))
               else if d > 2 ^ 63 - 1 then None else Some (of_nat d))"

lemmas ParseDuration_eval = ParseDuration_def duration_parts.simps duration_part_def unit_of_def
  unit_char_def is_digit_def digit_val_def Let_def

lemma ParseDuration_examples:
  "ParseDuration ''45m'' = Some (45 * Minute)" "ParseDuration ''1h30m'' = Some (90 * Minute)"
  "ParseDuration ''1.5s'' = Some 1500000000" "ParseDuration ''45'' = None"
  by (simp_all add: ParseDuration_eval Minute_def Second_def)

end
