(* ===== verification/Processor.thy ===== *)
theory Processor
  imports Job_Service Upload_Pool Go_Time
begin

text \<open>
  \<^verbatim>\<open>internal/job/processor.go\<close>: the media pipeline of one job and the bookkeeping of its status.
  \<open>T\<close> is the Go runtime, \<open>E\<close> the environment, \<open>M\<close> the storage, the disk and the commands. Logging
  is not modelled, so the warnings of the deferred \<^verbatim>\<open>Close\<close> and of \<^verbatim>\<open>Finish\<close> are dropped values.
\<close>

definition defaultUploadConcurrency :: int where "defaultUploadConcurrency = 4"
definition defaultProcessTimeout :: duration where "defaultProcessTimeout = 30 * Minute"

record 'w processor =
  pr_JobService :: "'w job_service option"
  pr_SourceBucket :: string
  pr_OutputBucket :: string
  pr_UploadConcurrency :: int
  pr_Timeout :: duration

definition processTimeoutFromEnv :: "environ \<Rightarrow> duration" where
  "processTimeoutFromEnv E =
     (if E ''PROCESS_TIMEOUT'' \<noteq> '''' then
        (case ParseDuration (E ''PROCESS_TIMEOUT'') of
           Some d \<Rightarrow> if 0 <s d then d else defaultProcessTimeout
         | None \<Rightarrow> defaultProcessTimeout)
      else defaultProcessTimeout)"

definition NewProcessorFromEnv :: "environ \<Rightarrow> 'w job_service option \<Rightarrow> 'w processor" where
  "NewProcessorFromEnv E S =
     \<lparr>pr_JobService = S, pr_SourceBucket = E ''VIDEO_SOURCE_BUCKET'',
      pr_OutputBucket = E ''VIDEO_OUTPUT_BUCKET'',
      pr_UploadConcurrency = defaultUploadConcurrency, pr_Timeout = processTimeoutFromEnv E\<rparr>"

text \<open>The receiver of \<^verbatim>\<open>Enabled\<close> may be a nil pointer.\<close>

definition Enabled :: "'w processor option \<Rightarrow> bool" where
  "Enabled p = (case p of
       None \<Rightarrow> False
     | Some p \<Rightarrow> pr_JobService p \<noteq> None \<and> pr_SourceBucket p \<noteq> '''' \<and> pr_OutputBucket p \<noteq> '''')"

definition uploadOutputs ::
  "'w runtime \<Rightarrow> environ \<Rightarrow> 'w media \<Rightarrow> 'w processor \<Rightarrow> ctx \<Rightarrow> job \<Rightarrow> ('w, unit res) io" where
  "uploadOutputs T E M p c job =
     deref (job_Video job) (\<lambda>v.
     let vu = NewVideoUpload\<lparr>vu_OutputBucket := pr_OutputBucket p,
                vu_OutputPrefix := job_OutputBucketPath job,
                vu_VideoPath := E ''localStoragePath'' @ ''/'' @ video_ID v\<rparr>;
         concurrency = (if pr_UploadConcurrency p \<le> 0 then defaultUploadConcurrency
                        else pr_UploadConcurrency p)
     in ProcessUpload T M vu c concurrency)"

definition process_timeout :: "'w processor \<Rightarrow> duration" where
  "process_timeout p = (if pr_Timeout p \<le>s 0 then defaultProcessTimeout else pr_Timeout p)"

definition process ::
  "'w runtime \<Rightarrow> environ \<Rightarrow> 'w media \<Rightarrow> 'w processor \<Rightarrow> job \<Rightarrow> ('w, unit res) io" where
  "process T E M p job =
     deref (pr_JobService p) (\<lambda>S.
     attempt (wrap ''mark processing: '' (MarkProcessing S (job_ID job))) (\<lambda>_.
     let c = WithTimeout (process_timeout p) in
     attempt (wrap ''video service init: '' (NewVideoService M)) (\<lambda>videoService0.
     deferring (VideoService_Close M videoService0) (
     let videoService = videoService0\<lparr>vs_Video := job_Video job\<rparr> in
     attempt (wrap ''download: '' (Download E M videoService c (pr_SourceBucket p))) (\<lambda>_.
     attempt (wrap ''fragment: '' (Fragment E M videoService c)) (\<lambda>_.
     attempt (wrap ''encode: '' (Encode E M videoService c)) (\<lambda>_.
     attempt (wrap ''upload: '' (uploadOutputs T E M p c job)) (\<lambda>_. do {
       cleanup \<leftarrow> Finish E M videoService;
       ret (case cleanup of Panic \<Rightarrow> Panic | _ \<Rightarrow> Ok ())
     }))))))))"

definition Processor_Run ::
  "'w runtime \<Rightarrow> environ \<Rightarrow> 'w media \<Rightarrow> 'w processor \<Rightarrow> job option \<Rightarrow> ('w, unit res) io" where
  "Processor_Run T E M p jobptr =
     (case jobptr of
        None \<Rightarrow> ret (Err (ErrText ''processor requires a job with a loaded video''))
      | Some job \<Rightarrow>
          if job_Video job = None
          then ret (Err (ErrText ''processor requires a job with a loaded video''))
          else do {
            r \<leftarrow> process T E M p job;
            case r of
              Panic \<Rightarrow> ret Panic
            | Err err \<Rightarrow> do {
                m \<leftarrow> deref (pr_JobService p) (\<lambda>S. MarkFailed S (job_ID job) (Some err));
                case m of
                  Panic \<Rightarrow> ret Panic
                | Err markErr \<Rightarrow> ret (Err (ErrText (''processing failed: '' @ err_text err @
                    '' (also could not mark job failed: '' @ err_text markErr @ '')'')))
                | Ok _ \<Rightarrow> ret (Err err)
              }
            | Ok _ \<Rightarrow>
                attempt (wrap ''processing succeeded but could not mark completed: ''
                  (deref (pr_JobService p) (\<lambda>S. MarkCompleted S (job_ID job)))) (\<lambda>_. ret (Ok ()))
          })"


section \<open>The media part of the pipeline\<close>

text \<open>Everything of \<^verbatim>\<open>process\<close> after the job is marked.\<close>

definition pipeline ::
  "'w runtime \<Rightarrow> environ \<Rightarrow> 'w media \<Rightarrow> 'w processor \<Rightarrow> job \<Rightarrow> ('w, unit res) io" where
  "pipeline T E M p job =
     (let c = WithTimeout (process_timeout p) in
     attempt (wrap ''video service init: '' (NewVideoService M)) (\<lambda>videoService0.
     deferring (VideoService_Close M videoService0) (
     let videoService = videoService0\<lparr>vs_Video := job_Video job\<rparr> in
     attempt (wrap ''download: '' (Download E M videoService c (pr_SourceBucket p))) (\<lambda>_.
     attempt (wrap ''fragment: '' (Fragment E M videoService c)) (\<lambda>_.
     attempt (wrap ''encode: '' (Encode E M videoService c)) (\<lambda>_.
     attempt (wrap ''upload: '' (uploadOutputs T E M p c job)) (\<lambda>_. do {
       cleanup \<leftarrow> Finish E M videoService;
       ret (case cleanup of Panic \<Rightarrow> Panic | _ \<Rightarrow> Ok ())
     })))))))"

lemma process_pipeline:
  "process T E M p job = deref (pr_JobService p) (\<lambda>S.
     attempt (wrap ''mark processing: '' (MarkProcessing S (job_ID job))) (\<lambda>_. pipeline T E M p job))"
  by (simp only: process_def pipeline_def)

lemma emits_pipeline [emit_rules]: "emits is_media (pipeline T E M p job)"
  unfolding pipeline_def uploadOutputs_def Let_def by (intro emit_rules)

lemma keeps_pipeline:
  assumes "media_contract T M V"
  shows "keeps V (pipeline T E M p job)"
  unfolding pipeline_def uploadOutputs_def Let_def
  by (intro keep_rules media_contract.keeps_video_service [OF assms]
      media_contract.keeps_ProcessUpload [OF assms])

lemma owes_pipeline: "owes {#} (pipeline T E M p job)"
proof -
  have close: "owes (acquired (Media (EvNewClient Background (Inr h))))
      (VideoService_Close M \<lparr>vs_Video = None, vs_VideoRepository = None, vs_storageClient = Some h\<rparr>)" for h
    by (auto simp: VideoService_Close_def intro!: owes_call)
  have eq: "attempt (wrap q (NewVideoService M)) f = attempt (wrap q
      (call (st_new_client M Background) (\<lambda>r. Media (EvNewClient Background r)))) (\<lambda>cl.
      f \<lparr>vs_Video = None, vs_VideoRepository = None, vs_storageClient = Some cl\<rparr>)"
    for q and f :: "'a video_service \<Rightarrow> ('a, unit res) io"
    by (rule state.expand)
       (auto simp: NewVideoService_def fun_eq_iff run_attempt run_wrap split_beta split: res.split)
  show ?thesis
    unfolding pipeline_def uploadOutputs_def Let_def eq
    by (intro owes_open_wrap owes_deferring close balance_rules) simp_all
qed

lemma video_service_panic_free:
  assumes "vs_storageClient S = Some cl" "vs_Video S = Some v"
  shows "panic_free (Download E M S c b)" "panic_free (Fragment E M S c)"
    "panic_free (Encode E M S c)" "panic_free (Finish E M S)"
  using assms
  by (auto simp: panic_free_def Download_def Fragment_def Encode_def Finish_def Let_def command_def
      copy_def exec_simps split_beta split: res.split)

lemma NewVideoService_panic_free: "panic_free (NewVideoService M)"
  by (auto simp: panic_free_def NewVideoService_def exec_simps split: res.splits)

lemma wrap_Ok: "val (wrap p m) w = Ok x \<Longrightarrow> val m w = Ok x"
  by (auto simp: run_wrap split_beta split: res.splits)

lemma NewVideoService_Ok:
  "val (wrap q (NewVideoService M)) w = Ok S \<Longrightarrow> \<exists>cl. vs_storageClient S = Some cl"
  by (drule wrap_Ok) (auto simp: NewVideoService_def exec_simps split: res.splits)

lemma pipeline_panic_free:
  assumes "0 < rt_numcpu T" "job_Video job = Some v"
  shows "panic_free (pipeline T E M p job)"
  unfolding pipeline_def Let_def uploadOutputs_def
proof (rule panic_free_attempt, goal_cases)
  case 1
  show ?case by (intro safe_rules NewVideoService_panic_free)
next
  case (2 S w)
  then obtain cl where cl: "vs_storageClient (S\<lparr>vs_Video := job_Video job\<rparr>) = Some cl"
    using NewVideoService_Ok [of _ M w S] by auto
  have v: "vs_Video (S\<lparr>vs_Video := job_Video job\<rparr>) = Some v" using assms(2) by simp
  note safe = video_service_panic_free [OF cl v]
  have upload: "panic_free (deref (job_Video job) (\<lambda>v. ProcessUpload T M (vu v) c q))" for vu c q
    using assms by (simp add: panic_free_def ProcessUpload_no_panic)
  have finish: "panic_free (Finish E M (S\<lparr>vs_Video := job_Video job\<rparr>) \<bind>
      (\<lambda>cleanup. ret (case cleanup of Panic \<Rightarrow> Panic | _ \<Rightarrow> Ok ())))"
    using panic_freeD [OF safe(4)] by (auto simp: panic_free_def split_beta split: res.split)
  show ?case
    by (intro panic_free_deferring panic_free_attempt panic_free_wrap safe upload finish)
qed


section \<open>The writes of the job's status\<close>

text \<open>The status, the error text and the success of every save of a job row, in order.\<close>

fun status_writes :: "event list \<Rightarrow> (string \<times> string \<times> bool) list" where
  "status_writes [] = []"
| "status_writes (DB (EvSaveJob j r) # es) = (job_Status j, job_Error j, r = None) # status_writes es"
| "status_writes (_ # es) = status_writes es"

lemma status_writes_append [simp]: "status_writes (es @ fs) = status_writes es @ status_writes fs"
  by (induction es rule: status_writes.induct) auto

lemma status_writes_media: "list_all is_media es \<Longrightarrow> status_writes es = []"
  by (induction es rule: status_writes.induct) auto

lemma emits_updateStatus [emit_rules]: "emits is_db (updateStatus (gorm_service L G) i st msg)"
proof -
  have "emits is_db (JobRepositoryDb_Find G i)"
    by (rule emits_mono [OF emits_repositories(2)]) (erule is_db_read.elims, auto)
  then show ?thesis by (auto simp: updateStatus_def intro!: emit_rules)
qed

lemma updateStatus_gorm:
  shows "val (updateStatus (gorm_service L G) i st msg) w = Ok j \<Longrightarrow>
      status_writes (events (updateStatus (gorm_service L G) i st msg) w) = [(st, msg, True)]"
    and "val (updateStatus (gorm_service L G) i st msg) w = Err e \<Longrightarrow>
      status_writes (events (updateStatus (gorm_service L G) i st msg) w) \<in> {[], [(st, msg, False)]}"
    and "val (updateStatus (gorm_service L G) i st msg) w \<noteq> Panic"
  by (auto simp: updateStatus_def exec_simps Let_def split_beta events_def not_found_as_iff
      split: res.splits)

lemma emits_mark [emit_rules]:
  "emits is_db (MarkProcessing (gorm_service L G) i)" "emits is_db (MarkCompleted (gorm_service L G) i)"
  "emits is_db (MarkFailed (gorm_service L G) i e)"
  unfolding mark_defs by (rule emits_updateStatus)+

text \<open>The log and the outcome of a run, part by part.\<close>

lemma events_process:
  assumes "pr_JobService p = Some (gorm_service L G)"
  shows "events (process T E M p job) w =
      events (MarkProcessing (gorm_service L G) (job_ID job)) w @
      (case val (MarkProcessing (gorm_service L G) (job_ID job)) w of
         Ok _ \<Rightarrow> events (pipeline T E M p job) (post (MarkProcessing (gorm_service L G) (job_ID job)) w)
       | _ \<Rightarrow> [])"
proof -
  have m: "emits is_db (wrap q (MarkProcessing (gorm_service L G) i))" for q i
    by (intro emit_rules)
  show ?thesis
    using assms
    by (auto simp: process_pipeline events_attempt [OF m emits_pipeline]
        events_wrap [OF emits_mark(1)] run_wrap split_beta split: res.split)
qed

lemma process_world:
  assumes "pr_JobService p = Some S"
  shows "val (process T E M p job) w = (case val (MarkProcessing S (job_ID job)) w of
        Ok _ \<Rightarrow> val (pipeline T E M p job) (post (MarkProcessing S (job_ID job)) w)
      | Err e \<Rightarrow> Err (ErrWrap ''mark processing: '' e) | Panic \<Rightarrow> Panic)"
    and "post (process T E M p job) w = (case val (MarkProcessing S (job_ID job)) w of
        Ok _ \<Rightarrow> post (pipeline T E M p job) (post (MarkProcessing S (job_ID job)) w)
      | _ \<Rightarrow> post (MarkProcessing S (job_ID job)) w)"
  using assms by (auto simp: process_pipeline run_attempt run_wrap split_beta split: res.split)

lemma emits_process:
  assumes "pr_JobService p = Some (gorm_service L G)"
  shows "emits (\<lambda>e. is_db e \<or> is_media e) (process T E M p job)"
  unfolding process_pipeline assms deref_simps
  by (intro emits_attempt emits_wrap emits_mono [OF emits_mark(1)] emits_mono [OF emits_pipeline]) auto

lemma events_Run:
  assumes S: "pr_JobService p = Some (gorm_service L G)" and v: "job_Video job \<noteq> None"
  shows "events (Processor_Run T E M p (Some job)) w = events (process T E M p job) w @
    (case val (process T E M p job) w of
       Ok _ \<Rightarrow> events (MarkCompleted (gorm_service L G) (job_ID job)) (post (process T E M p job) w)
     | Err e \<Rightarrow> events (MarkFailed (gorm_service L G) (job_ID job) (Some e)) (post (process T E M p job) w)
     | Panic \<Rightarrow> [])"
proof (rule events_eqI)
  let ?w = "post (process T E M p job) w"
  have 1: "log ?w = log w @ events (process T E M p job) w"
    by (rule emits_log [OF emits_process [OF S]])
  show "log (post (Processor_Run T E M p (Some job)) w) = log w @ events (process T E M p job) w @
    (case val (process T E M p job) w of
       Ok _ \<Rightarrow> events (MarkCompleted (gorm_service L G) (job_ID job)) ?w
     | Err e \<Rightarrow> events (MarkFailed (gorm_service L G) (job_ID job) (Some e)) ?w
     | Panic \<Rightarrow> [])"
    using v S 1 emits_log [OF emits_mark(2), of L G "job_ID job" ?w]
      emits_log [OF emits_mark(3), of L G "job_ID job" _ ?w]
    by (cases "val (process T E M p job) w")
       (auto simp: Processor_Run_def split_beta run_attempt run_wrap split: res.split)
qed

lemma val_Run:
  assumes S: "pr_JobService p = Some S" and v: "job_Video job \<noteq> None"
  shows "val (Processor_Run T E M p (Some job)) w = (case val (process T E M p job) w of
      Panic \<Rightarrow> Panic
    | Ok _ \<Rightarrow> (case val (MarkCompleted S (job_ID job)) (post (process T E M p job) w) of
          Ok _ \<Rightarrow> Ok ()
        | Err e \<Rightarrow> Err (ErrWrap ''processing succeeded but could not mark completed: '' e)
        | Panic \<Rightarrow> Panic)
    | Err e \<Rightarrow> (case val (MarkFailed S (job_ID job) (Some e)) (post (process T E M p job) w) of
          Ok _ \<Rightarrow> Err e
        | Err e' \<Rightarrow> Err (ErrText (''processing failed: '' @ err_text e @
              '' (also could not mark job failed: '' @ err_text e' @ '')''))
        | Panic \<Rightarrow> Panic))"
  using v S
  by (cases "val (process T E M p job) w")
     (auto simp: Processor_Run_def split_beta run_attempt run_wrap split: res.split)

lemma post_Run:
  assumes S: "pr_JobService p = Some S" and v: "job_Video job \<noteq> None"
  shows "post (Processor_Run T E M p (Some job)) w = (case val (process T E M p job) w of
      Panic \<Rightarrow> post (process T E M p job) w
    | Ok _ \<Rightarrow> post (MarkCompleted S (job_ID job)) (post (process T E M p job) w)
    | Err e \<Rightarrow> post (MarkFailed S (job_ID job) (Some e)) (post (process T E M p job) w))"
  using v S
  by (cases "val (process T E M p job) w")
     (auto simp: Processor_Run_def split_beta run_attempt run_wrap split: res.split)


section \<open>The order of the stages\<close>

text \<open>
  The stage an event belongs to, for the events that belong to one only: 0 marks the job as being
  processed, 1 fetches the source, 2 fragments it, 3 encodes it, 4 uploads the output, 5 removes
  the local files, 6 records the terminal status.
\<close>

fun rank :: "event \<Rightarrow> nat option" where
  "rank (DB (EvSaveJob j r)) = (if job_Status j = JobStatusProcessing then Some 0 else Some 6)"
| "rank (Media (EvNewReader c cl b n r)) = Some 1"
| "rank (Media (EvCreateFile p r)) = Some 1"
| "rank (Media (EvMkdir p r)) = Some 2"
| "rank (Media (EvExec c n as r)) = Some (if n = ''mp4fragment'' then 2 else 3)"
| "rank (Media (EvOpenFile p r)) = Some 4"
| "rank (Media (EvNewWriter c cl b n h)) = Some 4"
| "rank (Media (EvCloseWriter h r)) = Some 4"
| "rank (Media (EvRemoveAll p r)) = Some 5"
| "rank _ = None"

definition ranks :: "event list \<Rightarrow> nat list" where
  "ranks es = List.map_filter rank es"

lemma ranks_simps [simp]:
  "ranks [] = []" "ranks (e # es) = (case rank e of None \<Rightarrow> ranks es | Some k \<Rightarrow> k # ranks es)"
  "ranks (es @ fs) = ranks es @ ranks fs"
  by (simp_all add: ranks_def List.map_filter_def split: option.split)

text \<open>An event that makes its stage fail.\<close>

fun stage_failed :: "event \<Rightarrow> bool" where
  "stage_failed (Media (EvNewClient c (Inl e))) = True"
| "stage_failed (Media (EvNewReader c cl b n (Inl e))) = True"
| "stage_failed (Media (EvCreateFile p (Inl e))) = True"
| "stage_failed (Media (EvMkdir p (Some e))) = True"
| "stage_failed (Media (EvExec c n as (Some e))) = True"
| "stage_failed (Media (EvOpenFile p (Inl e))) = True"
| "stage_failed (Media (EvCopy d s (Some e))) = True"
| "stage_failed (Media (EvCloseWriter h (Some e))) = True"
| "stage_failed _ = False"

text \<open>A program that stays in stages \<open>lo\<close> and later, runs them in order, and reaches the removal of
  the local files, or success, only if no call before it failed.\<close>

definition staged :: "nat \<Rightarrow> ('w, 'a res) io \<Rightarrow> bool" where
  "staged lo m \<longleftrightarrow> (\<forall>w. \<exists>es. log (post m w) = log w @ es \<and> sorted (ranks es) \<and>
     (\<forall>r\<in>set (ranks es). lo \<le> r) \<and> (5 \<in> set (ranks es) \<longrightarrow> \<not> list_ex stage_failed es) \<and>
     ((\<exists>x. val m w = Ok x) \<longrightarrow> \<not> list_ex stage_failed es))"

definition one_stage :: "nat \<Rightarrow> ('w, 'a res) io \<Rightarrow> bool" where
  "one_stage k m \<longleftrightarrow> (\<forall>w. \<exists>es. log (post m w) = log w @ es \<and> (\<forall>r\<in>set (ranks es). r = k) \<and>
     ((\<exists>x. val m w = Ok x) \<longrightarrow> \<not> list_ex stage_failed es))"

lemma sorted_const: "(\<forall>r\<in>set rs. r = (k::nat)) \<Longrightarrow> sorted rs"
  by (induction rs) auto

lemma staged_attempt:
  assumes m: "one_stage k m" and f: "\<And>x. staged k' (f x)" and lt: "k < k'" and k: "k \<noteq> 5"
  shows "staged k (attempt m f)"
  unfolding staged_def
proof
  fix w
  obtain es where es: "log (post m w) = log w @ es" "\<forall>r\<in>set (ranks es). r = k"
      "(\<exists>x. val m w = Ok x) \<longrightarrow> \<not> list_ex stage_failed es"
    using m unfolding one_stage_def by blast
  show "\<exists>es. log (post (attempt m f) w) = log w @ es \<and> sorted (ranks es) \<and>
     (\<forall>r\<in>set (ranks es). k \<le> r) \<and> (5 \<in> set (ranks es) \<longrightarrow> \<not> list_ex stage_failed es) \<and>
     ((\<exists>x. val (attempt m f) w = Ok x) \<longrightarrow> \<not> list_ex stage_failed es)"
  proof (cases "val m w")
    case (Ok x)
    obtain fs where fs: "log (post (f x) (post m w)) = log (post m w) @ fs" "sorted (ranks fs)"
        "\<forall>r\<in>set (ranks fs). k' \<le> r" "5 \<in> set (ranks fs) \<longrightarrow> \<not> list_ex stage_failed fs"
        "(\<exists>y. val (f x) (post m w) = Ok y) \<longrightarrow> \<not> list_ex stage_failed fs"
      using f [of x] unfolding staged_def by blast
    have "sorted (ranks (es @ fs))"
      using es(2) fs(2,3) sorted_const [OF es(2)] lt by (fastforce simp: sorted_append)
    then show ?thesis
      using Ok es fs k lt
      by (intro exI [of _ "es @ fs"]) (fastforce simp: run_attempt split_beta)
  next
    case (Err e)
    then show ?thesis
      using es k sorted_const [OF es(2)] by (intro exI [of _ es]) (auto simp: run_attempt split_beta)
  next
    case Panic
    then show ?thesis
      using es k sorted_const [OF es(2)] by (intro exI [of _ es]) (auto simp: run_attempt split_beta)
  qed
qed

lemma one_stage_wrap: "one_stage k m \<Longrightarrow> one_stage k (wrap p m)"
  unfolding one_stage_def by (auto simp: run_wrap split_beta split: res.split)

lemma one_stageI:
  assumes "emits (\<lambda>e. rank e \<in> {None, Some k}) m"
    and "\<And>w x. val m w = Ok x \<Longrightarrow> \<not> list_ex stage_failed (events m w)"
  shows "one_stage k m"
  unfolding one_stage_def
proof
  fix w
  have "\<forall>r\<in>set (ranks (events m w)). r = k"
    using emits_events [OF assms(1), of w] by (auto simp: list_all_iff ranks_def List.map_filter_def)
  then show "\<exists>es. log (post m w) = log w @ es \<and> (\<forall>r\<in>set (ranks es). r = k) \<and>
     ((\<exists>x. val m w = Ok x) \<longrightarrow> \<not> list_ex stage_failed es)"
    using assms(2) emits_log [OF assms(1), of w] by (intro exI [of _ "events m w"]) blast
qed


lemma staged_mono: "staged lo m \<Longrightarrow> lo' \<le> lo \<Longrightarrow> staged lo' m"
  unfolding staged_def by (meson order_trans)

lemma staged_deferring:
  assumes m: "staged lo m" and d: "emits (\<lambda>e. rank e = None \<and> \<not> stage_failed e) d"
  shows "staged lo (deferring d m)"
  unfolding staged_def
proof
  fix w
  obtain es where es: "log (post m w) = log w @ es" "sorted (ranks es)"
     "\<forall>r\<in>set (ranks es). lo \<le> r" "5 \<in> set (ranks es) \<longrightarrow> \<not> list_ex stage_failed es"
     "(\<exists>x. val m w = Ok x) \<longrightarrow> \<not> list_ex stage_failed es"
    using m unfolding staged_def by blast
  let ?fs = "events d (post m w)"
  have "ranks ?fs = []" "\<not> list_ex stage_failed ?fs"
    using emits_events [OF d, of "post m w"]
    by (auto simp: list_all_iff list_ex_iff ranks_def List.map_filter_def filter_empty_conv)
  then show "\<exists>es. log (post (deferring d m) w) = log w @ es \<and> sorted (ranks es) \<and>
     (\<forall>r\<in>set (ranks es). lo \<le> r) \<and> (5 \<in> set (ranks es) \<longrightarrow> \<not> list_ex stage_failed es) \<and>
     ((\<exists>x. val (deferring d m) w = Ok x) \<longrightarrow> \<not> list_ex stage_failed es)"
    using es emits_log [OF d, of "post m w"]
    by (intro exI [of _ "es @ ?fs"]) (simp add: run_deferring split_beta)
qed

text \<open>A call that belongs to no stage in front of the stages.\<close>

lemma staged_attempt0:
  assumes m: "emits (\<lambda>e. rank e = None) m"
    and clean: "\<And>w x. val m w = Ok x \<Longrightarrow> \<not> list_ex stage_failed (events m w)"
    and f: "\<And>x. staged k (f x)"
  shows "staged k (attempt m f)"
  unfolding staged_def
proof
  fix w
  have none: "ranks (events m w) = []"
    using emits_events [OF m, of w] by (simp add: list_all_iff ranks_def List.map_filter_def filter_empty_conv)
  note lg = emits_log [OF m, of w]
  show "\<exists>es. log (post (attempt m f) w) = log w @ es \<and> sorted (ranks es) \<and>
     (\<forall>r\<in>set (ranks es). k \<le> r) \<and> (5 \<in> set (ranks es) \<longrightarrow> \<not> list_ex stage_failed es) \<and>
     ((\<exists>x. val (attempt m f) w = Ok x) \<longrightarrow> \<not> list_ex stage_failed es)"
  proof (cases "val m w")
    case (Ok x)
    obtain fs where "log (post (f x) (post m w)) = log (post m w) @ fs" "sorted (ranks fs)"
        "\<forall>r\<in>set (ranks fs). k \<le> r" "5 \<in> set (ranks fs) \<longrightarrow> \<not> list_ex stage_failed fs"
        "(\<exists>y. val (f x) (post m w) = Ok y) \<longrightarrow> \<not> list_ex stage_failed fs"
      using f [of x] unfolding staged_def by blast
    then show ?thesis
      using Ok none lg clean [OF Ok]
      by (intro exI [of _ "events m w @ fs"]) (simp add: run_attempt split_beta)
  qed (use none lg in \<open>auto simp: run_attempt split_beta intro!: exI [of _ "events m w"]\<close>)
qed

lemma emits_client: "emits (\<lambda>e. rank e = None) (NewVideoService M)"
  unfolding NewVideoService_def by (intro emit_rules) simp

lemma NewVideoService_clean:
  "val (NewVideoService M) w = Ok x \<Longrightarrow> \<not> list_ex stage_failed (events (NewVideoService M) w)"
  by (auto simp: NewVideoService_def exec_simps events_def split: res.splits)

lemma one_stage_Download: "one_stage 1 (Download E M S c b)"
proof (rule one_stageI)
  show "emits (\<lambda>e. rank e \<in> {None, Some 1}) (Download E M S c b)"
    unfolding Download_def Let_def copy_def close_reader_def close_file_def
    by (intro emit_rules) simp_all
  show "\<not> list_ex stage_failed (events (Download E M S c b) w)" if "val (Download E M S c b) w = Ok x" for w x
    using that
    by (auto simp: Download_def Let_def copy_def close_reader_def close_file_def exec_simps events_def
        deref_def split_beta split: res.splits option.splits)
qed

lemma one_stage_Fragment: "one_stage 2 (Fragment E M S c)"
proof (rule one_stageI)
  show "emits (\<lambda>e. rank e \<in> {None, Some 2}) (Fragment E M S c)"
    unfolding Fragment_def Let_def command_def by (intro emit_rules) simp_all
  show "\<not> list_ex stage_failed (events (Fragment E M S c) w)" if "val (Fragment E M S c) w = Ok x" for w x
    using that
    by (auto simp: Fragment_def Let_def command_def exec_simps events_def deref_def split_beta
        split: res.splits option.splits)
qed

lemma one_stage_Encode: "one_stage 3 (Encode E M S c)"
proof (rule one_stageI)
  show "emits (\<lambda>e. rank e \<in> {None, Some 3}) (Encode E M S c)"
    unfolding Encode_def Let_def command_def by (intro emit_rules) simp_all
  show "\<not> list_ex stage_failed (events (Encode E M S c) w)" if "val (Encode E M S c) w = Ok x" for w x
    using that
    by (auto simp: Encode_def Let_def command_def exec_simps events_def deref_def split_beta
        split: res.splits option.splits)
qed

lemma upload_call_rank: "upload_call c e \<Longrightarrow> rank e \<in> {None, Some 4}"
  by (auto simp: upload_call_def elim!: is_upload.elims)

lemma emits_upload_rank: "emits (\<lambda>e. rank e \<in> {None, Some 4}) (ProcessUpload T M vu c q)"
  by (rule emits_mono [OF emits_ProcessUpload_upload upload_call_rank])

lemma is_upload_failed: "is_upload c e \<Longrightarrow> stage_failed e = upload_failed e"
  by (induction c e rule: is_upload.induct) (auto split: sum.splits option.splits elim: stage_failed.elims upload_failed.elims)

lemma ProcessUpload_Ok_clean:
  assumes cpu: "0 < rt_numcpu T" and ok: "val (ProcessUpload T M vu0 c q) w = Ok x"
  shows "\<not> list_ex stage_failed (events (ProcessUpload T M vu0 c q) w)"
proof -
  obtain vu cl where load: "val (loadPaths M (vu0\<lparr>vu_Paths := [], vu_Errors := []\<rparr>)) w = Ok vu"
    and some: "vu_Paths vu \<noteq> []" and client: "fst (st_new_client M c (ext w)) = Inr cl"
    using ok by (auto simp: ProcessUpload_def exec_simps split_beta split: res.splits if_splits)
  from ProcessUpload_run [OF cpu load some client, of q] obtain p es r where
    ev: "events (ProcessUpload T M vu0 c q) w = Media (EvNewClient c (Inr cl)) # es @ [Media (EvCloseClient cl r)]"
    and v: "val (ProcessUpload T M vu0 c q) w = (if pl_errors p \<noteq> [] then Err (upload_error vu p) else Ok ())"
    and er: "pl_errors p = map (\<lambda>d. vu_Paths vu ! fst d) (filter (\<lambda>d. \<not> is_ok (snd d)) (pl_done p))"
    and fine: "list_all (\<lambda>d. is_ok (snd d)) (pl_done p) \<longleftrightarrow> \<not> list_ex upload_failed es"
    and up: "list_all (is_upload c) es"
    by metis
  have "\<not> list_ex upload_failed es"
    using ok v er fine by (auto simp: filter_empty_conv list_all_iff split: if_splits)
  then show ?thesis
    using ev up by (auto simp: list_ex_iff list_all_iff is_upload_failed)
qed

lemma one_stage_upload:
  assumes "0 < rt_numcpu T"
  shows "one_stage 4 (uploadOutputs T E M p c job)"
proof (cases "job_Video job")
  case None
  then show ?thesis
    by (intro one_stageI) (simp_all add: uploadOutputs_def emits_ret)
next
  case (Some v)
  show ?thesis
    by (rule one_stageI)
       (simp_all only: uploadOutputs_def Some deref_simps Let_def emits_upload_rank
         ProcessUpload_Ok_clean [OF assms] not_False_eq_True)
qed

lemma remove_targets_only: "emits (\<lambda>e. \<exists>p r. e = Media (EvRemoveAll p r)) (remove_targets M ts)"
  by (induction ts) (auto intro!: emit_rules)

lemma staged_Finish: "staged 5 (Finish E M S \<bind> (\<lambda>r. ret (g r)))"
proof -
  have e: "emits (\<lambda>e. \<exists>p r. e = Media (EvRemoveAll p r)) (Finish E M S \<bind> (\<lambda>r. ret (g r)))"
    unfolding Finish_def by (intro emit_rules remove_targets_only)
  show ?thesis
    unfolding staged_def
  proof
    fix w
    let ?es = "events (Finish E M S \<bind> (\<lambda>r. ret (g r))) w"
    have "\<forall>r\<in>set (ranks ?es). r = 5" "\<not> list_ex stage_failed ?es"
      using emits_events [OF e, of w]
      by (auto simp: list_all_iff list_ex_iff ranks_def List.map_filter_def)
    then show "\<exists>es. log (post (Finish E M S \<bind> (\<lambda>r. ret (g r))) w) = log w @ es \<and> sorted (ranks es) \<and>
     (\<forall>r\<in>set (ranks es). 5 \<le> r) \<and> (5 \<in> set (ranks es) \<longrightarrow> \<not> list_ex stage_failed es) \<and>
     ((\<exists>x. val (Finish E M S \<bind> (\<lambda>r. ret (g r))) w = Ok x) \<longrightarrow> \<not> list_ex stage_failed es)"
      using emits_log [OF e, of w] sorted_const [of "ranks ?es" 5]
      by (intro exI [of _ ?es]) auto
  qed
qed

lemma staged_pipeline:
  assumes "0 < rt_numcpu T"
  shows "staged 1 (pipeline T E M p job)"
proof -
  have close: "emits (\<lambda>e. rank e = None \<and> \<not> stage_failed e) (VideoService_Close M S)" for S :: "'a video_service"
    by (auto simp: VideoService_Close_def intro!: emit_rules)
  let ?S = "\<lambda>S::'a video_service. S\<lparr>vs_Video := job_Video job\<rparr>" and ?c = "WithTimeout (process_timeout p)"
  have 4: "staged 4 (attempt (wrap ''upload: '' (uploadOutputs T E M p c job)) (\<lambda>_. Finish E M S \<bind> (\<lambda>r. ret (g r))))"
    for c S and g :: "unit res \<Rightarrow> unit res"
    by (rule staged_attempt [OF one_stage_wrap [OF one_stage_upload [OF assms]] staged_Finish]) simp_all
  have 3: "staged 3 (attempt (wrap ''encode: '' (Encode E M S c)) (\<lambda>_. m))" if "staged 4 m" for S c and m :: "('a, unit res) io"
    by (rule staged_attempt [OF one_stage_wrap [OF one_stage_Encode] that]) simp_all
  have 2: "staged 2 (attempt (wrap ''fragment: '' (Fragment E M S c)) (\<lambda>_. m))" if "staged 3 m" for S c and m :: "('a, unit res) io"
    by (rule staged_attempt [OF one_stage_wrap [OF one_stage_Fragment] that]) simp_all
  have 1: "staged 1 (attempt (wrap ''download: '' (Download E M S c b)) (\<lambda>_. m))" if "staged 2 m" for S c b and m :: "('a, unit res) io"
    by (rule staged_attempt [OF one_stage_wrap [OF one_stage_Download] that]) simp_all
  have 0: "staged 1 (attempt (wrap ''video service init: '' (NewVideoService M)) f)" if "\<And>S. staged 1 (f S)"
    for f :: "'a video_service \<Rightarrow> ('a, unit res) io"
    by (rule staged_attempt0 [OF emits_wrap [OF emits_client] _ that])
       (auto dest: wrap_Ok NewVideoService_clean simp: events_wrap [OF emits_client])
  show ?thesis
    unfolding pipeline_def Let_def
    by (intro 0 staged_deferring [OF _ close] 1 2 3 4)
qed

text \<open>\<^verbatim>\<open>process\<close> and the terminal update in stages.\<close>

lemma db_not_failed: "list_all is_db es \<Longrightarrow> \<not> list_ex stage_failed es"
  by (auto simp: list_all_iff list_ex_iff elim!: is_db.elims)

lemma mark_ranks:
  assumes "st = JobStatusProcessing \<and> k = 0 \<or> st \<noteq> JobStatusProcessing \<and> k = 6"
  shows "emits (\<lambda>e. rank e \<in> {None, Some k}) (updateStatus (gorm_service L G) i st msg)"
proof -
  have "emits (\<lambda>e. rank e \<in> {None, Some k}) (JobRepositoryDb_Find G i)"
    by (rule emits_mono [OF emits_repositories(2)]) (erule is_db_read.elims, auto)
  moreover have "emits (\<lambda>e. rank e \<in> {None, Some k}) (JobRepositoryDb_Update G (j\<lparr>job_Status := st, job_Error := msg\<rparr>))" for j
    using assms by (intro emitsI) (auto simp: exec_simps Let_def)
  ultimately show ?thesis by (auto simp: updateStatus_def intro!: emit_rules)
qed

lemma one_stage_mark: "one_stage 0 (MarkProcessing (gorm_service L G) i)"
proof (rule one_stageI)
  show "emits (\<lambda>e. rank e \<in> {None, Some 0}) (MarkProcessing (gorm_service L G) i)"
    unfolding MarkProcessing_def by (rule mark_ranks) simp
  show "\<not> list_ex stage_failed (events (MarkProcessing (gorm_service L G) i) w)" for w
    by (rule db_not_failed [OF emits_events [OF emits_mark(1)]])
qed

lemma staged_process:
  assumes "pr_JobService p = Some (gorm_service L G)" "0 < rt_numcpu T"
  shows "staged 0 (process T E M p job)"
  unfolding process_pipeline assms deref_simps
  by (rule staged_attempt [OF one_stage_wrap [OF one_stage_mark] staged_pipeline [OF assms(2)]]) simp_all

lemma process_stages:
  assumes "pr_JobService p = Some (gorm_service L G)" "0 < rt_numcpu T"
  shows "sorted (ranks (events (process T E M p job) w))"
    and "\<And>t r. Media (EvRemoveAll t r) \<in> set (events (process T E M p job) w) \<Longrightarrow>
      \<not> list_ex stage_failed (events (process T E M p job) w)"
    and "val (process T E M p job) w = Ok x \<Longrightarrow> \<not> list_ex stage_failed (events (process T E M p job) w)"
    and "\<forall>r\<in>set (ranks (events (process T E M p job) w)). r \<le> 6"
proof -
  obtain es where es: "log (post (process T E M p job) w) = log w @ es" "sorted (ranks es)"
     "5 \<in> set (ranks es) \<longrightarrow> \<not> list_ex stage_failed es"
     "(\<exists>x. val (process T E M p job) w = Ok x) \<longrightarrow> \<not> list_ex stage_failed es"
    using staged_process [OF assms] unfolding staged_def by blast
  have eq: "events (process T E M p job) w = es" by (rule events_eqI [OF es(1)])
  show "sorted (ranks (events (process T E M p job) w))"
    "val (process T E M p job) w = Ok x \<Longrightarrow> \<not> list_ex stage_failed (events (process T E M p job) w)"
    using es eq by auto
  have "rank e = Some k \<Longrightarrow> k \<le> 6" for e k
    by (cases e rule: rank.cases) (auto split: if_splits)
  then show "\<forall>r\<in>set (ranks (events (process T E M p job) w)). r \<le> 6"
    by (auto simp: ranks_def List.map_filter_def)
  show "\<not> list_ex stage_failed (events (process T E M p job) w)"
    if "Media (EvRemoveAll t r) \<in> set (events (process T E M p job) w)" for t r
  proof -
    have "5 \<in> set (ranks es)"
      using that eq by (force simp: ranks_def List.map_filter_def image_iff)
    then show ?thesis using es(3) eq by simp
  qed
qed


section \<open>Deadlines and resources\<close>

text \<open>The calls that take a context take the deadline; only the storage client of the video service
  is made on the background context, as the code does.\<close>

fun bounded_by :: "duration \<Rightarrow> event \<Rightarrow> bool" where
  "bounded_by d (Media (EvNewClient c r)) \<longleftrightarrow> c = WithTimeout d \<or> c = Background"
| "bounded_by d (Media (EvNewReader c cl b n r)) \<longleftrightarrow> c = WithTimeout d"
| "bounded_by d (Media (EvNewWriter c cl b n h)) \<longleftrightarrow> c = WithTimeout d"
| "bounded_by d (Media (EvExec c n as r)) \<longleftrightarrow> c = WithTimeout d"
| "bounded_by d _ = True"

lemma db_bounded: "is_db e \<Longrightarrow> bounded_by d e"
  by (auto elim!: is_db.elims)

lemma upload_call_bounded: "upload_call (WithTimeout d) e \<Longrightarrow> bounded_by d e"
  by (auto simp: upload_call_def elim!: is_upload.elims)

lemma emits_pipeline_bounded: "emits (bounded_by (process_timeout p)) (pipeline T E M p job)"
proof -
  have "emits (bounded_by d) (ProcessUpload T M vu (WithTimeout d) q)" for d vu q
    by (rule emits_mono [OF emits_ProcessUpload_upload upload_call_bounded])
  moreover have "emits (bounded_by d) (remove_targets M ts)" for d ts
    by (rule emits_mono [OF remove_targets_only]) auto
  ultimately show ?thesis
    unfolding pipeline_def uploadOutputs_def Let_def NewVideoService_def VideoService_Close_def
      Download_def Fragment_def Encode_def Finish_def copy_def command_def close_reader_def close_file_def
    by (intro emit_rules) simp_all
qed

text \<open>A property of the log that the database calls and the pipeline have, a run has.\<close>

lemma emits_Run:
  assumes "pr_JobService p = Some (gorm_service L G)"
    and "\<And>e. is_db e \<Longrightarrow> P e" "\<And>job. emits P (pipeline T E M p job)"
  shows "emits P (Processor_Run T E M p jobptr)"
proof -
  have marks: "emits P (MarkProcessing (gorm_service L G) i)" "emits P (MarkCompleted (gorm_service L G) i)"
    "emits P (MarkFailed (gorm_service L G) i e)" for i e
    using assms(2) by (auto intro: emits_mono [OF emits_mark(1)] emits_mono [OF emits_mark(2)] emits_mono [OF emits_mark(3)])
  show ?thesis
    unfolding Processor_Run_def process_pipeline assms(1) deref_simps
    by (intro emit_rules marks assms(3))
qed

lemma emits_Run_bounded:
  assumes "pr_JobService p = Some (gorm_service L G)"
  shows "emits (bounded_by (process_timeout p)) (Processor_Run T E M p jobptr)"
  by (rule emits_Run [OF assms db_bounded emits_pipeline_bounded])

lemma emits_db_owes: "emits is_db m \<Longrightarrow> owes {#} m"
proof (rule owesI)
  fix w assume m: "emits is_db m"
  have "sum_list (map acquired es) = {#}" "sum_list (map released es) = {#}" if "list_all is_db es" for es
    using that by (induction es) (auto elim!: is_db.elims)
  then show "\<exists>es. log (post m w) = log w @ es \<and> sum_list (map acquired es) + {#} = sum_list (map released es)"
    using emits_log [OF m] emits_events [OF m] by (intro exI [of _ "events m w"]) simp
qed

lemma owes_case_res:
  "(\<And>x. owes R (f x)) \<Longrightarrow> (\<And>e. owes R (g e)) \<Longrightarrow> owes R h \<Longrightarrow>
    owes R (case r of Ok x \<Rightarrow> f x | Err e \<Rightarrow> g e | Panic \<Rightarrow> h)"
  by (simp split: res.split)

lemma owes_Run:
  assumes "pr_JobService p = Some (gorm_service L G)"
  shows "owes {#} (Processor_Run T E M p jobptr)"
proof (cases jobptr)
  case (Some job)
  note marks = emits_db_owes [OF emits_mark(1)] emits_db_owes [OF emits_mark(2)] emits_db_owes [OF emits_mark(3)]
  show ?thesis
    unfolding Processor_Run_def process_pipeline assms(1) deref_simps Some option.case
    by (intro owes_if owes_ret owes_bind0 owes_attempt owes_wrap owes_pipeline marks owes_case_res)
qed (simp add: Processor_Run_def owes_ret)

lemma defaultProcessTimeout_pos: "0 <s defaultProcessTimeout"
  by (simp add: defaultProcessTimeout_def Minute_def Second_def word_sless_alt)


section \<open>Concrete runs\<close>

definition demo_job :: job where
  "demo_job = \<lparr>job_ID = demo_job_id, job_OutputBucketPath = ''out/x/'', job_Status = JobStatusPending,
     job_VideoID = demo_id, job_Error = '''', job_CreatedAt = 1, job_UpdatedAt = 1,
     job_Video = Some demo_video\<rparr>"

definition demo_env :: environ where
  "demo_env x = (if x = ''localStoragePath'' then ''/tmp'' else if x = ''VIDEO_SOURCE_BUCKET'' then ''in''
     else if x = ''VIDEO_OUTPUT_BUCKET'' then ''out'' else if x = ''PROCESS_TIMEOUT'' then ''45m'' else '''')"

definition demo_service :: "memworld job_service" where
  "demo_service = gorm_service mem_lib mem_gorm"

definition demo_processor :: "memworld processor" where
  "demo_processor = NewProcessorFromEnv demo_env (Some demo_service)"

text \<open>The job is stored, and the storage fails the calls that \<open>faults\<close> marks.\<close>

definition demo_run_world :: "bool list \<Rightarrow> memworld world" where
  "demo_run_world faults =
     demo_world\<lparr>ext := demo_ext\<lparr>mem_jobs := [row_of demo_job], mm_faults := faults\<rparr>\<rparr>"

lemma demo_processor_sel [simp]:
  "pr_JobService demo_processor = Some (gorm_service mem_lib mem_gorm)"
  by (simp add: demo_processor_def NewProcessorFromEnv_def demo_service_def)

lemma demo_cpu [simp]: "0 < rt_numcpu mem_runtime"
  by (simp add: mem_runtime_def)

lemma demo_job_ID [simp]: "job_ID demo_job = demo_job_id"
  by (simp add: demo_job_def)

lemma demo_job_Video [simp]: "job_Video demo_job = Some demo_video"
  by (simp add: demo_job_def)


lemma process_writes:
  assumes "pr_JobService p = Some (gorm_service L G)" "job_Video job = Some v" "0 < rt_numcpu T"
  shows "val (process T E M p job) w = Ok x \<Longrightarrow>
      status_writes (events (process T E M p job) w) = [(JobStatusProcessing, '''', True)]"
    and "set (status_writes (events (process T E M p job) w)) \<subseteq>
      {(JobStatusProcessing, '''', True), (JobStatusProcessing, '''', False)}"
    and "length (status_writes (events (process T E M p job) w)) \<le> 1"
    and "val (process T E M p job) w \<noteq> Panic"
proof -
  let ?S = "gorm_service L G" and ?i = "job_ID job"
  note proc = events_process [OF assms(1), of T E M job w] process_world(1) [OF assms(1), of T E M job w]
  have pipe: "status_writes (events (pipeline T E M p job) w') = []" for w'
    by (rule status_writes_media [OF emits_events [OF emits_pipeline]])
  have pipe_safe: "val (pipeline T E M p job) w' \<noteq> Panic" for w'
    by (rule panic_freeD [OF pipeline_panic_free [OF assms(3,2)]])
  note mark = updateStatus_gorm [of L G ?i JobStatusProcessing "''''" w]
  show "val (process T E M p job) w = Ok x \<Longrightarrow>
      status_writes (events (process T E M p job) w) = [(JobStatusProcessing, '''', True)]"
    "set (status_writes (events (process T E M p job) w)) \<subseteq>
      {(JobStatusProcessing, '''', True), (JobStatusProcessing, '''', False)}"
    "length (status_writes (events (process T E M p job) w)) \<le> 1"
    "val (process T E M p job) w \<noteq> Panic"
    using proc pipe pipe_safe mark
    by (cases "val (MarkProcessing ?S ?i) w"; auto simp: MarkProcessing_def)+
qed


text \<open>A run that fails to get a storage client, evaluated.\<close>

lemma demo_run_fails:
  "val (Processor_Run mem_runtime demo_env mem_media demo_processor (Some demo_job)) (demo_run_world [True])
     = Err (ErrWrap ''video service init: '' mm_fault)"
  "log (post (Processor_Run mem_runtime demo_env mem_media demo_processor (Some demo_job)) (demo_run_world [True]))
     = [DB (EvFirstJob demo_job_id None), DB (EvSaveJob (demo_job\<lparr>job_Status := JobStatusProcessing\<rparr>) None),
        Media (EvNewClient Background (Inl mm_fault)), DB (EvFirstJob demo_job_id None),
        DB (EvSaveJob (demo_job\<lparr>job_Status := JobStatusFailed, job_UpdatedAt := 100,
          job_Error := ''video service init: i/o timeout''\<rparr>) None)]"
  by (simp_all add: Processor_Run_def process_def NewVideoService_def MarkProcessing_def MarkFailed_def
      updateStatus_def exec_simps Let_def split_beta mem_gorm_def faulty_def job_with_video_def
      demo_run_world_def demo_world_def demo_ext_def demo_job_def mem_job_def mem_media_def mm_open_def
      mm_fault_def job_status_defs not_found_as_def mem_put_def mem_fk_def mem_video_def demo_video_def
      row_of_def job_row.defs demo_id_def demo_job_id_def)

lemma demo_run_fails_events:
  "events (Processor_Run mem_runtime demo_env mem_media demo_processor (Some demo_job)) (demo_run_world [True]) =
   log (post (Processor_Run mem_runtime demo_env mem_media demo_processor (Some demo_job)) (demo_run_world [True]))"
  by (simp add: events_def demo_run_world_def demo_world_def)


section \<open>Properties\<close>

lemma Run_panic_free:
  assumes "pr_JobService p = Some (gorm_service L G)" "job_Video job = Some v" "0 < rt_numcpu T"
  shows "val (Processor_Run T E M p (Some job)) w \<noteq> Panic"
  using process_writes(4) [OF assms, of E M w] val_Run [OF assms(1), of job T E M w] assms(2)
    updateStatus_gorm(3) [of L G]
  by (auto simp: mark_defs split: res.splits)

text \<open>What a run leaves in the jobs table.\<close>

lemma Run_effect:
  assumes store: "store_contract G jobs videos L" and media: "media_contract T M jobs"
    and S: "pr_JobService p = Some (gorm_service L G)" and v: "job_Video job = Some v"
    and cpu: "0 < rt_numcpu T"
  shows "(\<forall>k. k \<noteq> job_ID job \<longrightarrow>
      jobs (ext (post (Processor_Run T E M p (Some job)) w)) k = jobs (ext w) k) \<and>
    (val (Processor_Run T E M p (Some job)) w = Ok () \<longrightarrow>
      (\<exists>r r'. jobs (ext w) (job_ID job) = Some r \<and>
        jobs (ext (post (Processor_Run T E M p (Some job)) w)) (job_ID job) = Some r' \<and>
        job_Status r' = JobStatusCompleted \<and> job_Error r' = '''' \<and>
        job_OutputBucketPath r' = job_OutputBucketPath r \<and> job_VideoID r' = job_VideoID r)) \<and>
    (\<forall>e. val (Processor_Run T E M p (Some job)) w = Err e \<and>
        (\<exists>ws msg. status_writes (events (Processor_Run T E M p (Some job)) w) = ws @ [(JobStatusFailed, msg, True)]) \<longrightarrow>
      (\<exists>r'. jobs (ext (post (Processor_Run T E M p (Some job)) w)) (job_ID job) = Some r' \<and>
        job_Status r' = JobStatusFailed \<and> job_Error r' = err_text e))"
proof -
  note R = store_contract.is_job_repository [OF store]
  let ?S = "gorm_service L G" and ?i = "job_ID job" and ?pr = "process T E M p job"
  let ?w1 = "post (MarkProcessing ?S ?i) w" and ?w = "post ?pr w"
  have v': "job_Video job \<noteq> None" using v by simp
  note run = events_Run [OF S v', of T E M w] val_Run [OF S v', of T E M w] post_Run [OF S v', of T E M w]
  note writes = process_writes [OF S v cpu, of E M w]
  note frame = job_repository_contract.updateStatus_frame [OF R, of ?S]
    and upd = job_repository_contract.updateStatus_Ok [OF R, of ?S ?i]
  have pipe: "jobs (ext (post (pipeline T E M p job) w')) = jobs (ext w')" for w'
    by (rule keepsD [OF keeps_pipeline [OF media]])
  have proc: "jobs (ext ?w) = jobs (ext ?w1)"
    using pipe process_world(2) [OF S, of T E M job w] by (auto split: res.splits)
  have proc_frame: "k \<noteq> ?i \<Longrightarrow> jobs (ext ?w) k = jobs (ext w) k" for k
    using proc frame [of k ?i] by (simp add: MarkProcessing_def)
  show ?thesis
  proof (cases "val ?pr w")
    case (Ok x)
    then obtain j1 where j1: "val (MarkProcessing ?S ?i) w = Ok j1"
      using process_world(1) [OF S, of T E M job w] by (auto split: res.splits)
    note p1 = upd [OF _ j1 [unfolded MarkProcessing_def]]
    show ?thesis
    proof (cases "val (MarkCompleted ?S ?i) ?w")
      case (Ok j2)
      note p2 = upd [OF _ Ok [unfolded MarkCompleted_def]]
      from p1(1-4) p1(5) p2(1-4) p2(5) obtain r where
        "jobs (ext w) ?i = Some r" "job_OutputBucketPath j2 = job_OutputBucketPath r" "job_VideoID j2 = job_VideoID r"
        using proc by (auto simp: MarkProcessing_def)
      then show ?thesis
        using Ok \<open>val ?pr w = Ok x\<close> run p2(1-4) proc_frame by (auto simp: MarkCompleted_def)
    next
      case (Err e)
      then show ?thesis
        using \<open>val ?pr w = Ok x\<close> run writes(1) updateStatus_gorm(2) [of L G ?i JobStatusCompleted "''''" ?w e]
          proc_frame frame [of _ ?i JobStatusCompleted "''''" ?w]
        by (auto simp: MarkCompleted_def job_status_defs)
    next
      case Panic
      then show ?thesis using updateStatus_gorm(3) [of L G ?i] by (simp add: MarkCompleted_def)
    qed
  next
    case (Err e)
    show ?thesis
    proof (cases "val (MarkFailed ?S ?i (Some e)) ?w")
      case (Ok j2)
      note p2 = upd [OF _ Ok [unfolded MarkFailed_def]]
      then show ?thesis
        using Ok Err run p2(1-4) proc_frame by (auto simp: MarkFailed_def)
    next
      case (Err e')
      have "(JobStatusFailed, msg, True) \<notin> set (status_writes (events (Processor_Run T E M p (Some job)) w))" for msg
        using Err \<open>val ?pr w = Err e\<close> run(1) writes(2)
          updateStatus_gorm(2) [of L G ?i JobStatusFailed "err_text e" ?w e']
        by (auto simp: MarkFailed_def job_status_defs)
      then have "status_writes (events (Processor_Run T E M p (Some job)) w) \<noteq> ws @ [(JobStatusFailed, msg, True)]" for ws msg
        by (metis in_set_conv_decomp)
      then show ?thesis
        using Err \<open>val ?pr w = Err e\<close> run(2,3) proc_frame frame [of _ ?i JobStatusFailed "err_text e" ?w]
        by (auto simp: MarkFailed_def)
    next
      case Panic
      then show ?thesis using updateStatus_gorm(3) [of L G ?i] by (simp add: MarkFailed_def)
    qed
  next
    case Panic
    then show ?thesis using writes(4) by simp
  qed
qed

text \<open>What a run writes.\<close>

lemma Run_writes:
  assumes "pr_JobService p = Some (gorm_service L G)" "job_Video job = Some v" "0 < rt_numcpu T"
  shows "case val (Processor_Run T E M p (Some job)) w of
      Ok _ \<Rightarrow> status_writes (events (Processor_Run T E M p (Some job)) w) =
        [(JobStatusProcessing, '''', True), (JobStatusCompleted, '''', True)]
    | Err e \<Rightarrow>
        (\<exists>ws. set ws \<subseteq> {(JobStatusProcessing, '''', True), (JobStatusProcessing, '''', False)} \<and> length ws \<le> 1 \<and>
           (status_writes (events (Processor_Run T E M p (Some job)) w) = ws @ [(JobStatusFailed, err_text e, True)] \<or>
            (\<exists>st msg. status_writes (events (Processor_Run T E M p (Some job)) w) \<in> {ws, ws @ [(st, msg, False)]} \<and>
               st \<in> {JobStatusCompleted, JobStatusFailed})))
    | Panic \<Rightarrow> False"
proof -
  let ?S = "gorm_service L G" and ?i = "job_ID job" and ?pr = "process T E M p job"
  let ?w = "post ?pr w"
  have v: "job_Video job \<noteq> None" using assms(2) by simp
  note run = events_Run [OF assms(1) v, of T E M w] val_Run [OF assms(1) v, of T E M w]
  note mark = process_writes [OF assms, of E M w]
  show ?thesis
  proof (cases "val ?pr w")
    case (Ok x)
    then show ?thesis
      using run mark updateStatus_gorm [of L G ?i JobStatusCompleted "''''" ?w]
      by (cases "val (MarkCompleted ?S ?i) ?w")
         (auto simp: MarkCompleted_def intro!: exI [of _ "[(JobStatusProcessing, '''', True)]"])
  next
    case (Err e)
    then show ?thesis
      using run mark(2,3) updateStatus_gorm [of L G ?i JobStatusFailed "err_text e" ?w]
      by (cases "val (MarkFailed ?S ?i (Some e)) ?w")
         (auto simp: MarkFailed_def intro!: exI [of _ "status_writes (events ?pr w)"])
  next
    case Panic
    then show ?thesis using mark(4) by simp
  qed
qed







text \<open>
  C15: Every run gives back what it opens: the storage clients, readers, writers and files opened in
  a run are, as a multiset, those it closes, whatever fails on the way and whatever the scheduler
  of the upload does.
\<close>

theorem Run_resources:
  assumes "pr_JobService p = Some (gorm_service L G)"
  shows "sum_list (map acquired (events (Processor_Run T E M p jobptr) w)) =
    sum_list (map released (events (Processor_Run T E M p jobptr) w))"
  by (rule owes_events [OF owes_Run [OF assms]])

theorem Run_resources_witness:
  "sum_list (map acquired (events (Processor_Run mem_runtime demo_env mem_media demo_processor (Some demo_job)) (demo_run_world []))) =
   sum_list (map released (events (Processor_Run mem_runtime demo_env mem_media demo_processor (Some demo_job)) (demo_run_world [])))"
  by (rule Run_resources [OF demo_processor_sel])



end
