(* ===== verification/Mem_Run.thy ===== *)
theory Mem_Run
  imports Processor
begin

text \<open>
  A run that succeeds, on the concrete database and storage: with no faults to come, every stage of
  the pipeline succeeds and the job ends as completed.
\<close>

lemmas mem_media_defs = mem_media_def mm_open_def mm_act_def Let_def

lemma mem_UploadObject:
  assumes "mm_faults (ext w) = []"
  shows "val (UploadObject mem_media vu c p cl) w = Ok ()"
    "mm_faults (ext (post (UploadObject mem_media vu c p cl) w)) = []"
  using assms
  by (simp_all add: UploadObject_def exec_simps copy_def close_file_def mem_media_defs)

lemma mem_run_pool:
  assumes "mm_faults (ext w) = []" "pl_errors p = []"
  shows "pl_errors (fst (run_pool mem_runtime mem_media vu c cl p w)) = [] \<and>
    mm_faults (ext (snd (run_pool mem_runtime mem_media vu c cl p w))) = []"
proof (rule run_pool_invariant [where P = "\<lambda>p w. pl_errors p = [] \<and> mm_faults (ext w) = []"])
  fix p :: pool and m n and w :: "'a memworld_scheme world"
  let ?w = "w\<lparr>ext := snd (rt_pick mem_runtime n (ext w))\<rparr>"
  assume "pl_errors p = [] \<and> mm_faults (ext w) = []"
  then have "pl_errors p = []" "mm_faults (ext ?w) = []" by (simp_all add: mem_runtime_def)
  then show "pl_errors (val (make_move mem_media vu c cl m p) ?w) = [] \<and>
      mm_faults (ext (post (make_move mem_media vu c cl m p) ?w)) = []"
    using mem_UploadObject [of ?w vu c]
    by (cases m) (simp_all add: finish_upload_def split_beta is_ok_def split: worker.split)
qed (use assms in simp)

lemma mem_ProcessUpload:
  assumes "mm_faults (ext w) = []" "mm_tree (ext w) = Inr demo_tree"
  shows "val (ProcessUpload mem_runtime mem_media vu c q) w = Ok ()"
    "mm_faults (ext (post (ProcessUpload mem_runtime mem_media vu c q) w)) = []"
proof -
  let ?vu = "vu\<lparr>vu_Errors := [], vu_Paths := map (walk_path (vu_VideoPath vu)) (rel_files demo_tree)\<rparr>"
  have "readable demo_tree" by (simp add: demo_tree_def)
  then have load: "run_state (loadPaths mem_media (vu\<lparr>vu_Paths := [], vu_Errors := []\<rparr>)) w = (Ok ?vu, w)"
    using walk_load(1) [of demo_tree "vu_VideoPath vu" "[]"] assms(2)
    by (simp add: loadPaths_def Walk_def mem_media_def)
  have some: "rel_files demo_tree \<noteq> []" by (simp add: demo_tree_def)
  let ?w = "w\<lparr>ext := (ext w)\<lparr>mm_handle := mm_handle (ext w) + 1\<rparr>,
      log := log w @ [Media (EvNewClient c (Inr (mm_handle (ext w))))]\<rparr>"
  have "mm_faults (ext ?w) = []" using assms by simp
  note pool = mem_run_pool [OF this, of "init_pool k" for k]
  have client: "st_new_client mem_media c (ext w) =
      (Inr (mm_handle (ext w)), (ext w)\<lparr>mm_handle := mm_handle (ext w) + 1\<rparr>)"
    using assms(1) by (cases "ext w") (simp add: mem_media_defs)
  show "val (ProcessUpload mem_runtime mem_media vu c q) w = Ok ()"
    using ProcessUpload_no_panic [of mem_runtime mem_media vu c q w] pool load some client
    by (auto simp: ProcessUpload_def exec_simps split_beta init_pool_def split: if_splits)
  show "mm_faults (ext (post (ProcessUpload mem_runtime mem_media vu c q) w)) = []"
    using pool load some client
    by (simp add: ProcessUpload_def exec_simps split_beta init_pool_def mem_media_defs)
qed

lemma mem_stages:
  assumes "mm_faults (ext w) = []" "vs_storageClient S = Some h" "vs_Video S = Some v"
  shows "val (Download E mem_media S c b) w = Ok ()" "val (Fragment E mem_media S c) w = Ok ()"
    "val (Encode E mem_media S c) w = Ok ()" "val (Finish E mem_media S) w = Ok ()"
    "mm_faults (ext (post (Download E mem_media S c b) w)) = [] \<and>
     mm_tree (ext (post (Download E mem_media S c b) w)) = mm_tree (ext w)"
    "mm_faults (ext (post (Fragment E mem_media S c) w)) = [] \<and>
     mm_tree (ext (post (Fragment E mem_media S c) w)) = mm_tree (ext w)"
    "mm_faults (ext (post (Encode E mem_media S c) w)) = [] \<and>
     mm_tree (ext (post (Encode E mem_media S c) w)) = mm_tree (ext w)"
  using assms
  by (simp_all add: Download_def Fragment_def Encode_def Finish_def finish_targets_def command_def copy_def
      close_reader_def close_file_def exec_simps split_beta mem_media_defs)

lemma mem_pipeline:
  assumes "mm_faults (ext w) = []" "mm_tree (ext w) = Inr demo_tree" "job_Video job = Some v"
  shows "val (pipeline mem_runtime E mem_media p job) w = Ok ()"
proof -
  let ?S = "\<lparr>vs_Video = Some v, vs_VideoRepository = None, vs_storageClient = Some (mm_handle (ext w))\<rparr>"
  let ?c = "WithTimeout (process_timeout p)"
  let ?w0 = "post (NewVideoService mem_media) w"
  let ?w1 = "post (Download E mem_media ?S ?c (pr_SourceBucket p)) ?w0"
  let ?w2 = "post (Fragment E mem_media ?S ?c) ?w1"
  let ?w3 = "post (Encode E mem_media ?S ?c) ?w2"
  have w0: "val (NewVideoService mem_media) w = Ok (?S\<lparr>vs_Video := None\<rparr>)"
      "mm_faults (ext ?w0) = []" "mm_tree (ext ?w0) = Inr demo_tree"
    using assms by (simp_all add: NewVideoService_def exec_simps mem_media_defs)
  note s1 = mem_stages [OF w0(2), of ?S] and s2 = mem_stages [of ?w1 ?S] and s3 = mem_stages [of ?w2 ?S]
  have w1: "mm_faults (ext ?w1) = []" "mm_tree (ext ?w1) = Inr demo_tree" using s1(5) w0 by simp_all
  have w2: "mm_faults (ext ?w2) = []" "mm_tree (ext ?w2) = Inr demo_tree" using s2(6) w1 by simp_all
  have w3: "mm_faults (ext ?w3) = []" "mm_tree (ext ?w3) = Inr demo_tree" using s3(7) w2 by simp_all
  have up: "val (uploadOutputs mem_runtime E mem_media p ?c job) ?w3 = Ok ()"
      "mm_faults (ext (post (uploadOutputs mem_runtime E mem_media p ?c job) ?w3)) = []"
    using mem_ProcessUpload [OF w3] assms(3) by (simp_all add: uploadOutputs_def Let_def)
  note s4 = mem_stages [OF up(2), of ?S]
  show ?thesis
    using w0 s1(1) s2(2) s3(3) s4(4) w1 w2 w3 up assms(3)
    by (simp add: pipeline_def Let_def run_attempt run_wrap run_deferring split_beta)
qed

text \<open>The fields of the database are out of the reach of the storage.\<close>

interpretation mm_db: media_contract mem_runtime mem_media
  "\<lambda>x :: 'a memworld_scheme. (mem_jobs x, mem_faults x)"
  by unfold_locales (simp_all add: mem_runtime_def mem_media_defs)

lemma mem_updateStatus:
  assumes "mem_faults (ext w) = []" "mem_job (ext w) i = Some r"
  shows "\<exists>j. val (updateStatus (gorm_service mem_lib mem_gorm) i st msg) w = Ok j \<and> job_ID j = i"
    "mem_faults (ext (post (updateStatus (gorm_service mem_lib mem_gorm) i st msg) w)) = []"
    "mm_faults (ext (post (updateStatus (gorm_service mem_lib mem_gorm) i st msg) w)) = mm_faults (ext w)"
    "mm_tree (ext (post (updateStatus (gorm_service mem_lib mem_gorm) i st msg) w)) = mm_tree (ext w)"
    "mem_job (ext (post (updateStatus (gorm_service mem_lib mem_gorm) i st msg) w)) i \<noteq> None"
proof -
  note run = updateStatus_def exec_simps Let_def split_beta mem_gorm_def faulty_def not_found_as_def
  show "\<exists>j. val (updateStatus (gorm_service mem_lib mem_gorm) i st msg) w = Ok j \<and> job_ID j = i"
    "mem_faults (ext (post (updateStatus (gorm_service mem_lib mem_gorm) i st msg) w)) = []"
    "mm_faults (ext (post (updateStatus (gorm_service mem_lib mem_gorm) i st msg) w)) = mm_faults (ext w)"
    "mm_tree (ext (post (updateStatus (gorm_service mem_lib mem_gorm) i st msg) w)) = mm_tree (ext w)"
    using assms mem_job_ID [OF assms(2)] by (auto simp: run mem_put_def)
  show "mem_job (ext (post (updateStatus (gorm_service mem_lib mem_gorm) i st msg) w)) i \<noteq> None"
    using assms mem_job_ID [OF assms(2)] by (auto simp: run mem_job_put)
qed

lemma mem_Run_Ok:
  assumes w: "mem_faults (ext w) = []" "mm_faults (ext w) = []" "mm_tree (ext w) = Inr demo_tree"
    and row: "mem_job (ext w) (job_ID job) = Some r" and v: "job_Video job = Some v"
    and p: "pr_JobService p = Some (gorm_service mem_lib mem_gorm)"
  shows "val (Processor_Run mem_runtime E mem_media p (Some job)) w = Ok ()"
proof -
  let ?S = "gorm_service mem_lib mem_gorm :: 'a memworld_scheme job_service"
  let ?w1 = "post (MarkProcessing ?S (job_ID job)) w"
  let ?w2 = "post (pipeline mem_runtime E mem_media p job) ?w1"
  note m = mem_updateStatus [OF w(1) row, of JobStatusProcessing "[]", folded MarkProcessing_def]
  have pipe: "val (pipeline mem_runtime E mem_media p job) ?w1 = Ok ()"
    using mem_pipeline [of ?w1 job v E p] m w v by simp
  have "(mem_jobs (ext ?w2), mem_faults (ext ?w2)) = (mem_jobs (ext ?w1), mem_faults (ext ?w1))"
    by (rule keepsD [OF keeps_pipeline [OF mm_db.media_contract_axioms]])
  then obtain r2 where "mem_job (ext ?w2) (job_ID job) = Some r2" "mem_faults (ext ?w2) = []"
    using m by (auto simp: mem_job_def)
  then obtain j where j: "val (MarkCompleted ?S (job_ID job)) ?w2 = Ok j"
    using mem_updateStatus(1) [of ?w2 "job_ID job" r2 JobStatusCompleted "[]"] by (auto simp: MarkCompleted_def)
  obtain j' where "val (MarkProcessing ?S (job_ID job)) w = Ok j'" using m(1) by blast
  then have "val (process mem_runtime E mem_media p job) w = Ok ()"
      "post (process mem_runtime E mem_media p job) w = ?w2"
    using process_world [OF p, of mem_runtime E mem_media job w] pipe by simp_all
  then show ?thesis using val_Run [OF p, of job mem_runtime E mem_media w] v j by simp
qed

end
