(* ===== verification/Go_Utf8.thy ===== *)
theory Go_Utf8
  imports Go_Strings
begin

text \<open>
  UTF-8 as Go's \<^verbatim>\<open>unicode/utf8\<close> decodes it: the length of the well-formed rune at the head of a
  byte sequence, well-formed strings, the encoding of a code point, and the fact that trimming
  spaces keeps a string well-formed.
\<close>

definition is_cont :: "char \<Rightarrow> bool" where
  "is_cont c \<longleftrightarrow> 128 \<le> byte c \<and> byte c \<le> 191"

text \<open>The range of the second byte after a leading byte (no overlong forms, no surrogates, nothing
  past U+10FFFF).\<close>

definition second_ok :: "char \<Rightarrow> char \<Rightarrow> bool" where
  "second_ok a b \<longleftrightarrow>
     (if byte a = 224 then 160 else if byte a = 240 then 144 else 128) \<le> byte b \<and>
     byte b \<le> (if byte a = 237 then 159 else if byte a = 244 then 143 else 191)"

text \<open>The length of the rune at the head, 0 when it is not well-formed.\<close>

definition rune_len :: "string \<Rightarrow> nat" where
  "rune_len s = (case s of
       [] \<Rightarrow> 0
     | a # s1 \<Rightarrow>
         if byte a < 128 then 1
         else if 194 \<le> byte a \<and> byte a \<le> 223 then
           (case s1 of b # _ \<Rightarrow> if is_cont b then 2 else 0 | _ \<Rightarrow> 0)
         else if 224 \<le> byte a \<and> byte a \<le> 239 then
           (case s1 of b # c # _ \<Rightarrow> if second_ok a b \<and> is_cont c then 3 else 0 | _ \<Rightarrow> 0)
         else if 240 \<le> byte a \<and> byte a \<le> 244 then
           (case s1 of b # c # d # _ \<Rightarrow> if second_ok a b \<and> is_cont c \<and> is_cont d then 4 else 0 | _ \<Rightarrow> 0)
         else 0)"

definition is_rune :: "string \<Rightarrow> bool" where
  "is_rune r \<longleftrightarrow> r \<noteq> [] \<and> rune_len r = length r"

lemma rune_len_le: "rune_len s \<le> length s"
  by (auto simp: rune_len_def split: list.split)

lemma is_rune_take: "0 < rune_len s \<Longrightarrow> is_rune (take (rune_len s) s)"
  by (auto simp: is_rune_def rune_len_def split: list.splits if_splits)

lemma rune_len_append: "is_rune r \<Longrightarrow> rune_len (r @ s) = length r"
  by (auto simp: is_rune_def rune_len_def split: list.splits if_splits)

text \<open>A rune is one ASCII byte, or a leading byte and continuation bytes, none of them ASCII.\<close>

lemma is_rune_cases:
  assumes "is_rune r"
  obtains (ascii) c where "r = [c]" "byte c < 128"
  | (multi) a cs where "r = a # cs" "cs \<noteq> []" "194 \<le> byte a" "list_all is_cont cs"
proof (cases r)
  case (Cons a cs)
  show ?thesis
  proof (cases "byte a < 128")
    case True
    with assms Cons ascii show ?thesis by (auto simp: is_rune_def rune_len_def)
  next
    case False
    have "second_ok a b \<Longrightarrow> is_cont b" for b by (auto simp: second_ok_def is_cont_def split: if_splits)
    then have "cs \<noteq> []" "194 \<le> byte a" "list_all is_cont cs"
      using assms Cons False by (auto simp: is_rune_def rune_len_def split: list.splits if_splits)
    then show ?thesis using Cons multi by blast
  qed
qed (use assms in \<open>simp add: is_rune_def\<close>)

lemma is_rune_ascii: "byte c < 128 \<Longrightarrow> is_rune [c]"
  by (simp add: is_rune_def rune_len_def)

inductive valid_utf8 :: "string \<Rightarrow> bool" where
  empty: "valid_utf8 []"
| rune: "is_rune r \<Longrightarrow> valid_utf8 s \<Longrightarrow> valid_utf8 (r @ s)"

inductive_cases valid_utf8_ConsE: "valid_utf8 (c # s)"

lemma valid_utf8_append: "valid_utf8 s \<Longrightarrow> valid_utf8 t \<Longrightarrow> valid_utf8 (s @ t)"
  by (induction rule: valid_utf8.induct) (auto intro: valid_utf8.rune)

lemma valid_utf8_rune: "is_rune r \<Longrightarrow> valid_utf8 r"
  using valid_utf8.rune [OF _ valid_utf8.empty] by simp

lemma valid_utf8_drop:
  assumes r: "is_rune r" and v: "valid_utf8 (r @ s)"
  shows "valid_utf8 s"
  using v
proof cases
  case (rune r' s')
  have "length r = length r'"
    using rune_len_append [OF r, of s] rune_len_append [OF rune(2), of s'] rune(1) by simp
  with rune show ?thesis by simp
qed (use r in \<open>simp add: is_rune_def\<close>)

lemma valid_utf8_butlast_rune:
  assumes u: "is_rune u" and v: "valid_utf8 (t @ u)"
  shows "valid_utf8 t"
  using v
proof (induction "t @ u" arbitrary: t rule: valid_utf8.induct)
  case empty
  then show ?case by (simp add: valid_utf8.empty)
next
  case (rune r s)
  show ?case
  proof (cases "t = []")
    case False
    show ?thesis
    proof (cases "length r \<le> length t")
      case True
      then obtain t' where t': "t = r @ t'"
        using rune(4) by (metis append_eq_append_conv_if append_take_drop_id)
      then have "s = t' @ u" using rune(4) by simp
      then show ?thesis using t' rune(1,3) valid_utf8.rune by blast
    next
      case less: False
      then obtain m where m: "r = t @ m" "u = m @ s" "m \<noteq> []"
        using rune(4) by (auto simp: append_eq_append_conv2)
      obtain b where b: "m = b # tl m" using m(3) by (cases m) auto
      from rune(1) show ?thesis
      proof (cases rule: is_rune_cases)
        case (ascii c)
        with m \<open>t \<noteq> []\<close> show ?thesis by (cases t) auto
      next
        case (multi a cs)
        have "b \<in> set m" using b by (metis list.set_intros(1))
        with multi have "is_cont b" using m(1) \<open>t \<noteq> []\<close> by (cases t) (auto simp: list_all_iff)
        moreover have "byte b < 128 \<or> 194 \<le> byte b"
        proof -
          obtain m' where "u = b # m' @ s" using m(2) b by (metis append_Cons)
          with u show ?thesis by (cases rule: is_rune_cases) auto
        qed
        ultimately show ?thesis by (simp add: is_cont_def)
      qed
    qed
  qed (simp add: valid_utf8.empty)
qed


section \<open>Trimming\<close>

lemma utf8_spaces_runes: "p \<in> set utf8_spaces \<Longrightarrow> is_rune p"
  by (auto simp: utf8_spaces_def is_rune_def rune_len_def is_cont_def second_ok_def)

lemma valid_utf8_TrimLeftSpace: "valid_utf8 s \<Longrightarrow> valid_utf8 (TrimLeftSpace s)"
proof (induction s rule: TrimLeftSpace.induct)
  case (1 s)
  show ?case
  proof (cases "find (\<lambda>p. prefix p s) utf8_spaces")
    case None
    with 1 show ?thesis by (simp add: TrimLeftSpace.simps [of s])
  next
    case (Some p)
    then have "p \<in> set utf8_spaces" "prefix p s" by (auto simp: find_Some_iff)
    then have "valid_utf8 (drop (length p) s)"
      using 1(2) valid_utf8_drop [OF utf8_spaces_runes] by (auto elim!: prefixE)
    with 1(1) Some show ?thesis by (simp add: TrimLeftSpace.simps [of s])
  qed
qed

lemma valid_utf8_TrimRightSpace: "valid_utf8 s \<Longrightarrow> valid_utf8 (TrimRightSpace s)"
proof (induction s rule: TrimRightSpace.induct)
  case (1 s)
  show ?case
  proof (cases "find (\<lambda>p. suffix p s) utf8_spaces")
    case None
    with 1 show ?thesis by (simp add: TrimRightSpace.simps [of s])
  next
    case (Some p)
    then have "p \<in> set utf8_spaces" "suffix p s" by (auto simp: find_Some_iff)
    then have "valid_utf8 (take (length s - length p) s)"
      using 1(2) valid_utf8_butlast_rune [OF utf8_spaces_runes] by (auto elim!: suffixE)
    with 1(1) Some show ?thesis by (simp add: TrimRightSpace.simps [of s])
  qed
qed

lemma valid_utf8_TrimSpace: "valid_utf8 s \<Longrightarrow> valid_utf8 (TrimSpace s)"
  by (simp add: TrimSpace_def valid_utf8_TrimLeftSpace valid_utf8_TrimRightSpace)


section \<open>Encoding a code point\<close>

definition surrogate :: "nat \<Rightarrow> bool" where
  "surrogate n \<longleftrightarrow> 0xD800 \<le> n \<and> n < 0xE000"

definition encode_rune :: "nat \<Rightarrow> string" where
  "encode_rune n =
     (if n < 0x80 then [char_of n]
      else if n < 0x800 then [char_of (0xC0 + n div 64), char_of (0x80 + n mod 64)]
      else if n < 0x10000 then
        [char_of (0xE0 + n div 4096), char_of (0x80 + n div 64 mod 64), char_of (0x80 + n mod 64)]
      else [char_of (0xF0 + n div 262144), char_of (0x80 + n div 4096 mod 64),
            char_of (0x80 + n div 64 mod 64), char_of (0x80 + n mod 64)])"

text \<open>\<^verbatim>\<open>unicode.ReplacementChar\<close>, U+FFFD.\<close>

definition RuneError :: string where "RuneError = [CHR 0xEF, CHR 0xBF, CHR 0xBD]"

lemma is_rune_RuneError [simp]: "is_rune RuneError"
  by (simp add: RuneError_def is_rune_def rune_len_def is_cont_def second_ok_def)

lemma byte_char_of: "n < 256 \<Longrightarrow> byte (char_of n :: char) = n"
  by simp

lemma is_rune_encode:
  assumes "n < 0x110000" "\<not> surrogate n"
  shows "is_rune (encode_rune n)"
proof -
  consider "n < 0x80" | "0x80 \<le> n" "n < 0x800" | "0x800 \<le> n" "n < 0x10000" | "0x10000 \<le> n"
    by linarith
  then show ?thesis
  proof cases
    case 1
    then show ?thesis by (simp add: encode_rune_def is_rune_ascii)
  next
    case 2
    then have "2 \<le> n div 64" "n div 64 < 32" by auto
    with 2 show ?thesis
      by (simp add: encode_rune_def is_rune_def rune_len_def is_cont_def)
  next
    case 3
    define a b where ab: "a = n div 4096" "b = n div 64 mod 64"
    have "a = n div 64 div 64" by (simp add: ab div_mult2_eq [symmetric])
    then have e: "n div 64 = 64 * a + b" by (simp add: ab)
    have "32 \<le> n div 64" "n div 64 < 1024" using 3 by auto
    moreover have "n div 64 < 864 \<or> 896 \<le> n div 64"
      using assms(2) unfolding surrogate_def by auto
    moreover have "b < 64" by (simp add: ab)
    ultimately have "a < 16" "a = 0 \<Longrightarrow> 32 \<le> b" "a = 13 \<Longrightarrow> b \<le> 31" "b < 64" using e by auto
    moreover have "n mod 64 \<le> 63" by (simp add: less_Suc_eq_le [symmetric])
    ultimately show ?thesis using 3
      by (simp add: encode_rune_def is_rune_def rune_len_def is_cont_def second_ok_def ab [symmetric])
  next
    case 4
    define a b where ab: "a = n div 262144" "b = n div 4096 mod 64"
    have "a = n div 4096 div 64" by (simp add: ab div_mult2_eq [symmetric])
    then have e: "n div 4096 = 64 * a + b" by (simp add: ab)
    have "16 \<le> n div 4096" "n div 4096 < 272" using 4 assms(1) by auto
    moreover have "b < 64" by (simp add: ab)
    ultimately have "a < 5" "a = 0 \<Longrightarrow> 16 \<le> b" "a = 4 \<Longrightarrow> b \<le> 15" "b < 64" using e by auto
    moreover have "n mod 64 \<le> 63" "n div 64 mod 64 \<le> 63" by (simp_all add: less_Suc_eq_le [symmetric])
    ultimately show ?thesis using 4
      by (simp add: encode_rune_def is_rune_def rune_len_def is_cont_def second_ok_def ab [symmetric])
  qed
qed

end
