(* ===== verification/Go_Json.thy ===== *)
theory Go_Json
  imports Go_Utf8
begin

text \<open>
  The part of Go's \<^verbatim>\<open>encoding/json\<close> that the program uses: the scanner, which reads bytes one at a
  time with a stack of open arrays and objects (at most 10000), the decoding of a value into a
  struct of string fields, and the encoding of such a struct. Errors carry the text Go gives them,
  without the offending character and the position of a syntax error.
\<close>


section \<open>Strings\<close>

definition hex_digit :: "char \<Rightarrow> nat option" where
  "hex_digit c =
     (if 48 \<le> byte c \<and> byte c \<le> 57 then Some (byte c - 48)
      else if 97 \<le> byte c \<and> byte c \<le> 102 then Some (byte c - 87)
      else if 65 \<le> byte c \<and> byte c \<le> 70 then Some (byte c - 55)
      else None)"

text \<open>\<^verbatim>\<open>getu4\<close>, after the \<^verbatim>\<open>\u\<close>.\<close>

fun getu4 :: "string \<Rightarrow> (nat \<times> string) option" where
  "getu4 (a # b # c # d # s) =
     (case (hex_digit a, hex_digit b, hex_digit c, hex_digit d) of
        (Some i, Some j, Some k, Some l) \<Rightarrow> Some (4096 * i + 256 * j + 16 * k + l, s)
      | _ \<Rightarrow> None)"
| "getu4 _ = None"

lemma getu4_length: "getu4 s = Some (n, t) \<Longrightarrow> length t < length s"
  by (cases s rule: getu4.cases) (auto split: option.splits)

lemma getu4_range: "getu4 s = Some (n, t) \<Longrightarrow> n < 0x10000"
  by (cases s rule: getu4.cases) (auto simp: hex_digit_def split: option.splits if_splits)

text \<open>The character an escape other than \<^verbatim>\<open>\u\<close> stands for.\<close>

definition escaped :: "char \<Rightarrow> char" where
  "escaped e = (if e = CHR ''b'' then CHR 0x08 else if e = CHR ''f'' then CHR 0x0C
     else if e = CHR ''n'' then CHR 0x0A else if e = CHR ''r'' then CHR 0x0D
     else if e = CHR ''t'' then CHR 0x09 else e)"

definition simple_escapes :: "char set" where
  "simple_escapes = {CHR 0x22, CHR 0x5C, CHR ''/'', CHR 0x27, CHR ''b'', CHR ''f'', CHR ''n'', CHR ''r'', CHR ''t''}"

abbreviation backslash :: char where "backslash \<equiv> CHR 0x5C"
abbreviation quote_char :: char where "quote_char \<equiv> CHR 0x22"

text \<open>
  \<^verbatim>\<open>unquote\<close>: the bytes between the quotes of a scanned string, with its escapes replaced, with
  surrogate pairs joined, and with U+FFFD in place of lone surrogates and of bytes that are not
  well-formed UTF-8. The cases that give up are not reached after the scanner.
\<close>

function unquote :: "string \<Rightarrow> string" where
  "unquote [] = []"
| "unquote (c # s) =
     (if c = backslash then
        (case s of
           [] \<Rightarrow> []
         | e # t \<Rightarrow>
             if e = CHR ''u'' then
               (case getu4 t of
                  None \<Rightarrow> []
                | Some (n, t1) \<Rightarrow>
                    if \<not> surrogate n then encode_rune n @ unquote t1
                    else (case t1 of
                        b # u # t2 \<Rightarrow>
                          if b = backslash \<and> u = CHR ''u'' then
                            (case getu4 t2 of
                               Some (m, t3) \<Rightarrow>
                                 if n < 0xDC00 \<and> 0xDC00 \<le> m \<and> m < 0xE000
                                 then encode_rune ((n - 0xD800) * 1024 + (m - 0xDC00) + 0x10000) @ unquote t3
                                 else RuneError @ unquote t1
                             | None \<Rightarrow> RuneError @ unquote t1)
                          else RuneError @ unquote t1
                      | _ \<Rightarrow> RuneError @ unquote t1))
             else if e \<in> simple_escapes then escaped e # unquote t
             else [])
      else if rune_len (c # s) = 0 then RuneError @ unquote s
      else take (rune_len (c # s)) (c # s) @ unquote (drop (rune_len (c # s)) (c # s)))"
  by pat_completeness auto
termination
  by (relation "measure length") (auto dest!: getu4_length)

declare unquote.simps(2) [simp del]

definition hex_char :: "nat \<Rightarrow> char" where
  "hex_char n = (if n < 10 then char_of (48 + n) else char_of (87 + n))"

text \<open>\<^verbatim>\<open>appendString\<close> with HTML escaping: how \<^verbatim>\<open>json.Marshal\<close> writes one rune.\<close>

definition quote_ascii :: "char \<Rightarrow> string" where
  "quote_ascii c =
     (if c = backslash \<or> c = quote_char then [backslash, c]
      else if c = CHR 0x08 then [backslash, CHR ''b''] else if c = CHR 0x0C then [backslash, CHR ''f'']
      else if c = CHR 0x0A then [backslash, CHR ''n''] else if c = CHR 0x0D then [backslash, CHR ''r'']
      else if c = CHR 0x09 then [backslash, CHR ''t'']
      else if byte c < 32 \<or> c \<in> {CHR ''<'', CHR ''>'', CHR ''&''}
        then [backslash, CHR ''u'', CHR ''0'', CHR ''0'', hex_char (byte c div 16), hex_char (byte c mod 16)]
      else [c])"

definition line_separators :: "string list" where
  "line_separators = [[CHR 0xE2, CHR 0x80, CHR 0xA8], [CHR 0xE2, CHR 0x80, CHR 0xA9]]"

function quote :: "string \<Rightarrow> string" where
  "quote [] = []"
| "quote (c # s) =
     (if byte c < 128 then quote_ascii c @ quote s
      else let n = rune_len (c # s) in
        if n = 0 then backslash # ''ufffd'' @ quote s
        else (if take n (c # s) \<in> set line_separators
              then backslash # ''u202'' @ [hex_char (byte (take n (c # s) ! 2) mod 16)]
              else take n (c # s)) @ quote (drop n (c # s)))"
  by pat_completeness auto
termination
  by (relation "measure length") auto

declare quote.simps(2) [simp del]


section \<open>The scanner\<close>

datatype json =
    JNull | JBool bool | JNum string | JStr string | JArr "json list" | JObj "(string \<times> json) list"

text \<open>An open array with its elements so far, or an open object with its members so far and the
  key whose value is being read.\<close>

datatype frame = FArr "json list" | FObj "(string \<times> json) list" "string option"

datatype nstate = NNeg | NZero | NInt | NDot | NFrac | NE | NESign | NExp

text \<open>
  What the scanner expects: a value (or the end of an empty array), a key (or the end of an empty
  object), a colon, the rest of a string (\<open>raw\<close> are the bytes read, without the quotes), of a
  number or of a literal, what follows a value inside an array or object; \<open>MDone\<close> is a complete
  top-level value.
\<close>

datatype mode =
    MValue | MValueOrEnd | MKey | MKeyOrEnd | MColon
  | MStr string | MEsc string | MHex nat string
  | MNum nstate string | MLit string json
  | MEnd | MDone json

type_synonym scan_state = "mode \<times> frame list"

definition is_json_space :: "char \<Rightarrow> bool" where
  "is_json_space c \<longleftrightarrow> c \<in> {CHR 0x20, CHR 0x09, CHR 0x0D, CHR 0x0A}"

definition maxNestingDepth :: nat where "maxNestingDepth = 10000"

text \<open>A value is complete: it goes into the innermost open array or object, or it is the result.\<close>

fun complete :: "json \<Rightarrow> frame list \<Rightarrow> scan_state" where
  "complete v [] = (MDone v, [])"
| "complete v (FArr vs # st) = (MEnd, FArr (vs @ [v]) # st)"
| "complete v (FObj ms (Some k) # st) = (MEnd, FObj (ms @ [(k, v)]) None # st)"
| "complete v (FObj ms None # st) = (case v of JStr k \<Rightarrow> (MColon, FObj ms (Some k) # st) | _ \<Rightarrow> (MEnd, FObj ms None # st))"

definition push :: "frame \<Rightarrow> mode \<Rightarrow> frame list \<Rightarrow> scan_state option" where
  "push f m st = (if length st + 1 \<le> maxNestingDepth then Some (m, f # st) else None)"

definition begin_value :: "char \<Rightarrow> frame list \<Rightarrow> scan_state option" where
  "begin_value c st =
     (if is_json_space c then Some (MValue, st)
      else if c = CHR ''{'' then push (FObj [] None) MKeyOrEnd st
      else if c = CHR ''['' then push (FArr []) MValueOrEnd st
      else if c = quote_char then Some (MStr [], st)
      else if c = CHR ''-'' then Some (MNum NNeg [c], st)
      else if c = CHR ''0'' then Some (MNum NZero [c], st)
      else if is_digit c then Some (MNum NInt [c], st)
      else if c = CHR ''t'' then Some (MLit ''rue'' (JBool True), st)
      else if c = CHR ''f'' then Some (MLit ''alse'' (JBool False), st)
      else if c = CHR ''n'' then Some (MLit ''ull'' JNull, st)
      else None)"

definition begin_key :: "char \<Rightarrow> frame list \<Rightarrow> mode \<Rightarrow> scan_state option" where
  "begin_key c st m =
     (if is_json_space c then Some (m, st) else if c = quote_char then Some (MStr [], st) else None)"

fun num_step :: "nstate \<Rightarrow> char \<Rightarrow> nstate option" where
  "num_step NNeg c = (if c = CHR ''0'' then Some NZero else if is_digit c then Some NInt else None)"
| "num_step NZero c = (if c = CHR ''.'' then Some NDot
     else if c \<in> {CHR ''e'', CHR ''E''} then Some NE else None)"
| "num_step NInt c = (if is_digit c then Some NInt else if c = CHR ''.'' then Some NDot
     else if c \<in> {CHR ''e'', CHR ''E''} then Some NE else None)"
| "num_step NDot c = (if is_digit c then Some NFrac else None)"
| "num_step NFrac c = (if is_digit c then Some NFrac
     else if c \<in> {CHR ''e'', CHR ''E''} then Some NE else None)"
| "num_step NE c = (if c \<in> {CHR ''+'', CHR ''-''} then Some NESign
     else if is_digit c then Some NExp else None)"
| "num_step NESign c = (if is_digit c then Some NExp else None)"
| "num_step NExp c = (if is_digit c then Some NExp else None)"

definition num_done :: "nstate \<Rightarrow> bool" where
  "num_done n \<longleftrightarrow> n \<in> {NZero, NInt, NFrac, NExp}"

definition end_value :: "char \<Rightarrow> frame list \<Rightarrow> scan_state option" where
  "end_value c st = (case st of
       FArr vs # st' \<Rightarrow>
         if is_json_space c then Some (MEnd, st)
         else if c = CHR '','' then Some (MValue, st)
         else if c = CHR '']'' then Some (complete (JArr vs) st') else None
     | FObj ms k # st' \<Rightarrow>
         if is_json_space c then Some (MEnd, st)
         else if c = CHR '','' then Some (MKey, st)
         else if c = CHR ''}'' then Some (complete (JObj ms) st') else None
     | [] \<Rightarrow> None)"

fun scan_step :: "scan_state \<Rightarrow> char \<Rightarrow> scan_state option" where
  "scan_step (MValue, st) c = begin_value c st"
| "scan_step (MValueOrEnd, st) c =
     (if is_json_space c then Some (MValueOrEnd, st)
      else if c = CHR '']'' then end_value c st else begin_value c st)"
| "scan_step (MKey, st) c = begin_key c st MKey"
| "scan_step (MKeyOrEnd, st) c =
     (if c = CHR ''}'' then end_value c st else begin_key c st MKeyOrEnd)"
| "scan_step (MColon, st) c =
     (if is_json_space c then Some (MColon, st)
      else if c = CHR '':'' then Some (MValue, st) else None)"
| "scan_step (MStr raw, st) c =
     (if c = quote_char then Some (complete (JStr (unquote raw)) st)
      else if c = backslash then Some (MEsc raw, st)
      else if byte c < 32 then None else Some (MStr (raw @ [c]), st))"
| "scan_step (MEsc raw, st) c =
     (if c = CHR ''u'' then Some (MHex 4 (raw @ [backslash, c]), st)
      else if c \<in> {CHR ''b'', CHR ''f'', CHR ''n'', CHR ''r'', CHR ''t'', backslash, CHR ''/'', quote_char}
      then Some (MStr (raw @ [backslash, c]), st) else None)"
| "scan_step (MHex n raw, st) c =
     (if hex_digit c = None then None
      else if n \<le> 1 then Some (MStr (raw @ [c]), st) else Some (MHex (n - 1) (raw @ [c]), st))"
| "scan_step (MNum n s, st) c = map_option (\<lambda>n'. (MNum n' (s @ [c]), st)) (num_step n c)"
| "scan_step (MLit r v, st) c = (case r of
       [] \<Rightarrow> None
     | x # xs \<Rightarrow> if c \<noteq> x then None else if xs = [] then Some (complete v st) else Some (MLit xs v, st))"
| "scan_step (MEnd, st) c = end_value c st"
| "scan_step (MDone v, st) c = None"

text \<open>
  A number ends before the first byte that cannot continue it. A top-level array or object ends
  with its closing bracket; any other top-level value ends when the byte after it is read.
\<close>

definition settle :: "scan_state \<Rightarrow> char \<Rightarrow> scan_state" where
  "settle s c = (case s of
       (MNum n t, st) \<Rightarrow> if num_step n c = None \<and> num_done n then complete (JNum t) st else s
     | _ \<Rightarrow> s)"

definition is_container :: "json \<Rightarrow> bool" where
  "is_container v = (case v of JArr _ \<Rightarrow> True | JObj _ \<Rightarrow> True | _ \<Rightarrow> False)"

datatype scan = Done json string | AtEnd json | Incomplete | Malformed

fun scan_value :: "scan_state \<Rightarrow> string \<Rightarrow> scan" where
  "scan_value s [] = (case s of
       (MDone v, st) \<Rightarrow> AtEnd v
     | (MNum n t, []) \<Rightarrow> if num_done n then AtEnd (JNum t) else Incomplete
     | _ \<Rightarrow> Incomplete)"
| "scan_value s (c # cs) = (case settle s c of
       (MDone v, st) \<Rightarrow> Done v (c # cs)
     | s' \<Rightarrow> (case scan_step s' c of
           None \<Rightarrow> Malformed
         | Some (MDone v, st) \<Rightarrow> if is_container v then Done v cs else scan_value (MDone v, st) cs
         | Some s'' \<Rightarrow> scan_value s'' cs))"

definition scan_json :: "string \<Rightarrow> scan" where
  "scan_json = scan_value (MValue, [])"


section \<open>Decoding into a struct of strings\<close>

datatype json_error = UnexpectedEnd | InvalidCharacter | WrongType string string | UnknownField string

fun json_error_text :: "json_error \<Rightarrow> string" where
  "json_error_text UnexpectedEnd = ''unexpected end of JSON input''"
| "json_error_text InvalidCharacter = ''invalid character''"
| "json_error_text (WrongType kind f) = ''json: cannot unmarshal '' @ kind @ '' into Go value of type '' @ f"
| "json_error_text (UnknownField k) = ''json: unknown field '' @ k"

lemma json_error_text_nonempty [simp]: "json_error_text e \<noteq> ''''"
  by (cases e) simp_all

definition json_err :: "json_error \<Rightarrow> err" where
  "json_err e = ErrExternal (json_error_text e)"

text \<open>\<^verbatim>\<open>foldName\<close>: keys match a field without regard to case. The only letters outside ASCII that
  fold to an ASCII letter are the Kelvin sign and the long s.\<close>

fun fold_name :: "string \<Rightarrow> string" where
  "fold_name (a # b # c # s) =
     (if [a, b, c] = [CHR 0xE2, CHR 0x84, CHR 0xAA] then CHR ''K'' # fold_name s
      else if [a, b] = [CHR 0xC5, CHR 0xBF] then CHR ''S'' # fold_name (c # s)
      else (if 97 \<le> byte a \<and> byte a \<le> 122 then char_of (byte a - 32) else a) # fold_name (b # c # s))"
| "fold_name (a # b # s) =
     (if [a, b] = [CHR 0xC5, CHR 0xBF] then CHR ''S'' # fold_name s
      else (if 97 \<le> byte a \<and> byte a \<le> 122 then char_of (byte a - 32) else a) # fold_name (b # s))"
| "fold_name (a # s) = (if 97 \<le> byte a \<and> byte a \<le> 122 then char_of (byte a - 32) else a) # fold_name s"
| "fold_name [] = []"

definition find_field :: "string list \<Rightarrow> string \<Rightarrow> string option" where
  "find_field fs k = (if k \<in> set fs then Some k else find (\<lambda>f. fold_name f = fold_name k) fs)"

definition kind_of :: "json \<Rightarrow> string" where
  "kind_of v = (case v of JNull \<Rightarrow> ''null'' | JBool _ \<Rightarrow> ''bool'' | JNum _ \<Rightarrow> ''number''
     | JStr _ \<Rightarrow> ''string'' | JArr _ \<Rightarrow> ''array'' | JObj _ \<Rightarrow> ''object'')"

text \<open>The struct is the value of each field; \<^verbatim>\<open>saveError\<close> keeps the first error and goes on.\<close>

type_synonym fields = "string \<Rightarrow> string"

definition save_error :: "json_error option \<Rightarrow> json_error \<Rightarrow> json_error option" where
  "save_error e e' = (case e of None \<Rightarrow> Some e' | Some _ \<Rightarrow> e)"

fun decode_members :: "bool \<Rightarrow> string list \<Rightarrow> (string \<times> json) list \<Rightarrow> fields \<times> json_error option \<Rightarrow> fields \<times> json_error option" where
  "decode_members strict fs [] r = r"
| "decode_members strict fs ((k, v) # ms) (f, e) = decode_members strict fs ms
     (case find_field fs k of
        None \<Rightarrow> (f, if strict then save_error e (UnknownField k) else e)
      | Some n \<Rightarrow> (case v of
            JStr x \<Rightarrow> (f(n := x), e)
          | JNull \<Rightarrow> (f, e)
          | _ \<Rightarrow> (f, save_error e (WrongType (kind_of v) ''string''))))"

definition decode_struct :: "bool \<Rightarrow> string list \<Rightarrow> json \<Rightarrow> fields \<times> json_error option" where
  "decode_struct strict fs v = (case v of
       JObj ms \<Rightarrow> decode_members strict fs ms ((\<lambda>_. ''''), None)
     | JNull \<Rightarrow> ((\<lambda>_. ''''), None)
     | _ \<Rightarrow> ((\<lambda>_. ''''), Some (WrongType (kind_of v) ''struct'')))"

text \<open>\<^verbatim>\<open>json.Unmarshal\<close> of a whole byte sequence.\<close>

definition unmarshal :: "string list \<Rightarrow> string \<Rightarrow> json_error + fields" where
  "unmarshal fs data =
     (let decode = (\<lambda>v. case decode_struct False fs v of (f, None) \<Rightarrow> Inr f | (f, Some e) \<Rightarrow> Inl e)
      in case scan_json data of
           Malformed \<Rightarrow> Inl InvalidCharacter
         | Incomplete \<Rightarrow> Inl UnexpectedEnd
         | AtEnd v \<Rightarrow> decode v
         | Done v rest \<Rightarrow> if list_all is_json_space rest then decode v else Inl InvalidCharacter)"

text \<open>\<^verbatim>\<open>json.Marshal\<close> of a struct of strings, in the order of its fields.\<close>

fun marshal_members :: "(string \<times> string) list \<Rightarrow> string" where
  "marshal_members [] = []"
| "marshal_members [(k, v)] = quote_char # k @ quote_char # CHR '':'' # quote_char # quote v @ [quote_char]"
| "marshal_members ((k, v) # ms) =
     quote_char # k @ quote_char # CHR '':'' # quote_char # quote v @ quote_char # CHR '','' # marshal_members ms"

definition marshal :: "(string \<times> string) list \<Rightarrow> string" where
  "marshal ms = CHR ''{'' # marshal_members ms @ ''}''"



section \<open>Round trip of strings\<close>

lemma hex_digit_char [simp]: "n < 16 \<Longrightarrow> hex_digit (hex_char n) = Some n"
  by (auto simp: hex_digit_def hex_char_def)

lemma char_of_bytes [simp]:
  "char_of (226::nat) = CHR 0xE2" "char_of (128::nat) = CHR 0x80" "char_of (168::nat) = CHR 0xA8"
  "char_of (169::nat) = CHR 0xA9" "char_of (56::nat) = CHR ''8''" "char_of (57::nat) = CHR ''9''"
  by code_simp+

lemma quote_multi:
  assumes "is_rune (a # cs)" "194 \<le> byte a"
  shows "quote (a # cs @ s) = (if a # cs \<in> set line_separators
     then backslash # ''u202'' @ [hex_char (byte ((a # cs) ! 2) mod 16)] else a # cs) @ quote s"
  using assms rune_len_append [OF assms(1), of s]
  by (simp add: quote.simps(2) [of a "cs @ s"] Let_def)

lemma quote_rune_append:
  assumes "is_rune r"
  shows "quote (r @ s) = quote r @ quote s"
  using assms
proof (cases rule: is_rune_cases)
  case (ascii c)
  then show ?thesis by (simp add: quote.simps(2))
next
  case (multi a cs)
  with assms quote_multi [of a cs s] quote_multi [of a cs "[]"] show ?thesis by simp
qed

lemma unquote_rune:
  assumes "is_rune r" "r \<noteq> [backslash]"
  shows "unquote (r @ t) = r @ unquote t"
proof -
  obtain c cs where r: "r = c # cs" using assms(1) by (cases r) (auto simp: is_rune_def)
  have "c \<noteq> backslash"
    using assms r by (cases rule: is_rune_cases) auto
  then show ?thesis
    using assms(1) r rune_len_append [OF assms(1), of t]
    by (simp add: unquote.simps(2) is_rune_def)
qed

lemma unquote_quote_ascii:
  assumes "byte c < 128"
  shows "unquote (quote_ascii c @ t) = c # unquote t"
proof -
  have esc: "unquote (backslash # CHR ''u'' # CHR ''0'' # CHR ''0'' #
      hex_char (byte c div 16) # hex_char (byte c mod 16) # t) = c # unquote t"
  proof -
    have "byte c div 16 < 16" "byte c mod 16 < 16" "16 * (byte c div 16) + byte c mod 16 = byte c"
      using assms by auto
    then have "getu4 (CHR ''0'' # CHR ''0'' # hex_char (byte c div 16) # hex_char (byte c mod 16) # t) = Some (byte c, t)"
      by (simp add: hex_digit_def [of "CHR ''0''"])
    then show ?thesis
      using assms by (simp add: unquote.simps(2) [of backslash] surrogate_def encode_rune_def)
  qed
  have plain: "unquote (c # t) = c # unquote t" if "c \<noteq> backslash"
    using unquote_rune [OF is_rune_ascii [OF assms], of t] that by simp
  show ?thesis
    using esc plain
    by (auto simp: quote_ascii_def unquote.simps(2) [of backslash] escaped_def simple_escapes_def)
qed

lemma unquote_quote_rune:
  assumes "is_rune r"
  shows "unquote (quote r @ t) = r @ unquote t"
  using assms
proof (cases rule: is_rune_cases)
  case (ascii c)
  then show ?thesis using unquote_quote_ascii by (simp add: quote.simps(2))
next
  case (multi a cs)
  have q: "quote r = (if r \<in> set line_separators
     then backslash # ''u202'' @ [hex_char (byte (r ! 2) mod 16)] else r)"
    using assms multi quote_multi [of a cs "[]"] by simp
  show ?thesis
  proof (cases "r \<in> set line_separators")
    case True
    then have "r = [CHR 0xE2, CHR 0x80, CHR 0xA8] \<or> r = [CHR 0xE2, CHR 0x80, CHR 0xA9]"
      by (simp add: line_separators_def)
    then show ?thesis
      using q True by (auto simp: unquote.simps(2) [of backslash] hex_char_def hex_digit_def surrogate_def encode_rune_def)
  next
    case False
    then show ?thesis using q multi unquote_rune [OF assms] by auto
  qed
qed

lemma unquote_quote: "valid_utf8 s \<Longrightarrow> unquote (quote s) = s"
  by (induction rule: valid_utf8.induct) (simp_all add: quote_rune_append unquote_quote_rune)

text \<open>A decoded string is well-formed UTF-8, whatever bytes were scanned.\<close>

lemma valid_utf8_Cons: "byte c < 128 \<Longrightarrow> valid_utf8 s \<Longrightarrow> valid_utf8 (c # s)"
  using valid_utf8.rune [OF is_rune_ascii] by simp

lemma escaped_ascii: "e \<in> simple_escapes \<Longrightarrow> byte (escaped e) < 128"
  unfolding simple_escapes_def by (elim insertE emptyE; simp add: escaped_def)

lemma surrogate_pair_rune:
  assumes "surrogate n" "n < 0xDC00" "0xDC00 \<le> m" "m < 0xE000"
  shows "is_rune (encode_rune ((n - 0xD800) * 1024 + (m - 0xDC00) + 0x10000))"
proof (rule is_rune_encode)
  have n: "n - 0xD800 \<le> 1023" and m: "m - 0xDC00 \<le> 1023" using assms by linarith+
  then have "(n - 0xD800) * 1024 \<le> 1023 * 1024" by (intro mult_le_mono) simp_all
  with m show "(n - 0xD800) * 1024 + (m - 0xDC00) + 0x10000 < 0x110000" by linarith
  show "\<not> surrogate ((n - 0xD800) * 1024 + (m - 0xDC00) + 0x10000)" by (simp add: surrogate_def)
qed

lemma valid_utf8_unquote: "valid_utf8 (unquote s)"
proof (induction s rule: length_induct)
  case (1 s)
  then have IH: "valid_utf8 (unquote t)" if "length t < length s" for t using that by blast
  note empty = valid_utf8.empty and error = valid_utf8.rune [OF is_rune_RuneError]
  show ?case
  proof (cases s)
    case (Cons c s1)
    note eq = unquote.simps(2) [of c s1]
    show ?thesis
    proof (cases "c = backslash")
      case False
      let ?k = "rune_len (c # s1)"
      have "unquote s = (if ?k = 0 then RuneError @ unquote s1 else take ?k s @ unquote (drop ?k s))"
        using False Cons eq by simp
      moreover have "valid_utf8 (take ?k s @ unquote (drop ?k s))" if "?k \<noteq> 0"
        using that Cons by (intro valid_utf8.rune IH) (auto intro!: is_rune_take)
      moreover have "valid_utf8 (RuneError @ unquote s1)"
        using Cons by (intro error IH) simp
      ultimately show ?thesis by simp
    next
      case bs: True
      show ?thesis
      proof (cases s1)
        case Nil
        then show ?thesis using Cons bs eq empty by simp
      next
        case (Cons e t)
        show ?thesis
        proof (cases "e = CHR ''u''")
          case False
          have "valid_utf8 (escaped e # unquote t)" if "e \<in> simple_escapes"
            using that \<open>s = c # s1\<close> Cons by (intro valid_utf8_Cons escaped_ascii IH) simp_all
          then show ?thesis using False \<open>s = c # s1\<close> Cons bs eq empty by simp
        next
          case u: True
          show ?thesis
          proof (cases "getu4 t")
            case None
            then show ?thesis using u \<open>s = c # s1\<close> Cons bs eq empty by simp
          next
            case (Some p)
            obtain n t1 where p: "p = (n, t1)" by (cases p)
            have t1: "length t1 < length s"
              using getu4_length [of t n t1] Some p \<open>s = c # s1\<close> Cons by simp
            show ?thesis
            proof (cases "surrogate n")
              case False
              have "valid_utf8 (encode_rune n @ unquote t1)"
                using getu4_range [of t n t1] Some p False
                by (intro valid_utf8.rune is_rune_encode IH t1) simp_all
              then show ?thesis using u \<open>s = c # s1\<close> Cons bs eq p Some False by simp
            next
              case sur: True
              have alone: "valid_utf8 (RuneError @ unquote t1)" by (intro error IH t1)
              have pair: "valid_utf8 (encode_rune ((n - 0xD800) * 1024 + (m - 0xDC00) + 0x10000) @ unquote t3)"
                if "t1 = b # u # t2" "getu4 t2 = Some (m, t3)" "n < 0xDC00" "0xDC00 \<le> m" "m < 0xE000" for b u t2 m t3
                using that getu4_length [of t2 m t3] t1
                by (intro valid_utf8.rune surrogate_pair_rune [OF sur] IH) simp_all
              show ?thesis
                using u \<open>s = c # s1\<close> Cons bs eq p Some sur alone pair
                by (auto split: list.split option.split)
            qed
          qed
        qed
      qed
    qed
  qed (simp add: valid_utf8.empty)
qed



section \<open>Round trip of structs\<close>

definition plain :: "string \<Rightarrow> bool" where
  "plain s \<longleftrightarrow> list_all (\<lambda>c. 32 \<le> byte c \<and> byte c < 128 \<and> c \<noteq> quote_char \<and> c \<noteq> backslash) s"

lemma scan_char:
  "32 \<le> byte c \<Longrightarrow> c \<noteq> quote_char \<Longrightarrow> c \<noteq> backslash \<Longrightarrow>
    scan_value (MStr raw, st) (c # cs) = scan_value (MStr (raw @ [c]), st) cs"
  by (simp add: settle_def not_less)

lemma scan_chars:
  "list_all (\<lambda>c. 32 \<le> byte c \<and> c \<noteq> quote_char \<and> c \<noteq> backslash) xs \<Longrightarrow>
    scan_value (MStr raw, st) (xs @ cs) = scan_value (MStr (raw @ xs), st) cs"
proof (induction xs arbitrary: raw)
  case (Cons x xs)
  then show ?case using scan_char [of x raw st "xs @ cs"] by simp
qed simp

lemma scan_escape:
  "e \<in> {CHR ''b'', CHR ''f'', CHR ''n'', CHR ''r'', CHR ''t'', backslash, CHR ''/'', quote_char} \<Longrightarrow>
    scan_value (MStr raw, st) (backslash # e # cs) = scan_value (MStr (raw @ [backslash, e]), st) cs"
  by (auto simp: settle_def)

lemma scan_unicode:
  "hex_digit a \<noteq> None \<Longrightarrow> hex_digit b \<noteq> None \<Longrightarrow> hex_digit c \<noteq> None \<Longrightarrow> hex_digit d \<noteq> None \<Longrightarrow>
    scan_value (MStr raw, st) (backslash # CHR ''u'' # a # b # c # d # cs) =
    scan_value (MStr (raw @ [backslash, CHR ''u'', a, b, c, d]), st) cs"
  by (elim not_None_eq [THEN iffD1, THEN exE]) (simp add: settle_def)

lemma scan_quote_rune:
  assumes "is_rune r"
  shows "scan_value (MStr raw, st) (quote r @ cs) = scan_value (MStr (raw @ quote r), st) cs"
  using assms
proof (cases rule: is_rune_cases)
  case (ascii c)
  have lo: "byte c div 16 < 16" "byte c mod 16 < 16" using ascii by auto
  then have "hex_digit (hex_char (byte c div 16)) \<noteq> None" "hex_digit (hex_char (byte c mod 16)) \<noteq> None"
    "hex_digit (CHR ''0'') \<noteq> None"
    by (simp_all add: hex_digit_def [of "CHR ''0''"])
  with ascii show ?thesis
    by (simp add: quote.simps(2) quote_ascii_def scan_escape scan_unicode scan_char not_less
        del: scan_value.simps)
next
  case (multi a cs')
  have q: "quote r = (if r \<in> set line_separators
     then backslash # ''u202'' @ [hex_char (byte (r ! 2) mod 16)] else r)"
    using assms multi quote_multi [of a cs' "[]"] by simp
  have "list_all (\<lambda>c. 32 \<le> byte c \<and> c \<noteq> quote_char \<and> c \<noteq> backslash) r"
    using multi by (auto simp: list_all_iff is_cont_def)
  moreover have "hex_digit (hex_char (byte (r ! 2) mod 16)) \<noteq> None" "hex_digit (CHR ''0'') \<noteq> None"
    "hex_digit (CHR ''2'') \<noteq> None"
    by (simp_all add: hex_digit_def [of "CHR ''0''"] hex_digit_def [of "CHR ''2''"])
  ultimately show ?thesis
    by (simp add: q scan_chars scan_unicode del: scan_value.simps)
qed

lemma scan_quote:
  "valid_utf8 s \<Longrightarrow> scan_value (MStr raw, st) (quote s @ cs) = scan_value (MStr (raw @ quote s), st) cs"
  by (induction arbitrary: raw rule: valid_utf8.induct)
     (simp_all add: quote_rune_append scan_quote_rune del: scan_value.simps)

lemma unquote_plain: "plain s \<Longrightarrow> unquote s = s"
proof (induction s)
  case (Cons c s)
  then show ?case using unquote_rune [OF is_rune_ascii, of c s] by (simp add: plain_def)
qed simp

lemma scan_member:
  assumes "plain k" "valid_utf8 v" "m \<in> {MKey, MKeyOrEnd}"
  shows "scan_value (m, FObj acc None # st)
      (quote_char # k @ quote_char # CHR '':'' # quote_char # quote v @ quote_char # cs) =
    scan_value (MEnd, FObj (acc @ [(k, JStr v)]) None # st) cs"
proof -
  have start: "scan_value (m, FObj acc None # st) (quote_char # xs) = scan_value (MStr [], FObj acc None # st) xs" for xs
    using assms(3) by (auto simp: settle_def begin_key_def is_json_space_def)
  have key: "scan_value (MStr [], FObj acc None # st) (k @ quote_char # CHR '':'' # quote_char # xs) =
      scan_value (MStr [], FObj acc (Some k) # st) xs" for xs
    using assms(1) scan_chars [of k "[]" "FObj acc None # st"]
    by (simp add: plain_def list_all_iff settle_def unquote_plain [OF assms(1)] begin_value_def is_json_space_def
        del: scan_value.simps(1))
  have val: "scan_value (MStr [], FObj acc (Some k) # st) (quote v @ quote_char # cs) =
      scan_value (MEnd, FObj (acc @ [(k, JStr v)]) None # st) cs"
    using scan_quote [OF assms(2), of "[]" "FObj acc (Some k) # st" "quote_char # cs"]
    by (simp add: settle_def unquote_quote [OF assms(2)])
  show ?thesis by (simp add: start key val del: scan_value.simps)
qed

lemma scan_members:
  assumes "ms \<noteq> []" "list_all (\<lambda>(k, v). plain k \<and> valid_utf8 v) ms" "m \<in> {MKey, MKeyOrEnd}"
  shows "scan_value (m, [FObj acc None]) (marshal_members ms @ ''}'') =
    Done (JObj (acc @ map (\<lambda>(k, v). (k, JStr v)) ms)) []"
  using assms
proof (induction ms arbitrary: m acc rule: marshal_members.induct)
  case (2 k v)
  have stop: "scan_value (MEnd, [FObj (acc @ [(k, JStr v)]) None]) ''}'' = Done (JObj (acc @ [(k, JStr v)])) []"
    by (simp add: settle_def end_value_def is_json_space_def is_container_def)
  show ?case using 2(2,3) scan_member [of k v m acc "[]" "''}''"] stop by (simp del: scan_value.simps)
next
  case (3 k v p ms)
  have comma: "scan_value (MEnd, [FObj (acc @ [(k, JStr v)]) None]) (CHR '','' # xs) =
      scan_value (MKey, [FObj (acc @ [(k, JStr v)]) None]) xs" for xs
    by (simp add: settle_def end_value_def is_json_space_def)
  show ?case
    using 3(1) [of MKey "acc @ [(k, JStr v)]"] 3(3,4)
      scan_member [of k v m acc "[]" "CHR '','' # marshal_members (p # ms) @ ''}''"] comma
    by (simp del: scan_value.simps)
qed simp

lemma scan_marshal:
  assumes "ms \<noteq> []" "list_all (\<lambda>(k, v). plain k \<and> valid_utf8 v) ms"
  shows "scan_json (marshal ms) = Done (JObj (map (\<lambda>(k, v). (k, JStr v)) ms)) []"
proof -
  have "scan_value (MValue, []) (CHR ''{'' # xs) = scan_value (MKeyOrEnd, [FObj [] None]) xs" for xs
    by (simp add: settle_def begin_value_def is_json_space_def push_def maxNestingDepth_def)
  then show ?thesis
    using scan_members [OF assms, of MKeyOrEnd "[]"] by (simp add: scan_json_def marshal_def del: scan_value.simps)
qed

lemma decode_members_strings:
  assumes "distinct (map fst ms)" "fst ` set ms \<subseteq> set fs"
  shows "decode_members strict fs (map (\<lambda>(k, v). (k, JStr v)) ms) (f, e) =
    ((\<lambda>k. case map_of ms k of Some v \<Rightarrow> v | None \<Rightarrow> f k), e)"
  using assms
proof (induction ms arbitrary: f)
  case (Cons m ms)
  obtain k v where m: "m = (k, v)" by (cases m)
  with Cons.prems have "map_of ms k = None" by (simp add: map_of_eq_None_iff)
  with Cons m show ?case by (auto simp: find_field_def fun_eq_iff split: option.split)
qed simp

lemma unmarshal_marshal:
  assumes "ms \<noteq> []" "list_all (\<lambda>(k, v). plain k \<and> valid_utf8 v) ms"
    "distinct (map fst ms)" "fst ` set ms \<subseteq> set fs"
  shows "unmarshal fs (marshal ms) = Inr (\<lambda>k. case map_of ms k of Some v \<Rightarrow> v | None \<Rightarrow> '''')"
  using decode_members_strings [OF assms(3,4)]
  by (simp add: unmarshal_def scan_marshal [OF assms(1,2)] decode_struct_def)



section \<open>What is decoded is well-formed UTF-8\<close>

text \<open>The strings that are a scanned value or a member of a scanned object.\<close>

definition members_utf8 :: "(string \<times> json) list \<Rightarrow> bool" where
  "members_utf8 ms \<longleftrightarrow> (\<forall>k x. (k, JStr x) \<in> set ms \<longrightarrow> valid_utf8 x)"

fun value_utf8 :: "json \<Rightarrow> bool" where
  "value_utf8 (JStr x) = valid_utf8 x"
| "value_utf8 (JObj ms) = members_utf8 ms"
| "value_utf8 _ = True"

fun frame_utf8 :: "frame \<Rightarrow> bool" where
  "frame_utf8 (FObj ms k) = members_utf8 ms"
| "frame_utf8 (FArr vs) = True"

fun mode_utf8 :: "mode \<Rightarrow> bool" where
  "mode_utf8 (MDone v) = value_utf8 v"
| "mode_utf8 (MLit r v) = value_utf8 v"
| "mode_utf8 _ = True"

definition state_utf8 :: "scan_state \<Rightarrow> bool" where
  "state_utf8 s \<longleftrightarrow> mode_utf8 (fst s) \<and> list_all frame_utf8 (snd s)"

lemma state_utf8_complete: "value_utf8 v \<Longrightarrow> list_all frame_utf8 st \<Longrightarrow> state_utf8 (complete v st)"
  by (induction v st rule: complete.induct)
     (auto simp: state_utf8_def members_utf8_def split: json.split)

lemma state_utf8_step: "state_utf8 s \<Longrightarrow> scan_step s c = Some s' \<Longrightarrow> state_utf8 s'"
proof (induction s c rule: scan_step.induct)
  case (6 raw st c)
  then show ?case
    using state_utf8_complete [of "JStr (unquote raw)" st] valid_utf8_unquote [of raw]
    by (auto simp: state_utf8_def split: if_splits)
next
  case (10 r v st c)
  then show ?case
    using state_utf8_complete [of v st] by (auto simp: state_utf8_def split: if_splits list.splits)
qed (auto simp: state_utf8_def begin_value_def begin_key_def end_value_def push_def members_utf8_def
      intro!: state_utf8_complete [unfolded state_utf8_def]
      split: if_splits list.splits frame.splits)

lemma state_utf8_settle: "state_utf8 s \<Longrightarrow> state_utf8 (settle s c)"
  using state_utf8_complete
  by (auto simp: settle_def state_utf8_def split: prod.splits mode.splits)

lemma scan_value_Cons:
  "scan_value s (c # cs) = (case settle s c of (m, st) \<Rightarrow>
     (case m of MDone v \<Rightarrow> Done v (c # cs) | _ \<Rightarrow>
       (case scan_step (m, st) c of
          None \<Rightarrow> Malformed
        | Some (m', st') \<Rightarrow> (case m' of
              MDone v \<Rightarrow> if is_container v then Done v cs else scan_value (m', st') cs
            | _ \<Rightarrow> scan_value (m', st') cs))))"
proof -
  obtain m st where m: "settle s c = (m, st)" by (cases "settle s c")
  show ?thesis
  proof (cases "scan_step (m, st) c")
    case None
    then show ?thesis by (cases m) (simp_all add: m del: scan_step.simps)
  next
    case (Some q)
    obtain m2 st2 where q: "q = (m2, st2)" by (cases q)
    have "(case scan_step (m, st) c of
           None \<Rightarrow> Malformed
         | Some (MDone v, st) \<Rightarrow> if is_container v then Done v cs else scan_value (MDone v, st) cs
         | Some s'' \<Rightarrow> scan_value s'' cs) =
      (case m2 of
              MDone v \<Rightarrow> if is_container v then Done v cs else scan_value (m2, st2) cs
            | _ \<Rightarrow> scan_value (m2, st2) cs)"
      unfolding Some q by (cases m2) simp_all
    then show ?thesis using Some q by (cases m) (simp_all add: m del: scan_step.simps)
  qed
qed
lemma scan_value_utf8:
  assumes "state_utf8 s" "scan_value s cs \<in> {Done v rest, AtEnd v}"
  shows "value_utf8 v"
  using assms
proof (induction cs arbitrary: s)
  case Nil
  then show ?case by (auto simp: state_utf8_def split: prod.splits mode.splits list.splits if_splits)
next
  case (Cons c cs)
  have s': "state_utf8 (settle s c)" by (rule state_utf8_settle [OF Cons.prems(1)])
  obtain m st where m: "settle s c = (m, st)" by (cases "settle s c")
  note eq = scan_value_Cons [of s c cs, unfolded m prod.case]
  show ?case
  proof (cases "\<exists>u. m = MDone u")
    case True
    then show ?thesis using Cons.prems(2) eq s' m by (auto simp: state_utf8_def)
  next
    case nd: False
    show ?thesis
    proof (cases "scan_step (m, st) c")
      case None
      then show ?thesis using Cons.prems(2) eq nd by (auto split: mode.splits)
    next
      case (Some q)
      obtain m2 st2 where q: "q = (m2, st2)" by (cases q)
      have q': "state_utf8 (m2, st2)" using state_utf8_step [of "(m, st)" c q] s' m Some q by simp
      have "scan_value s (c # cs) = (case m2 of
              MDone v \<Rightarrow> if is_container v then Done v cs else scan_value (m2, st2) cs
            | _ \<Rightarrow> scan_value (m2, st2) cs)"
        using eq nd Some q by (cases m) auto
      then have "scan_value s (c # cs) = scan_value (m2, st2) cs \<or> (\<exists>u. m2 = MDone u \<and> scan_value s (c # cs) = Done u cs)"
        by (cases m2) auto
      then show ?thesis
        using Cons.IH [OF q'] Cons.prems(2) q' by (auto simp: state_utf8_def)
    qed
  qed
qed

lemma decode_struct_utf8:
  assumes "value_utf8 v" "decode_struct strict fs v = (f, None)"
  shows "valid_utf8 (f k)"
proof -
  have members: "valid_utf8 (fst (decode_members strict fs ms (f, e)) k)"
    if "members_utf8 ms" "\<forall>k. valid_utf8 (f k)" for ms f e
    using that
  proof (induction ms arbitrary: f e)
    case (Cons m ms)
    obtain n u where m: "m = (n, u)" by (cases m)
    have ms: "members_utf8 ms" using Cons.prems(1) by (auto simp: members_utf8_def)
    have "u = JStr x \<Longrightarrow> valid_utf8 x" for x using Cons.prems(1) m by (auto simp: members_utf8_def)
    with Cons.IH [OF ms] Cons.prems(2) m show ?case
      by (auto split: option.split json.split)
  qed simp
  show ?thesis
    using assms members [of _ "\<lambda>_. []" None]
    by (cases v) (auto simp: decode_struct_def valid_utf8.empty, metis fst_conv)
qed


lemma scan_json_utf8: "scan_json cs \<in> {Done v rest, AtEnd v} \<Longrightarrow> value_utf8 v"
  by (rule scan_value_utf8 [of "(MValue, [])" cs v rest]) (simp_all add: state_utf8_def scan_json_def)

lemma unmarshal_utf8:
  assumes "unmarshal fs data = Inr f"
  shows "valid_utf8 (f k)"
proof -
  obtain v rest where v: "scan_json data \<in> {Done v rest, AtEnd v}" "decode_struct False fs v = (f, None)"
    using assms by (auto simp: unmarshal_def split: scan.splits prod.splits option.splits if_splits)
  show ?thesis by (rule decode_struct_utf8 [OF scan_json_utf8 [OF v(1)] v(2)])
qed

end
