(* ===== verification/Queue_Client.thy ===== *)
theory Queue_Client
  imports Mem_Media Go_Json
begin

text \<open>
  \<^verbatim>\<open>internal/queue/queue.go\<close>: the RabbitMQ client. The AMQP library is the record \<open>amqp\<close> of the
  calls the client makes; a connection and a channel are handles. The client is a record that the
  methods return updated. Its mutex makes the methods atomic, so a method is one program and
  concurrent calls run one after the other.
\<close>

record 'w amqp =
  am_dial :: "string \<Rightarrow> 'w \<Rightarrow> (err + handle) \<times> 'w"
  am_channel :: "handle \<Rightarrow> 'w \<Rightarrow> (err + handle) \<times> 'w"
  am_qos :: "handle \<Rightarrow> int \<Rightarrow> 'w \<Rightarrow> err option \<times> 'w"
  am_close_channel :: "handle \<Rightarrow> 'w \<Rightarrow> err option \<times> 'w"
  am_close_conn :: "handle \<Rightarrow> 'w \<Rightarrow> err option \<times> 'w"
  am_conn_closed :: "handle \<Rightarrow> 'w \<Rightarrow> bool"
  am_chan_closed :: "handle \<Rightarrow> 'w \<Rightarrow> bool"
  am_exchange_declare :: "handle \<Rightarrow> string \<Rightarrow> 'w \<Rightarrow> err option \<times> 'w"
  am_queue_declare :: "handle \<Rightarrow> string \<Rightarrow> string option \<Rightarrow> 'w \<Rightarrow> (err + string) \<times> 'w"
  am_queue_bind :: "handle \<Rightarrow> string \<Rightarrow> string \<Rightarrow> 'w \<Rightarrow> err option \<times> 'w"
  am_publish :: "handle \<Rightarrow> ctx \<Rightarrow> string \<Rightarrow> string \<Rightarrow> 'w \<Rightarrow> err option \<times> 'w"
  am_consume :: "handle \<Rightarrow> string \<Rightarrow> string \<Rightarrow> bool \<Rightarrow> 'w \<Rightarrow> (err + handle) \<times> 'w"
  am_ack :: "handle \<Rightarrow> bool \<Rightarrow> 'w \<Rightarrow> err option \<times> 'w"
  am_nack :: "handle \<Rightarrow> bool \<Rightarrow> bool \<Rightarrow> 'w \<Rightarrow> err option \<times> 'w"

record client =
  qc_URL :: string
  qc_QueueName :: string
  qc_Prefetch :: int
  qc_Connection :: "handle option"
  qc_Channel :: "handle option"

definition NewClient :: client where
  "NewClient = \<lparr>qc_URL = '''', qc_QueueName = '''', qc_Prefetch = 0, qc_Connection = None, qc_Channel = None\<rparr>"

definition NewClientFromEnv :: "environ \<Rightarrow> client res" where
  "NewClientFromEnv E =
     (if E ''RABBITMQ_QUEUE'' = '''' then Err (ErrText ''RABBITMQ_QUEUE is required'')
      else if E ''RABBITMQ_URL'' = '''' then Err (ErrText ''RABBITMQ_URL is required'')
      else Ok (NewClient\<lparr>qc_URL := E ''RABBITMQ_URL'', qc_QueueName := E ''RABBITMQ_QUEUE''\<rparr>))"


section \<open>Connections\<close>

definition close_channel :: "'w amqp \<Rightarrow> handle \<Rightarrow> ('w, err option) io" where
  "close_channel A h = perform (am_close_channel A h) (\<lambda>r. AMQP (EvCloseChannel h r))"

definition close_conn :: "'w amqp \<Rightarrow> handle \<Rightarrow> ('w, err option) io" where
  "close_conn A h = perform (am_close_conn A h) (\<lambda>r. AMQP (EvCloseConn h r))"

definition connectLocked :: "'w amqp \<Rightarrow> client \<Rightarrow> ('w, client \<times> unit res) io" where
  "connectLocked A c = do {
     r \<leftarrow> perform (am_dial A (qc_URL c)) (\<lambda>r. AMQP (EvDial (qc_URL c) r));
     case r of
       Inl e \<Rightarrow> ret (c, Err e)
     | Inr conn \<Rightarrow> do {
         r \<leftarrow> perform (am_channel A conn) (\<lambda>r. AMQP (EvOpenChannel conn r));
         case r of
           Inl e \<Rightarrow> do { _ \<leftarrow> close_conn A conn; ret (c, Err e) }
         | Inr ch \<Rightarrow> do {
             q \<leftarrow> (if qc_Prefetch c > 0
                  then perform (am_qos A ch (qc_Prefetch c)) (\<lambda>r. AMQP (EvQos ch (qc_Prefetch c) r))
                  else ret None);
             case q of
               Some e \<Rightarrow> do { _ \<leftarrow> close_channel A ch; _ \<leftarrow> close_conn A conn; ret (c, Err e) }
             | None \<Rightarrow> ret (c\<lparr>qc_Connection := Some conn, qc_Channel := Some ch\<rparr>, Ok ())
           }
       }
   }"

definition closeLocked :: "'w amqp \<Rightarrow> client \<Rightarrow> ('w, client \<times> unit res) io" where
  "closeLocked A c = do {
     e1 \<leftarrow> (case qc_Channel c of Some h \<Rightarrow> close_channel A h | None \<Rightarrow> ret None);
     e2 \<leftarrow> (case qc_Connection c of Some h \<Rightarrow> close_conn A h | None \<Rightarrow> ret None);
     ret (c\<lparr>qc_Channel := None, qc_Connection := None\<rparr>,
          res_of_option (case e1 of Some e \<Rightarrow> Some e | None \<Rightarrow> e2))
   }"

definition readyLocked :: "'w amqp \<Rightarrow> client \<Rightarrow> ('w, bool) io" where
  "readyLocked A c = do {
     w \<leftarrow> State_Monad.get;
     ret (case (qc_Connection c, qc_Channel c) of
            (Some k, Some h) \<Rightarrow> \<not> am_conn_closed A k (ext w) \<and> \<not> am_chan_closed A h (ext w)
          | _ \<Rightarrow> False)
   }"

definition reconnectLocked :: "'w amqp \<Rightarrow> client \<Rightarrow> ('w, client \<times> unit res) io" where
  "reconnectLocked A c = do { (c', _) \<leftarrow> closeLocked A c; connectLocked A c' }"

definition Connect :: "'w amqp \<Rightarrow> client \<Rightarrow> ('w, client \<times> unit res) io" where
  "Connect A c = connectLocked A c"

definition Reconnect :: "'w amqp \<Rightarrow> client \<Rightarrow> ('w, client \<times> unit res) io" where
  "Reconnect A c = do { (c', _) \<leftarrow> closeLocked A c; connectLocked A c' }"

definition IsReady :: "'w amqp \<Rightarrow> client \<Rightarrow> ('w, bool) io" where
  "IsReady A c = readyLocked A c"

definition EnsureReady :: "'w amqp \<Rightarrow> client \<Rightarrow> ('w, client \<times> unit res) io" where
  "EnsureReady A c = do {
     ready \<leftarrow> readyLocked A c;
     if ready then ret (c, Ok ())
     else do { (c', _) \<leftarrow> closeLocked A c; connectLocked A c' }
   }"

definition Close :: "'w amqp \<Rightarrow> client \<Rightarrow> ('w, client \<times> unit res) io" where
  "Close A c = closeLocked A c"


section \<open>Topology, publishing and consuming\<close>

definition queue_declare :: "'w amqp \<Rightarrow> handle \<Rightarrow> string \<Rightarrow> string option \<Rightarrow> ('w, string res) io" where
  "queue_declare A h q dlx = do {
     r \<leftarrow> perform (am_queue_declare A h q dlx)
           (\<lambda>r. AMQP (EvQueueDeclare h q dlx (case r of Inl e \<Rightarrow> Some e | Inr _ \<Rightarrow> None)));
     ret (res_of_sum r)
   }"

definition Declare :: "'w amqp \<Rightarrow> client \<Rightarrow> ('w, string res) io" where
  "Declare A c = (case qc_Channel c of
       None \<Rightarrow> ret (Err (ErrText ''rabbitmq channel is not initialized''))
     | Some h \<Rightarrow>
         let deadLetterExchange = qc_QueueName c @ ''.dlx'';
             deadLetterQueue = qc_QueueName c @ ''.dlq'' in
         attempt (wrap ''declare dead-letter exchange: '' (call_unit (am_exchange_declare A h deadLetterExchange)
           (\<lambda>r. AMQP (EvExchangeDeclare h deadLetterExchange r)))) (\<lambda>_.
         attempt (wrap ''declare dead-letter queue: '' (queue_declare A h deadLetterQueue None)) (\<lambda>_.
         attempt (wrap ''bind dead-letter queue: '' (call_unit (am_queue_bind A h deadLetterQueue deadLetterExchange)
           (\<lambda>r. AMQP (EvQueueBind h deadLetterQueue deadLetterExchange r)))) (\<lambda>_.
         queue_declare A h (qc_QueueName c) (Some deadLetterExchange)))))"

definition publishOnce :: "'w amqp \<Rightarrow> client \<Rightarrow> ctx \<Rightarrow> string \<Rightarrow> ('w, unit res) io" where
  "publishOnce A c x body = deref (qc_Channel c) (\<lambda>h.
     call_unit (am_publish A h x (qc_QueueName c) body) (\<lambda>r. AMQP (EvPublish h x (qc_QueueName c) body r)))"

text \<open>The part of \<^verbatim>\<open>Publish\<close> after the connection is known to be usable.\<close>

definition publish_retry :: "'w amqp \<Rightarrow> client \<Rightarrow> ctx \<Rightarrow> string \<Rightarrow> ('w, client \<times> unit res) io" where
  "publish_retry A c x body = do {
     r \<leftarrow> publishOnce A c x body;
     case r of
       Ok _ \<Rightarrow> ret (c, Ok ())
     | Panic \<Rightarrow> ret (c, Panic)
     | Err e \<Rightarrow> do {
         (c', r') \<leftarrow> reconnectLocked A c;
         case r' of
           Err e' \<Rightarrow> ret (c', Err (ErrWrap (''publish failed: '' @ err_text e @ ''; reconnect failed: '') e'))
         | Panic \<Rightarrow> ret (c', Panic)
         | Ok _ \<Rightarrow> do { r'' \<leftarrow> publishOnce A c' x body; ret (c', r'') }
       }
   }"

definition Publish :: "'w amqp \<Rightarrow> client \<Rightarrow> ctx \<Rightarrow> string \<Rightarrow> ('w, client \<times> unit res) io" where
  "Publish A c x body = do {
     ready \<leftarrow> readyLocked A c;
     if ready then publish_retry A c x body
     else do {
       (c', r) \<leftarrow> reconnectLocked A c;
       case r of
         Err e \<Rightarrow> ret (c', Err (ErrWrap ''publish: queue unavailable: '' e))
       | Panic \<Rightarrow> ret (c', Panic)
       | Ok _ \<Rightarrow> publish_retry A c' x body
     }
   }"

text \<open>The payloads of this program are structs of strings, whose encoding never fails.\<close>

definition PublishJSON :: "'w amqp \<Rightarrow> client \<Rightarrow> ctx \<Rightarrow> (string \<times> string) list \<Rightarrow> ('w, client \<times> unit res) io" where
  "PublishJSON A c x payload = Publish A c x (marshal payload)"

definition Consume :: "'w amqp \<Rightarrow> client \<Rightarrow> string \<Rightarrow> bool \<Rightarrow> ('w, handle res) io" where
  "Consume A c consumerName autoAck = (case qc_Channel c of
       None \<Rightarrow> ret (Err (ErrText ''rabbitmq channel is not initialized''))
     | Some h \<Rightarrow> do {
         r \<leftarrow> perform (am_consume A h (qc_QueueName c) consumerName autoAck)
               (\<lambda>r. AMQP (EvConsume h (qc_QueueName c) consumerName autoAck (case r of Inl e \<Rightarrow> Some e | Inr _ \<Rightarrow> None)));
         ret (res_of_sum r)
       })"



text \<open>The broker has no access to the part of the world that \<open>V\<close> reads; the tables of the database are
  the instance the program relies on. Then no method of the client changes it.\<close>

locale amqp_contract =
  fixes A :: "'w amqp" and V :: "'w \<Rightarrow> 'v"
  assumes conn_frame: "V (snd (am_dial A u x)) = V x" "V (snd (am_close_conn A h x)) = V x"
    and chan_frame: "V (snd (am_channel A h x)) = V x" "V (snd (am_close_channel A h x)) = V x"
      "V (snd (am_qos A h n x)) = V x"
    and topology_frame: "V (snd (am_exchange_declare A h q x)) = V x" "V (snd (am_queue_declare A h q d x)) = V x"
      "V (snd (am_queue_bind A h q q' x)) = V x"
    and message_frame: "V (snd (am_publish A h c q b x)) = V x" "V (snd (am_consume A h q q' g x)) = V x"
      "V (snd (am_ack A h m x)) = V x" "V (snd (am_nack A h m g x)) = V x"
begin

lemmas amqp_frame = conn_frame chan_frame topology_frame message_frame

lemma keeps_connectLocked: "keeps V (connectLocked A c)"
  unfolding connectLocked_def close_conn_def close_channel_def
  by (auto intro!: keep_rules amqp_frame)

lemma keeps_closeLocked: "keeps V (closeLocked A c)"
  unfolding closeLocked_def close_conn_def close_channel_def
  by (auto intro!: keep_rules amqp_frame)

lemma keeps_readyLocked: "keeps V (readyLocked A c)"
  unfolding readyLocked_def by (intro keep_rules)

lemma keeps_reconnectLocked: "keeps V (reconnectLocked A c)"
  unfolding reconnectLocked_def
  by (auto intro!: keep_rules keeps_connectLocked keeps_closeLocked)

lemma keeps_publishOnce: "keeps V (publishOnce A c x b)"
  unfolding publishOnce_def by (auto intro!: keep_rules amqp_frame)

lemma keeps_publish_retry: "keeps V (publish_retry A c x b)"
  unfolding publish_retry_def
  by (auto intro!: keep_rules keeps_publishOnce keeps_reconnectLocked)

lemma keeps_client:
  "keeps V (Connect A c)" "keeps V (Reconnect A c)" "keeps V (EnsureReady A c)" "keeps V (Close A c)"
  "keeps V (Declare A c)" "keeps V (Publish A c x b)" "keeps V (PublishJSON A c x ms)" "keeps V (Consume A c n g)"
  unfolding Connect_def Reconnect_def EnsureReady_def Close_def Declare_def queue_declare_def Publish_def
    PublishJSON_def Consume_def
  by (auto intro!: keep_rules amqp_frame keeps_connectLocked keeps_closeLocked keeps_readyLocked
      keeps_reconnectLocked keeps_publish_retry)

end


section \<open>A client behind a pointer\<close>

text \<open>The HTTP server and the readiness check share one client through a pointer: a cell of the world, read
  by \<open>get\<close> and written by \<open>put\<close>. \<open>via get put m\<close> is the call of the method \<open>m\<close> through it.\<close>

definition via :: "('w \<Rightarrow> client) \<Rightarrow> (client \<Rightarrow> 'w \<Rightarrow> 'w) \<Rightarrow> (client \<Rightarrow> ('w, client \<times> 'a) io) \<Rightarrow> ('w, 'a) io" where
  "via get put m = do {
     w \<leftarrow> State_Monad.get;
     (c, r) \<leftarrow> m (get (ext w));
     w' \<leftarrow> State_Monad.get;
     _ \<leftarrow> State_Monad.set (w'\<lparr>ext := put c (ext w')\<rparr>);
     ret r
   }"

lemma run_via [exec_simps]:
  "run_state (via get put m) w =
    (let p = m (get (ext w)); w' = post p w
     in (snd (val p w), w'\<lparr>ext := put (fst (val p w)) (ext w')\<rparr>))"
  by (simp add: via_def split_beta Let_def)

lemma emits_via [emit_rules]: "(\<And>c. emits P (m c)) \<Longrightarrow> emits P (via get put m)"
  by (rule emitsI) (simp add: exec_simps Let_def, metis emits_events emits_log)

lemma keeps_via: "(\<And>c. keeps V (m c)) \<Longrightarrow> (\<And>c x. V (put c x) = V x) \<Longrightarrow> keeps V (via get put m)"
  by (rule keepsI) (simp add: exec_simps Let_def keepsD)


section \<open>The connections a client owns\<close>

definition held :: "client \<Rightarrow> resource multiset" where
  "held c = (case qc_Connection c of Some h \<Rightarrow> {#Conn h#} | None \<Rightarrow> {#}) +
     (case qc_Channel c of Some h \<Rightarrow> {#Chan h#} | None \<Rightarrow> {#})"

text \<open>\<open>accounts c m\<close>: what the client owned and what \<open>m\<close> opened is what \<open>m\<close> closed and what the client
  owns in the end.\<close>

definition accounts :: "client \<Rightarrow> ('w, client \<times> 'a) io \<Rightarrow> bool" where
  "accounts c m \<longleftrightarrow> (\<forall>w. \<exists>es. log (post m w) = log w @ es \<and>
     sum_list (map acquired es) + held c = sum_list (map released es) + held (fst (val m w)))"

lemma accountsI:
  "(\<And>w. \<exists>es. log (post m w) = log w @ es \<and>
     sum_list (map acquired es) + held c = sum_list (map released es) + held (fst (val m w))) \<Longrightarrow> accounts c m"
  by (simp add: accounts_def)

lemma accounts_events:
  "accounts c m \<Longrightarrow> sum_list (map acquired (events m w)) + held c =
     sum_list (map released (events m w)) + held (fst (val m w))"
  unfolding accounts_def events_def by (metis append_eq_conv_conj)

lemma accounts_ret [balance_rules]: "accounts c (ret (c, r))"
  by (rule accountsI) simp

lemma accounts_bind:
  assumes "accounts c m" "\<And>c' r. accounts c' (f (c', r))"
  shows "accounts c (State_Monad.bind m f)"
proof (rule accountsI)
  fix w
  obtain es where es: "log (post m w) = log w @ es"
      "sum_list (map acquired es) + held c = sum_list (map released es) + held (fst (val m w))"
    using assms(1) unfolding accounts_def by blast
  let ?n = "f (val m w)"
  obtain fs where fs: "log (post ?n (post m w)) = log (post m w) @ fs"
      "sum_list (map acquired fs) + held (fst (val m w)) = sum_list (map released fs) + held (fst (val ?n (post m w)))"
    using assms(2) [of "fst (val m w)" "snd (val m w)"] unfolding accounts_def by auto
  have "sum_list (map acquired (es @ fs)) + held c =
      sum_list (map released es) + (sum_list (map acquired fs) + held (fst (val m w)))"
    using es(2) by (simp add: union_ac)
  also have "\<dots> = sum_list (map released (es @ fs)) + held (fst (val ?n (post m w)))"
    by (simp add: fs(2) union_ac)
  finally have "sum_list (map acquired (es @ fs)) + held c =
      sum_list (map released (es @ fs)) + held (fst (val ?n (post m w)))" .
  then show "\<exists>es. log (post (State_Monad.bind m f) w) = log w @ es \<and>
     sum_list (map acquired es) + held c = sum_list (map released es) + held (fst (val (State_Monad.bind m f) w))"
    using es(1) fs(1) by (intro exI [of _ "es @ fs"]) (simp add: split_beta)
qed

lemma accounts_before:
  assumes "owes {#} m" "\<And>x. accounts c (f x)"
  shows "accounts c (State_Monad.bind m f)"
proof (rule accountsI)
  fix w
  obtain es where es: "log (post m w) = log w @ es" "sum_list (map acquired es) = sum_list (map released es)"
    using assms(1) unfolding owes_def by fastforce
  obtain fs where fs: "log (post (f (val m w)) (post m w)) = log (post m w) @ fs"
      "sum_list (map acquired fs) + held c = sum_list (map released fs) + held (fst (val (f (val m w)) (post m w)))"
    using assms(2) unfolding accounts_def by blast
  then show "\<exists>es. log (post (State_Monad.bind m f) w) = log w @ es \<and>
     sum_list (map acquired es) + held c = sum_list (map released es) + held (fst (val (State_Monad.bind m f) w))"
    using es by (intro exI [of _ "es @ fs"]) (simp add: split_beta union_assoc)
qed

lemma closeLocked_client:
  "fst (val (closeLocked A c) w) = c\<lparr>qc_Channel := None, qc_Connection := None\<rparr>"
  by (simp add: closeLocked_def split_beta)

lemma accounts_closeLocked: "accounts c (closeLocked A c)"
  by (rule accountsI)
     (cases "qc_Channel c"; cases "qc_Connection c";
      simp add: closeLocked_def close_channel_def close_conn_def exec_simps held_def split_beta add.commute)

lemma accounts_connectLocked:
  fixes A :: "'w amqp"
  assumes "qc_Connection c = None" "qc_Channel c = None"
  shows "accounts c (connectLocked A c)"
proof (rule accountsI)
  fix w :: "'w world"
  let ?d = "am_dial A (qc_URL c) (ext w)"
  show "\<exists>es. log (post (connectLocked A c) w) = log w @ es \<and>
     sum_list (map acquired es) + held c = sum_list (map released es) + held (fst (val (connectLocked A c) w))"
  proof (cases "fst ?d")
    case (Inl e)
    then show ?thesis using assms by (simp add: connectLocked_def exec_simps held_def)
  next
    case (Inr k)
    let ?c = "am_channel A k (snd ?d)"
    show ?thesis
    proof (cases "fst ?c")
      case (Inl e)
      then show ?thesis using assms Inr
        by (simp add: connectLocked_def close_conn_def exec_simps held_def)
    next
      case (Inr h)
      then show ?thesis using assms \<open>fst ?d = Inr k\<close>
        by (cases "fst (am_qos A h (qc_Prefetch c) (snd ?c))")
           (simp_all add: connectLocked_def close_conn_def close_channel_def exec_simps held_def add.commute)
    qed
  qed
qed

text \<open>Closing and connecting anew, as \<^verbatim>\<open>reconnectLocked\<close>, \<^verbatim>\<open>Reconnect\<close> and \<^verbatim>\<open>EnsureReady\<close> do.\<close>

lemma accounts_reconnect:
  "accounts c (State_Monad.bind (closeLocked A c) (\<lambda>(c', u). connectLocked A c'))"
proof (rule accountsI)
  fix w
  let ?c = "c\<lparr>qc_Channel := None, qc_Connection := None\<rparr>" and ?w = "post (closeLocked A c) w"
  obtain es where es: "log ?w = log w @ es"
      "sum_list (map acquired es) + held c = sum_list (map released es) + held ?c"
    using accounts_closeLocked [of c A] unfolding accounts_def closeLocked_client by blast
  obtain fs where fs: "log (post (connectLocked A ?c) ?w) = log ?w @ fs"
      "sum_list (map acquired fs) + held ?c = sum_list (map released fs) + held (fst (val (connectLocked A ?c) ?w))"
    using accounts_connectLocked [of ?c A] unfolding accounts_def by auto
  have h: "held ?c = {#}" by (simp add: held_def)
  have "sum_list (map acquired (es @ fs)) + held c =
      sum_list (map released (es @ fs)) + held (fst (val (connectLocked A ?c) ?w))"
    using es(2) fs(2) h by (simp add: union_ac)
  then show "\<exists>es. log (post (State_Monad.bind (closeLocked A c) (\<lambda>(c', u). connectLocked A c')) w) = log w @ es \<and>
     sum_list (map acquired es) + held c = sum_list (map released es) +
       held (fst (val (State_Monad.bind (closeLocked A c) (\<lambda>(c', u). connectLocked A c')) w))"
    using es(1) fs(1) closeLocked_client [of A c w]
    by (intro exI [of _ "es @ fs"]) (simp add: split_beta)
qed

lemma owes_readyLocked: "owes {#} (readyLocked A c)"
  by (rule owesI) (simp add: readyLocked_def)

lemma owes_publishOnce: "owes {#} (publishOnce A c x body)"
  unfolding publishOnce_def by (auto intro!: balance_rules)

lemma accounts_case_res:
  "(\<And>x. accounts c (f x)) \<Longrightarrow> (\<And>e. accounts c (g e)) \<Longrightarrow> accounts c h \<Longrightarrow>
    accounts c (case r of Ok x \<Rightarrow> f x | Err e \<Rightarrow> g e | Panic \<Rightarrow> h)"
  by (simp split: res.split)

lemma accounts_reconnectLocked: "accounts c (reconnectLocked A c)"
  unfolding reconnectLocked_def by (rule accounts_reconnect)

lemma accounts_publish_retry: "accounts c (publish_retry A c x body)"
  unfolding publish_retry_def
  by (auto intro!: accounts_before [OF owes_publishOnce] accounts_case_res accounts_ret
      accounts_bind [OF accounts_reconnectLocked])

lemma accounts_Publish: "accounts c (Publish A c x body)"
  unfolding Publish_def
  by (auto intro!: accounts_before [OF owes_readyLocked] accounts_case_res accounts_ret
      accounts_publish_retry accounts_bind [OF accounts_reconnectLocked])

lemma accounts_EnsureReady: "accounts c (EnsureReady A c)"
  unfolding EnsureReady_def
  by (auto intro!: accounts_before [OF owes_readyLocked] accounts_ret accounts_reconnect)



section \<open>What a publish does\<close>

text \<open>The publishes of an event list, with their arguments and outcomes, and the dials.\<close>

fun publishes :: "event list \<Rightarrow> (ctx \<times> string \<times> string \<times> err option) list" where
  "publishes [] = []"
| "publishes (AMQP (EvPublish h x q b r) # es) = (x, q, b, r) # publishes es"
| "publishes (_ # es) = publishes es"

fun is_dial :: "event \<Rightarrow> bool" where
  "is_dial (AMQP (EvDial u r)) = True"
| "is_dial _ = False"

definition dials :: "event list \<Rightarrow> nat" where
  "dials es = length (filter is_dial es)"

lemma publishes_append [simp]: "publishes (es @ fs) = publishes es @ publishes fs"
  by (induction es rule: publishes.induct) auto

lemma dials_simps [simp]:
  "dials [] = 0" "dials (e # es) = (if is_dial e then Suc (dials es) else dials es)"
  "dials (es @ fs) = dials es + dials fs"
  by (simp_all add: dials_def)

text \<open>Reconnecting dials once and publishes nothing; when it succeeds the client has a channel.\<close>

lemma closeLocked_log:
  "\<exists>es. log (post (closeLocked A c) w) = log w @ es \<and> publishes es = [] \<and> dials es = 0"
  by (cases "qc_Channel c"; cases "qc_Connection c";
      simp add: closeLocked_def close_channel_def close_conn_def exec_simps split_beta)

lemma connectLocked_log:
  fixes A :: "'w amqp"
  shows "\<exists>es. log (post (connectLocked A c) w) = log w @ es \<and> publishes es = [] \<and> dials es = 1"
    and "snd (val (connectLocked A c) w) \<noteq> Panic"
    and "snd (val (connectLocked A c) w) = Ok () \<Longrightarrow>
      qc_Channel (fst (val (connectLocked A c) w)) \<noteq> None \<and> qc_Connection (fst (val (connectLocked A c) w)) \<noteq> None"
    and "qc_QueueName (fst (val (connectLocked A c) w)) = qc_QueueName c"
proof -
  let ?d = "am_dial A (qc_URL c) (ext w)"
  have "(\<exists>es. log (post (connectLocked A c) w) = log w @ es \<and> publishes es = [] \<and> dials es = 1) \<and>
     snd (val (connectLocked A c) w) \<noteq> Panic \<and>
     (snd (val (connectLocked A c) w) = Ok () \<longrightarrow>
      qc_Channel (fst (val (connectLocked A c) w)) \<noteq> None \<and> qc_Connection (fst (val (connectLocked A c) w)) \<noteq> None) \<and>
     qc_QueueName (fst (val (connectLocked A c) w)) = qc_QueueName c"
  proof (cases "fst ?d")
    case (Inl e)
    then show ?thesis by (simp add: connectLocked_def exec_simps)
  next
    case (Inr k)
    let ?c = "am_channel A k (snd ?d)"
    show ?thesis
    proof (cases "fst ?c")
      case (Inl e)
      then show ?thesis using Inr by (simp add: connectLocked_def close_conn_def exec_simps)
    next
      case (Inr h)
      then show ?thesis using \<open>fst ?d = Inr k\<close>
        by (cases "fst (am_qos A h (qc_Prefetch c) (snd ?c))")
           (simp_all add: connectLocked_def close_conn_def close_channel_def exec_simps)
    qed
  qed
  then show "\<exists>es. log (post (connectLocked A c) w) = log w @ es \<and> publishes es = [] \<and> dials es = 1"
    "snd (val (connectLocked A c) w) \<noteq> Panic"
    "snd (val (connectLocked A c) w) = Ok () \<Longrightarrow>
      qc_Channel (fst (val (connectLocked A c) w)) \<noteq> None \<and> qc_Connection (fst (val (connectLocked A c) w)) \<noteq> None"
    "qc_QueueName (fst (val (connectLocked A c) w)) = qc_QueueName c"
    by blast+
qed

lemma reconnectLocked_run:
  "run_state (reconnectLocked A c) w =
     run_state (connectLocked A (c\<lparr>qc_Channel := None, qc_Connection := None\<rparr>)) (post (closeLocked A c) w)"
  using closeLocked_client [of A c w] by (simp add: reconnectLocked_def split_beta)

lemma reconnectLocked_log:
  shows "\<exists>es. log (post (reconnectLocked A c) w) = log w @ es \<and> publishes es = [] \<and> dials es = 1"
    and "snd (val (reconnectLocked A c) w) \<noteq> Panic"
    and "snd (val (reconnectLocked A c) w) = Ok () \<Longrightarrow> qc_Channel (fst (val (reconnectLocked A c) w)) \<noteq> None"
    and "qc_QueueName (fst (val (reconnectLocked A c) w)) = qc_QueueName c"
proof -
  let ?c = "c\<lparr>qc_Channel := None, qc_Connection := None\<rparr>"
  obtain es where es: "log (post (closeLocked A c) w) = log w @ es" "publishes es = []" "dials es = 0"
    using closeLocked_log by blast
  note con = connectLocked_log [of A ?c "post (closeLocked A c) w"]
  obtain fs where "log (post (connectLocked A ?c) (post (closeLocked A c) w)) =
      log (post (closeLocked A c) w) @ fs" "publishes fs = []" "dials fs = 1"
    using con(1) by blast
  then show "\<exists>es. log (post (reconnectLocked A c) w) = log w @ es \<and> publishes es = [] \<and> dials es = 1"
    using es by (intro exI [of _ "es @ fs"]) (simp add: reconnectLocked_run)
  show "snd (val (reconnectLocked A c) w) \<noteq> Panic"
    "snd (val (reconnectLocked A c) w) = Ok () \<Longrightarrow> qc_Channel (fst (val (reconnectLocked A c) w)) \<noteq> None"
    "qc_QueueName (fst (val (reconnectLocked A c) w)) = qc_QueueName c"
    using con by (simp_all add: reconnectLocked_run)
qed

lemma publishOnce_log:
  assumes "qc_Channel c = Some h"
  shows "\<exists>r. val (publishOnce A c x b) w = res_of_option r \<and>
    log (post (publishOnce A c x b) w) = log w @ [AMQP (EvPublish h x (qc_QueueName c) b r)]"
  using assms by (simp add: publishOnce_def exec_simps)

text \<open>
  An attempt to publish, given a channel: one publish, and after a failure one reconnect and, if
  that succeeds, one more publish. The outcome is that of the last one.
\<close>

lemma publish_retry_log:
  assumes "qc_Channel c \<noteq> None"
  shows "\<exists>es rs. log (post (publish_retry A c x b) w) = log w @ es \<and>
    publishes es = map (\<lambda>r. (x, qc_QueueName c, b, r)) rs \<and> length rs \<in> {1, 2} \<and> dials es \<le> 1 \<and>
    list_all (\<lambda>r. r \<noteq> None) (butlast rs) \<and>
    (snd (val (publish_retry A c x b) w) = Ok () \<longleftrightarrow> last rs = None) \<and>
    snd (val (publish_retry A c x b) w) \<noteq> Panic"
proof -
  obtain h where h: "qc_Channel c = Some h" using assms by auto
  let ?w1 = "post (publishOnce A c x b) w"
  obtain r where r: "val (publishOnce A c x b) w = res_of_option r"
      "log ?w1 = log w @ [AMQP (EvPublish h x (qc_QueueName c) b r)]"
    using publishOnce_log [OF h] by blast
  show ?thesis
  proof (cases r)
    case None
    then show ?thesis using r
      by (intro exI [of _ "[AMQP (EvPublish h x (qc_QueueName c) b None)]"] exI [of _ "[None]"])
         (simp add: publish_retry_def split_beta)
  next
    case (Some e)
    let ?rc = "val (reconnectLocked A c) ?w1" and ?w2 = "post (reconnectLocked A c) ?w1"
    note rec = reconnectLocked_log [of A c ?w1]
    obtain fs where fs: "log ?w2 = log ?w1 @ fs" "publishes fs = []" "dials fs = 1" using rec(1) by blast
    show ?thesis
    proof (cases "snd ?rc")
      case (Ok u)
      then obtain h' where h': "qc_Channel (fst ?rc) = Some h'" using rec(3) by auto
      obtain r' where r': "val (publishOnce A (fst ?rc) x b) ?w2 = res_of_option r'"
          "log (post (publishOnce A (fst ?rc) x b) ?w2) =
             log ?w2 @ [AMQP (EvPublish h' x (qc_QueueName (fst ?rc)) b r')]"
        using publishOnce_log [OF h'] by blast
      show ?thesis
        using Some Ok r r' fs rec(4)
        by (intro exI [of _ "AMQP (EvPublish h x (qc_QueueName c) b (Some e)) # fs @
              [AMQP (EvPublish h' x (qc_QueueName c) b r')]"] exI [of _ "[Some e, r']"])
           (cases r'; simp add: publish_retry_def split_beta)
    next
      case (Err e')
      then show ?thesis using Some r fs
        by (intro exI [of _ "AMQP (EvPublish h x (qc_QueueName c) b (Some e)) # fs"] exI [of _ "[Some e]"])
           (simp add: publish_retry_def split_beta)
    qed (use rec(2) in simp)
  qed
qed

lemma readyLocked_run:
  "post (readyLocked A c) w = w"
  "val (readyLocked A c) w \<Longrightarrow> qc_Channel c \<noteq> None \<and> qc_Connection c \<noteq> None"
  by (auto simp: readyLocked_def split: option.splits)

text \<open>A publish with all its reconnects.\<close>

lemma Publish_log:
  "\<exists>es rs. log (post (Publish A c x b) w) = log w @ es \<and>
    publishes es = map (\<lambda>r. (x, qc_QueueName c, b, r)) rs \<and> length rs \<le> 2 \<and> dials es \<le> 2 \<and>
    list_all (\<lambda>r. r \<noteq> None) (butlast rs) \<and>
    (snd (val (Publish A c x b) w) = Ok () \<longleftrightarrow> rs \<noteq> [] \<and> last rs = None) \<and>
    snd (val (Publish A c x b) w) \<noteq> Panic"
proof (cases "val (readyLocked A c) w")
  case True
  then have "qc_Channel c \<noteq> None" using readyLocked_run(2) by blast
  from publish_retry_log [OF this, of A x b w] show ?thesis
    using True by (fastforce simp: Publish_def split_beta readyLocked_run(1))
next
  case False
  let ?rc = "val (reconnectLocked A c) w" and ?w = "post (reconnectLocked A c) w"
  note rec = reconnectLocked_log [of A c w]
  obtain fs where fs: "log ?w = log w @ fs" "publishes fs = []" "dials fs = 1" using rec(1) by blast
  show ?thesis
  proof (cases "snd ?rc")
    case (Ok u)
    then have "qc_Channel (fst ?rc) \<noteq> None" using rec(3) by simp
    from publish_retry_log [OF this, of A x b ?w] rec(4) obtain es rs where
      "log (post (publish_retry A (fst ?rc) x b) ?w) = log ?w @ es"
      "publishes es = map (\<lambda>r. (x, qc_QueueName c, b, r)) rs" "length rs \<in> {1, 2}" "dials es \<le> 1"
      "list_all (\<lambda>r. r \<noteq> None) (butlast rs)"
      "snd (val (publish_retry A (fst ?rc) x b) ?w) = Ok () \<longleftrightarrow> last rs = None"
      "snd (val (publish_retry A (fst ?rc) x b) ?w) \<noteq> Panic"
      by auto
    then show ?thesis
      using False Ok fs
      by (intro exI [of _ "fs @ es"] exI [of _ rs]) (auto simp: Publish_def split_beta readyLocked_run(1))
  next
    case (Err e)
    then show ?thesis using False fs
      by (intro exI [of _ fs] exI [of _ "[]"]) (simp add: Publish_def split_beta readyLocked_run(1))
  qed (use rec(2) in simp)
qed



section \<open>A concrete broker\<close>

text \<open>Handles are counted up, chosen calls fail, and a connection is closed when the world says so
  (here: when there are faults left to come).\<close>

definition mem_amqp :: "'a memworld_scheme amqp" where
  "mem_amqp = \<lparr>
     am_dial = (\<lambda>u. mm_open), am_channel = (\<lambda>k. mm_open), am_qos = (\<lambda>h n. mm_act),
     am_close_channel = (\<lambda>h. mm_act), am_close_conn = (\<lambda>h. mm_act),
     am_conn_closed = (\<lambda>h x. False), am_chan_closed = (\<lambda>h x. mm_faults x \<noteq> []),
     am_exchange_declare = (\<lambda>h n. mm_act),
     am_queue_declare = (\<lambda>h q d x. case mm_act x of (None, y) \<Rightarrow> (Inr q, y) | (Some e, y) \<Rightarrow> (Inl e, y)),
     am_queue_bind = (\<lambda>h q e. mm_act), am_publish = (\<lambda>h x q b. mm_act),
     am_consume = (\<lambda>h q n a. mm_open), am_ack = (\<lambda>h m. mm_act), am_nack = (\<lambda>h m r. mm_act) \<rparr>"

definition demo_client :: client where
  "demo_client = \<lparr>qc_URL = ''amqp://broker'', qc_QueueName = ''videos'', qc_Prefetch = 2,
     qc_Connection = None, qc_Channel = None\<rparr>"

definition connected :: client where
  "connected = demo_client\<lparr>qc_Connection := Some 7, qc_Channel := Some 8\<rparr>"

text \<open>It has no access to the tables.\<close>

interpretation mq: amqp_contract mem_amqp "mem_job :: 'a memworld_scheme \<Rightarrow> _"
  by unfold_locales (simp_all add: mem_amqp_def mm_open_def mm_act_def mem_job_def fun_eq_iff Let_def
      split: prod.split option.split)

text \<open>The world whose next calls fail as \<open>bs\<close> says.\<close>

definition failing :: "bool list \<Rightarrow> memworld world" where
  "failing bs = demo_world\<lparr>ext := demo_ext\<lparr>mm_faults := bs\<rparr>\<rparr>"


section \<open>Properties\<close>

text \<open>
  C17: The client leaks no connection and no channel. For every method that replaces or closes its
  connection, what it opened together with what the client held before is what it closed together
  with what the client holds after; when connecting fails half way, what was opened is closed.
  \<^verbatim>\<open>Connect\<close> has this property for a client that is not connected.
\<close>

theorem Client_no_leak:
  assumes "m \<in> {Reconnect A c, EnsureReady A c, Close A c, Publish A c x body, PublishJSON A c x payload} \<or>
    m = Connect A c \<and> qc_Connection c = None \<and> qc_Channel c = None"
  shows "sum_list (map acquired (events m w)) + held c =
    sum_list (map released (events m w)) + held (fst (val m w))"
proof (rule accounts_events)
  show "accounts c m"
    using assms accounts_reconnect [of c A] accounts_EnsureReady [of c A] accounts_closeLocked [of c A]
      accounts_Publish [of c A x body] accounts_Publish [of c A x "marshal payload"] accounts_connectLocked [of c A]
    by (auto simp: Reconnect_def Close_def PublishJSON_def Connect_def)
qed

theorem Client_no_leak_witness:
  "sum_list (map acquired (events (Reconnect mem_amqp connected) (failing [False, False, False, False, True]))) + {#Conn 7, Chan 8#} =
   sum_list (map released (events (Reconnect mem_amqp connected) (failing [False, False, False, False, True]))) +
     held (fst (val (Reconnect mem_amqp connected) (failing [False, False, False, False, True])))"
proof -
  have "held connected = {#Conn 7, Chan 8#}" by (simp add: held_def connected_def)
  then show ?thesis
    using Client_no_leak [of "Reconnect mem_amqp connected" mem_amqp connected Background "[]" "[]"]
    by simp
qed

text \<open>
  C18: \<^verbatim>\<open>Publish\<close> sends the body to the configured queue at most twice and dials at most twice. It
  reports success exactly when its last send succeeded, every send before that one failed, and
  it never dereferences a missing channel.
\<close>

theorem Publish_at_most_twice:
  "\<exists>rs. publishes (events (Publish A c x body) w) = map (\<lambda>r. (x, qc_QueueName c, body, r)) rs \<and>
     length rs \<le> 2 \<and> dials (events (Publish A c x body) w) \<le> 2 \<and> list_all (\<lambda>r. r \<noteq> None) (butlast rs) \<and>
     (snd (val (Publish A c x body) w) = Ok () \<longleftrightarrow> rs \<noteq> [] \<and> last rs = None) \<and>
     snd (val (Publish A c x body) w) \<noteq> Panic"
proof -
  obtain es rs where "log (post (Publish A c x body) w) = log w @ es"
    "publishes es = map (\<lambda>r. (x, qc_QueueName c, body, r)) rs" "length rs \<le> 2" "dials es \<le> 2"
    "list_all (\<lambda>r. r \<noteq> None) (butlast rs)"
    "snd (val (Publish A c x body) w) = Ok () \<longleftrightarrow> rs \<noteq> [] \<and> last rs = None"
    "snd (val (Publish A c x body) w) \<noteq> Panic"
    using Publish_log [of A c x body w] by blast
  moreover from this(1) have "events (Publish A c x body) w = es" by (rule events_eqI)
  ultimately show ?thesis by auto
qed

text \<open>The calls that set up the queues, waiting for their outcomes.\<close>

definition topology :: "client \<Rightarrow> handle \<Rightarrow> (err option \<Rightarrow> amqp_event) list" where
  "topology c h =
     [EvExchangeDeclare h (qc_QueueName c @ ''.dlx''),
      EvQueueDeclare h (qc_QueueName c @ ''.dlq'') None,
      EvQueueBind h (qc_QueueName c @ ''.dlq'') (qc_QueueName c @ ''.dlx''),
      EvQueueDeclare h (qc_QueueName c) (Some (qc_QueueName c @ ''.dlx''))]"

text \<open>
  C19: \<^verbatim>\<open>Declare\<close> sets up the dead-letter exchange \<^verbatim>\<open><queue>.dlx\<close>, the queue \<^verbatim>\<open><queue>.dlq\<close>, their
  binding and then the work queue with that exchange as its dead-letter exchange, in this order,
  stopping at the first failure; it succeeds exactly when all four calls did.
\<close>

theorem Declare_topology:
  assumes "qc_Channel c = Some h"
  shows "\<exists>rs. events (Declare A c) w = map2 (\<lambda>ev r. AMQP (ev r)) (take (length rs) (topology c h)) rs \<and>
    rs \<noteq> [] \<and> length rs \<le> 4 \<and> list_all (\<lambda>r. r = None) (butlast rs) \<and>
    ((\<exists>q. val (Declare A c) w = Ok q) \<longleftrightarrow> length rs = 4 \<and> last rs = None) \<and>
    val (Declare A c) w \<noteq> Panic"
proof -
  let ?x = "qc_QueueName c @ ''.dlx''" and ?q = "qc_QueueName c @ ''.dlq''"
  let ?r1 = "am_exchange_declare A h ?x (ext w)"
  let ?r2 = "am_queue_declare A h ?q None (snd ?r1)"
  let ?r3 = "am_queue_bind A h ?q ?x (snd ?r2)"
  let ?r4 = "am_queue_declare A h (qc_QueueName c) (Some ?x) (snd ?r3)"
  show ?thesis
  proof (cases "fst ?r1")
    case (Some e)
    then show ?thesis using assms
      by (intro exI [of _ "[Some e]"]) (simp add: Declare_def Let_def queue_declare_def exec_simps events_def topology_def)
  next
    case r1: None
    show ?thesis
    proof (cases "fst ?r2")
      case (Inl e)
      then show ?thesis using assms r1
        by (intro exI [of _ "[None, Some e]"])
           (simp add: Declare_def Let_def queue_declare_def exec_simps events_def topology_def)
    next
      case r2: (Inr u)
      show ?thesis
      proof (cases "fst ?r3")
        case (Some e)
        then show ?thesis using assms r1 r2
          by (intro exI [of _ "[None, None, Some e]"])
             (simp add: Declare_def Let_def queue_declare_def exec_simps events_def topology_def)
      next
        case None
        then show ?thesis using assms r1 r2
          by (intro exI [of _ "[None, None, None, (case fst ?r4 of Inl e \<Rightarrow> Some e | Inr _ \<Rightarrow> None)]"])
             (auto simp: Declare_def Let_def queue_declare_def exec_simps events_def topology_def split: sum.split)
      qed
    qed
  qed
qed

theorem Declare_topology_witness:
  "\<exists>rs. events (Declare mem_amqp connected) (failing []) =
     map2 (\<lambda>ev r. AMQP (ev r)) (take (length rs) (topology connected 8)) rs \<and> rs \<noteq> [] \<and> length rs \<le> 4"
  using Declare_topology [of connected 8 mem_amqp "failing []"] by (auto simp: connected_def)

end
