(* ===== verification/Worker.thy ===== *)
theory Worker
  imports Mem_Run Queue_Client
begin

text \<open>
  \<^verbatim>\<open>internal/job/worker.go\<close>: a worker that takes messages from a channel, processes each one and
  settles it. \<open>acknowledger\<close> is the Go interface \<^verbatim>\<open>Acknowledger\<close>; the implementation the program
  uses is \<^verbatim>\<open>deliveryAck\<close> of \<^verbatim>\<open>internal/job/manager.go\<close>.
\<close>

record JobWorkerMessage =
  jwm_VideoID :: string
  jwm_OutputBucketPath :: string

text \<open>The message as the struct \<^verbatim>\<open>encoding/json\<close> sees, by its field tags.\<close>

definition jwm_members :: "JobWorkerMessage \<Rightarrow> (string \<times> string) list" where
  "jwm_members m = [(''video_id'', jwm_VideoID m), (''output_bucket_path'', jwm_OutputBucketPath m)]"

record 'w acknowledger =
  ack_Ack :: "('w, unit res) io"
  ack_Nack :: "bool \<Rightarrow> ('w, unit res) io"

record 'w message =
  msg_Body :: string
  msg_Ack :: "'w acknowledger option"

record job_worker_result =
  res_Job :: "job option"
  res_Payload :: string
  res_Error :: string

definition parseJobWorkerMessage :: "string \<Rightarrow> JobWorkerMessage res" where
  "parseJobWorkerMessage payload =
     (case unmarshal [''video_id'', ''output_bucket_path''] payload of
        Inl e \<Rightarrow> Err (json_err e)
      | Inr f \<Rightarrow>
          if f ''video_id'' = '''' then Err (ErrText ''video_id is required'')
          else if f ''output_bucket_path'' = '''' then Err (ErrText ''output_bucket_path is required'')
          else Ok \<lparr>jwm_VideoID = f ''video_id'', jwm_OutputBucketPath = f ''output_bucket_path''\<rparr>)"

text \<open>\<^verbatim>\<open>processPayload\<close>: the service and the processor are pointers that may be nil.\<close>

definition processPayload ::
  "'w lib \<Rightarrow> 'w runtime \<Rightarrow> environ \<Rightarrow> 'w media \<Rightarrow> string \<Rightarrow> 'w job_service option \<Rightarrow>
    'w processor option \<Rightarrow> ('w, job_worker_result res) io" where
  "processPayload L T E M payload jobService processor =
     (let result = \<lparr>res_Job = None, res_Payload = payload, res_Error = ''''\<rparr> in
      case parseJobWorkerMessage payload of
        Err e \<Rightarrow> ret (Ok (result\<lparr>res_Error := err_text e\<rparr>))
      | Panic \<Rightarrow> ret Panic
      | Ok message \<Rightarrow> do {
          r \<leftarrow> deref jobService (\<lambda>S. CreatePendingJob L S (jwm_VideoID message) (jwm_OutputBucketPath message));
          case r of
            Err e \<Rightarrow> ret (Ok (result\<lparr>res_Error := err_text e\<rparr>))
          | Panic \<Rightarrow> ret Panic
          | Ok job \<Rightarrow>
              if Enabled processor then do {
                p \<leftarrow> deref processor (\<lambda>P. Processor_Run T E M P (Some job));
                case p of
                  Err e \<Rightarrow> ret (Ok (result\<lparr>res_Job := Some job, res_Error := err_text e\<rparr>))
                | Panic \<Rightarrow> ret Panic
                | Ok _ \<Rightarrow> ret (Ok (result\<lparr>res_Job := Some (job\<lparr>job_Status := JobStatusCompleted\<rparr>)\<rparr>))
              }
              else ret (Ok (result\<lparr>res_Job := Some job\<rparr>))
        })"

definition acknowledge :: "'w message \<Rightarrow> job_worker_result \<Rightarrow> ('w, unit res) io" where
  "acknowledge msg result = (case msg_Ack msg of
       None \<Rightarrow> ret (Ok ())
     | Some a \<Rightarrow> do {
         r \<leftarrow> (if res_Error result \<noteq> '''' then ack_Nack a False else ack_Ack a);
         ret (case r of Panic \<Rightarrow> Panic | _ \<Rightarrow> Ok ())
       })"

text \<open>The loop over the messages one worker receives until the channel is closed; the results are
  those it sends.\<close>

fun JobWorker ::
  "'w lib \<Rightarrow> 'w runtime \<Rightarrow> environ \<Rightarrow> 'w media \<Rightarrow> 'w message list \<Rightarrow> 'w job_service option \<Rightarrow>
    'w processor option \<Rightarrow> ('w, job_worker_result list res) io" where
  "JobWorker L T E M [] S P = ret (Ok [])"
| "JobWorker L T E M (msg # msgs) S P =
     attempt (processPayload L T E M (msg_Body msg) S P) (\<lambda>result.
     attempt (acknowledge msg result) (\<lambda>_.
     attempt (JobWorker L T E M msgs S P) (\<lambda>results.
     ret (Ok (result # results)))))"


section \<open>Messages\<close>

lemma parse_Ok:
  assumes "parseJobWorkerMessage payload = Ok m"
  shows "jwm_VideoID m \<noteq> ''''" "jwm_OutputBucketPath m \<noteq> ''''"
    "valid_utf8 (jwm_VideoID m)" "valid_utf8 (jwm_OutputBucketPath m)"
  using assms unmarshal_utf8 [of "[''video_id'', ''output_bucket_path'']" payload]
  by (auto simp: parseJobWorkerMessage_def split: sum.splits if_splits)

lemma parse_not_panic: "parseJobWorkerMessage payload \<noteq> Panic"
  by (simp add: parseJobWorkerMessage_def split: sum.split)

lemma parse_Err_text: "parseJobWorkerMessage payload = Err e \<Longrightarrow> err_text e \<noteq> ''''"
  by (auto simp: parseJobWorkerMessage_def json_err_def split: sum.splits if_splits)

lemma parse_marshal:
  assumes "valid_utf8 (jwm_VideoID m)" "valid_utf8 (jwm_OutputBucketPath m)"
    "jwm_VideoID m \<noteq> ''''" "jwm_OutputBucketPath m \<noteq> ''''"
  shows "parseJobWorkerMessage (marshal (jwm_members m)) = Ok m"
proof -
  have "unmarshal [''video_id'', ''output_bucket_path''] (marshal (jwm_members m)) =
     Inr (\<lambda>k. case map_of (jwm_members m) k of Some v \<Rightarrow> v | None \<Rightarrow> '''')"
    using assms by (intro unmarshal_marshal) (simp_all add: jwm_members_def plain_def)
  then show ?thesis
    using assms by (simp add: parseJobWorkerMessage_def jwm_members_def)
qed


section \<open>Acknowledging\<close>

text \<open>
  The contract of an acknowledger: a call reports one settlement, of the right kind, and does not
  panic. A broker delivery keeps it.
\<close>

datatype settlement = Acked handle bool | Nacked handle bool bool

fun settled :: "event list \<Rightarrow> settlement list" where
  "settled [] = []"
| "settled (AMQP (EvAck h m r) # es) = Acked h m # settled es"
| "settled (AMQP (EvNack h m q r) # es) = Nacked h m q # settled es"
| "settled (_ # es) = settled es"

lemma settled_append [simp]: "settled (es @ fs) = settled es @ settled fs"
  by (induction es rule: settled.induct) auto

locale acknowledger_contract =
  fixes a :: "'w acknowledger" and on_ack :: settlement and on_nack :: "bool \<Rightarrow> settlement"
  assumes ack_log: "\<exists>es. log (post (ack_Ack a) w) = log w @ es \<and> settled es = [on_ack]"
    and nack_log: "\<exists>es. log (post (ack_Nack a q) w) = log w @ es \<and> settled es = [on_nack q]"
    and ack_panic_free: "panic_free (ack_Ack a)" "panic_free (ack_Nack a q)"
begin

lemma acknowledge_settles:
  assumes "msg_Ack msg = Some a"
  shows "\<exists>es. log (post (acknowledge msg result) w) = log w @ es \<and>
      settled es = [if res_Error result = '''' then on_ack else on_nack False]"
    and "val (acknowledge msg result) w = Ok ()"
  using assms ack_log [of w] nack_log [of False w] panic_freeD [OF ack_panic_free(1), of w]
    panic_freeD [OF ack_panic_free(2), of False w]
  by (auto simp: acknowledge_def split_beta split: res.split)

end

definition deliveryAck :: "'w amqp \<Rightarrow> handle \<Rightarrow> 'w acknowledger" where
  "deliveryAck A delivery =
     \<lparr>ack_Ack = call_unit (am_ack A delivery False) (\<lambda>r. AMQP (EvAck delivery False r)),
      ack_Nack = (\<lambda>requeue. call_unit (am_nack A delivery False requeue)
         (\<lambda>r. AMQP (EvNack delivery False requeue r)))\<rparr>"

interpretation delivery:
  acknowledger_contract "deliveryAck A d" "Acked d False" "Nacked d False"
  for A :: "'w amqp" and d :: handle
  by unfold_locales (auto simp: deliveryAck_def exec_simps panic_free_def)



section \<open>One payload\<close>

lemma emits_CreatePendingJob [emit_rules]: "emits is_db (CreatePendingJob L (gorm_service L G) vid out)"
proof -
  have "emits is_db (VideoRepositoryDb_Find G vid)"
    by (rule emits_mono [OF emits_repositories(1)]) (erule is_db_read.elims, auto)
  then show ?thesis by (auto simp: CreatePendingJob_def intro!: emit_rules)
qed

definition is_work :: "event \<Rightarrow> bool" where
  "is_work e \<longleftrightarrow> is_db e \<or> is_media e"

lemma settled_work: "list_all is_work es \<Longrightarrow> settled es = []"
  by (induction es rule: settled.induct) (auto simp: is_work_def)

text \<open>The configurations the program runs with: a service over GORM, and a processor that is absent
  or uses the same service.\<close>

definition configured :: "'w lib \<Rightarrow> 'w gorm \<Rightarrow> 'w processor option \<Rightarrow> bool" where
  "configured L G P \<longleftrightarrow> (\<forall>p. P = Some p \<longrightarrow> pr_JobService p = Some (gorm_service L G))"

lemma emits_processPayload:
  assumes "configured L G P"
  shows "emits is_work (processPayload L T E M payload (Some (gorm_service L G)) P)"
proof -
  have create: "emits is_work (CreatePendingJob L (gorm_service L G) vid out)" for vid out
    by (rule emits_mono [OF emits_CreatePendingJob]) (simp add: is_work_def)
  have run: "emits is_work (Processor_Run T E M p jobptr)" if "P = Some p" for p jobptr
    using assms that
    by (intro emits_Run emits_mono [OF emits_pipeline]) (auto simp: configured_def is_work_def)
  show ?thesis
    unfolding processPayload_def Let_def deref_simps
    by (intro emit_rules create run) simp_all
qed

lemma CreatePendingJob_panic_free: "val (CreatePendingJob L (gorm_service L G) vid out) w \<noteq> Panic"
  by (auto simp: CreatePendingJob_def run_attempt run_silently exec_simps Let_def split_beta NewJob_no_panic
      not_found_as_iff split: res.split)

text \<open>A job the service returns has its video, without which \<^verbatim>\<open>Run\<close> refuses it.\<close>

lemma CreatePendingJob_loaded:
  assumes "store_contract G jobs videos L" "val (CreatePendingJob L (gorm_service L G) vid out) w = Ok j"
  shows "\<exists>v. job_Video j = Some v"
  using job_service_contract.CreatePendingJob_Ok(7) [OF store_contract.is_service [OF assms(1)] _ _ assms(2)]
  by auto

lemma processPayload_panic_free:
  assumes "store_contract G jobs videos L" "configured L G P" "0 < rt_numcpu T"
  shows "panic_free (processPayload L T E M payload (Some (gorm_service L G)) P)"
proof (rule panic_freeI)
  fix w
  show "val (processPayload L T E M payload (Some (gorm_service L G)) P) w \<noteq> Panic"
  proof (cases "parseJobWorkerMessage payload")
    case (Ok m)
    let ?c = "CreatePendingJob L (gorm_service L G) (jwm_VideoID m) (jwm_OutputBucketPath m)"
    show ?thesis
    proof (cases "val ?c w")
      case job: (Ok j)
      have run: "val (Processor_Run T E M p (Some j)) w' \<noteq> Panic" if "P = Some p" for p w'
        using CreatePendingJob_loaded [OF assms(1) job] assms(2,3) that Run_panic_free
        by (metis configured_def)
      show ?thesis
      proof (cases "Enabled P")
        case False
        then show ?thesis using Ok job by (simp add: processPayload_def Let_def split_beta)
      next
        case True
        then obtain p where "P = Some p" by (cases P) (auto simp: Enabled_def)
        then show ?thesis using Ok job True run [of p]
          by (auto simp: processPayload_def Let_def split_beta split: res.split)
      qed
    qed (use Ok CreatePendingJob_panic_free [of L G] in \<open>simp_all add: processPayload_def Let_def split_beta\<close>)
  qed (use parse_not_panic in \<open>simp_all add: processPayload_def Let_def\<close>)
qed

lemma processPayload_payload:
  "val (processPayload L T E M payload S P) w = Ok r \<Longrightarrow> res_Payload r = payload"
  by (auto simp: processPayload_def Let_def split_beta deref_def
      split: res.splits if_splits option.splits)


section \<open>The loop\<close>

text \<open>Every message is settled once, in order: acknowledged when its result carries no error,
  rejected for good otherwise.\<close>

definition settlement_of :: "handle \<Rightarrow> job_worker_result \<Rightarrow> settlement" where
  "settlement_of d r = (if res_Error r = '''' then Acked d False else Nacked d False False)"

definition deliveries :: "'w amqp \<Rightarrow> (handle \<times> string) list \<Rightarrow> 'w message list" where
  "deliveries A ds = map (\<lambda>(d, b). \<lparr>msg_Body = b, msg_Ack = Some (deliveryAck A d)\<rparr>) ds"

lemma JobWorker_run:
  assumes "store_contract G jobs videos L" "configured L G P" "0 < rt_numcpu T"
  shows "\<exists>rs es. val (JobWorker L T E M (deliveries A ds) (Some (gorm_service L G)) P) w = Ok rs \<and>
    log (post (JobWorker L T E M (deliveries A ds) (Some (gorm_service L G)) P) w) = log w @ es \<and>
    map res_Payload rs = map snd ds \<and>
    settled es = map2 (\<lambda>d r. settlement_of (fst d) r) ds rs"
proof (induction ds arbitrary: w)
  case (Cons db ds)
  obtain d b where db: "db = (d, b)" by (cases db)
  let ?p = "processPayload L T E M b (Some (gorm_service L G)) P"
  let ?msg = "\<lparr>msg_Body = b, msg_Ack = Some (deliveryAck A d)\<rparr>"
  have "val ?p w \<noteq> Panic" by (rule panic_freeD [OF processPayload_panic_free [OF assms]])
  moreover have "val ?p w \<noteq> Err e" for e
    by (auto simp: processPayload_def Let_def split_beta split: res.splits)
  ultimately obtain r where r: "val ?p w = Ok r" by (cases "val ?p w") auto
  let ?w1 = "post ?p w"
  have log1: "log ?w1 = log w @ events ?p w" "settled (events ?p w) = []"
    using emits_log [OF emits_processPayload [OF assms(2)]]
      settled_work [OF emits_events [OF emits_processPayload [OF assms(2)]]] by auto
  let ?w2 = "post (acknowledge ?msg r) ?w1"
  obtain fs where ack: "val (acknowledge ?msg r) ?w1 = Ok ()" "log ?w2 = log ?w1 @ fs"
      "settled fs = [settlement_of d r]"
    using delivery.acknowledge_settles [of ?msg A d r ?w1]
    unfolding settlement_of_def by auto
  from Cons.IH [of ?w2] obtain rs es where IH:
    "val (JobWorker L T E M (deliveries A ds) (Some (gorm_service L G)) P) ?w2 = Ok rs"
    "log (post (JobWorker L T E M (deliveries A ds) (Some (gorm_service L G)) P) ?w2) = log ?w2 @ es"
    "map res_Payload rs = map snd ds" "settled es = map2 (\<lambda>d r. settlement_of (fst d) r) ds rs"
    by blast
  show ?case
    using db r log1 ack IH processPayload_payload [OF r]
    by (intro exI [of _ "r # rs"] exI [of _ "events ?p w @ fs @ es"])
       (simp add: run_attempt split_beta deliveries_def)
qed (simp add: deliveries_def)



section \<open>A payload and the tables\<close>

text \<open>Programs whose errors carry a text.\<close>

definition worded :: "('s, 'a res) state \<Rightarrow> bool" where
  "worded m \<longleftrightarrow> (\<forall>w e. val m w = Err e \<longrightarrow> err_text e \<noteq> '''')"

lemma wordedD: "worded m \<Longrightarrow> val m w = Err e \<Longrightarrow> err_text e \<noteq> ''''"
  unfolding worded_def by blast

lemma worded_ret: "(\<And>e. r = Err e \<Longrightarrow> err_text e \<noteq> '''') \<Longrightarrow> worded (ret r)"
  by (simp add: worded_def)

lemma worded_wrap: "p \<noteq> '''' \<Longrightarrow> worded (wrap p m)"
  by (auto simp: worded_def run_wrap split_beta split: res.splits)

lemma worded_attempt: "worded m \<Longrightarrow> (\<And>x. worded (f x)) \<Longrightarrow> worded (attempt m f)"
  unfolding worded_def by (auto simp: run_attempt split_beta split: res.splits)

lemma worded_deferring: "worded m \<Longrightarrow> worded (deferring d m)"
  unfolding worded_def by (simp add: run_deferring split_beta)

lemma worded_bind: "(\<And>x. worded (f x)) \<Longrightarrow> worded (State_Monad.bind m f)"
  unfolding worded_def by (simp add: split_beta)

lemma worded_deref: "(\<And>x. worded (f x)) \<Longrightarrow> worded (deref p f)"
  by (cases p) (simp_all add: worded_def)

lemma worded_process: "worded (process T E M p job)"
  unfolding process_def Let_def
  by (intro worded_deref worded_attempt worded_wrap worded_deferring worded_bind worded_ret)
     (auto split: res.splits)

lemma worded_Run: "worded (Processor_Run T E M p (Some job))"
proof (cases "job_Video job = None")
  case True
  then show ?thesis by (simp add: Processor_Run_def worded_def)
next
  case False
  show ?thesis
    unfolding worded_def
  proof (intro allI impI)
    fix w e
    assume e: "val (Processor_Run T E M p (Some job)) w = Err e"
    show "err_text e \<noteq> ''''"
    proof (cases "val (process T E M p job) w")
      case (Err e')
      with e False wordedD [OF worded_process Err] show ?thesis
        by (auto simp: Processor_Run_def split_beta split: res.splits)
    next
      case (Ok x)
      have "worded (attempt (wrap ''processing succeeded but could not mark completed: ''
          (deref (pr_JobService p) (\<lambda>S. MarkCompleted S (job_ID job)))) (\<lambda>_. ret (Ok ())))"
        by (intro worded_attempt worded_wrap worded_ret) simp_all
      with e False Ok show ?thesis by (auto simp: Processor_Run_def split_beta dest: wordedD)
    next
      case Panic
      with e False show ?thesis by (simp add: Processor_Run_def split_beta)
    qed
  qed
qed

text \<open>Errors from outside that the code passes on unwrapped have to carry a text too, as
  \<^verbatim>\<open>Error()\<close> of Go's errors does: the code takes the empty text for success.\<close>

definition speaking :: "'w lib \<Rightarrow> 'w gorm \<Rightarrow> bool" where
  "speaking L G \<longleftrightarrow> (\<forall>j x e. fst (gorm_create_job G j x) = Inl e \<longrightarrow> err_text e \<noteq> '''') \<and>
     (\<forall>j e. lib_validate_job L j = Some e \<longrightarrow> err_text e \<noteq> '''')"

lemma worded_CreatePendingJob:
  assumes "speaking L G"
  shows "worded (CreatePendingJob L (gorm_service L G) vid out)"
proof -
  have "worded (VideoRepositoryDb_Find G vid)"
    by (auto simp: worded_def exec_simps Let_def not_found_as_iff)
  moreover have "worded (silently (NewJob L out JobStatusPending (Some v)))" for v
    using assms NewJob_Err [of L out JobStatusPending "Some v"]
    by (fastforce simp: worded_def speaking_def run_silently)
  moreover have "worded (JobRepositoryDb_Insert G j)" for j
    using assms by (auto simp: worded_def speaking_def exec_simps Let_def)
  ultimately show ?thesis by (simp add: CreatePendingJob_def worded_attempt)
qed

text \<open>The cases of a payload, for a processor that is enabled.\<close>

lemma processPayload_cases:
  assumes "val (processPayload L T E M payload (Some S) (Some p)) w = Ok r" "Enabled (Some p)"
  obtains (bad) e where "parseJobWorkerMessage payload = Err e" "res_Error r = err_text e" "res_Job r = None"
      "post (processPayload L T E M payload (Some S) (Some p)) w = w"
  | (refused) m e where "parseJobWorkerMessage payload = Ok m"
      "val (CreatePendingJob L S (jwm_VideoID m) (jwm_OutputBucketPath m)) w = Err e"
      "res_Error r = err_text e" "res_Job r = None"
  | (failed) m j e where "parseJobWorkerMessage payload = Ok m"
      "val (CreatePendingJob L S (jwm_VideoID m) (jwm_OutputBucketPath m)) w = Ok j"
      "val (Processor_Run T E M p (Some j)) (post (CreatePendingJob L S (jwm_VideoID m) (jwm_OutputBucketPath m)) w) = Err e"
      "res_Error r = err_text e" "res_Job r = Some j"
  | (completed) m j where "parseJobWorkerMessage payload = Ok m"
      "val (CreatePendingJob L S (jwm_VideoID m) (jwm_OutputBucketPath m)) w = Ok j"
      "val (Processor_Run T E M p (Some j)) (post (CreatePendingJob L S (jwm_VideoID m) (jwm_OutputBucketPath m)) w) = Ok ()"
      "res_Error r = ''''" "res_Job r = Some (j\<lparr>job_Status := JobStatusCompleted\<rparr>)"
      "post (processPayload L T E M payload (Some S) (Some p)) w = post (Processor_Run T E M p (Some j))
         (post (CreatePendingJob L S (jwm_VideoID m) (jwm_OutputBucketPath m)) w)"
  using assms
  by (auto simp: processPayload_def Let_def split_beta split: res.splits)


section \<open>Concrete payloads\<close>

text \<open>A payload for the stored video, and the job the worker makes of it.\<close>

definition demo_payload :: string where
  "demo_payload = marshal (jwm_members \<lparr>jwm_VideoID = demo_id, jwm_OutputBucketPath = ''out''\<rparr>)"

lemma valid_utf8_ascii: "list_all (\<lambda>c. byte c < 128) s \<Longrightarrow> valid_utf8 s"
  by (induction s) (auto intro: valid_utf8_Cons valid_utf8.empty)

lemma demo_payload_parse:
  "parseJobWorkerMessage demo_payload = Ok \<lparr>jwm_VideoID = demo_id, jwm_OutputBucketPath = ''out''\<rparr>"
  unfolding demo_payload_def by (intro parse_marshal) (simp_all add: demo_id_def valid_utf8_ascii)

lemmas demo_create_defs = CreatePendingJob_def exec_simps Let_def split_beta mem_gorm_def faulty_def demo_defs
  mem_video_def mem_jobs_of_def not_found_as_def NewJob_def prepare_def Job_Validate_def mem_lib_def mem_job_def
  mem_fk_def demo_job_def

lemma demo_create:
  "val (CreatePendingJob mem_lib (gorm_service mem_lib mem_gorm) demo_id ''out'') demo_world =
     Ok (demo_job\<lparr>job_OutputBucketPath := ''out'', job_CreatedAt := 100, job_UpdatedAt := 101\<rparr>)"
  by (simp add: demo_create_defs)

text \<open>The world after it.\<close>

lemma demo_created:
  "mem_faults (ext (post (CreatePendingJob mem_lib (gorm_service mem_lib mem_gorm) demo_id ''out'') demo_world)) = []"
  "mm_faults (ext (post (CreatePendingJob mem_lib (gorm_service mem_lib mem_gorm) demo_id ''out'') demo_world)) = []"
  "mm_tree (ext (post (CreatePendingJob mem_lib (gorm_service mem_lib mem_gorm) demo_id ''out'') demo_world)) = Inr demo_tree"
  "\<exists>r. mem_job (ext (post (CreatePendingJob mem_lib (gorm_service mem_lib mem_gorm) demo_id ''out'') demo_world)) demo_job_id = Some r"
  by (simp_all add: demo_create_defs mem_put_def)


section \<open>Properties\<close>

text \<open>
  C20: The encoding of a job message is read back by the worker: for every message with non-empty
  fields in well-formed UTF-8, parsing what \<^verbatim>\<open>json.Marshal\<close> writes gives the message again, with all
  the characters that JSON or HTML escape.
\<close>

theorem message_roundtrip:
  assumes "valid_utf8 (jwm_VideoID m)" "valid_utf8 (jwm_OutputBucketPath m)"
    "jwm_VideoID m \<noteq> ''''" "jwm_OutputBucketPath m \<noteq> ''''"
  shows "parseJobWorkerMessage (marshal (jwm_members m)) = Ok m"
  by (rule parse_marshal [OF assms])

theorem message_roundtrip_witness:
  "parseJobWorkerMessage (marshal (jwm_members
     \<lparr>jwm_VideoID = ''7d9b'', jwm_OutputBucketPath = [CHR ''a'', CHR 0x22, CHR ''<'', CHR 0x0A, CHR 0xC3, CHR 0xA9]\<rparr>)) =
   Ok \<lparr>jwm_VideoID = ''7d9b'', jwm_OutputBucketPath = [CHR ''a'', CHR 0x22, CHR ''<'', CHR 0x0A, CHR 0xC3, CHR 0xA9]\<rparr>"
proof -
  have two: "valid_utf8 [CHR 0xC3, CHR 0xA9]"
    by (rule valid_utf8_rune) (simp add: is_rune_def rune_len_def is_cont_def)
  have "valid_utf8 [CHR ''a'', CHR 0x22, CHR ''<'', CHR 0x0A, CHR 0xC3, CHR 0xA9]"
    by (intro valid_utf8_Cons two) simp_all
  moreover have "valid_utf8 ''7d9b''" by (intro valid_utf8_Cons valid_utf8.empty) simp_all
  ultimately show ?thesis by (intro message_roundtrip) simp_all
qed

text \<open>
  C21: A message the worker accepts has both fields, in well-formed UTF-8; a payload it does not
  accept (not JSON, not an object, a field of another type, a field missing or empty) causes no
  call at all, and its result carries the reason.
\<close>

theorem bad_payload_no_effect:
  "(\<forall>m. parseJobWorkerMessage payload = Ok m \<longrightarrow>
      jwm_VideoID m \<noteq> '''' \<and> jwm_OutputBucketPath m \<noteq> '''' \<and>
      valid_utf8 (jwm_VideoID m) \<and> valid_utf8 (jwm_OutputBucketPath m)) \<and>
   (\<forall>e. parseJobWorkerMessage payload = Err e \<longrightarrow>
      run_state (processPayload L T E M payload S P) w =
        (Ok \<lparr>res_Job = None, res_Payload = payload, res_Error = err_text e\<rparr>, w) \<and> err_text e \<noteq> '''')"
  using parse_Ok [of payload] parse_Err_text [of payload] by (auto simp: processPayload_def Let_def)

theorem bad_payload_no_effect_witness:
  "run_state (processPayload mem_lib mem_runtime demo_env mem_media ''{}'' (Some demo_service) None) (demo_run_world []) =
     (Ok \<lparr>res_Job = None, res_Payload = ''{}'', res_Error = ''video_id is required''\<rparr>, demo_run_world [])"
proof -
  have "parseJobWorkerMessage ''{}'' = Err (ErrText ''video_id is required'')" by code_simp
  then show ?thesis
    using bad_payload_no_effect [of "''{}''" mem_lib mem_runtime demo_env mem_media "Some demo_service" None "demo_run_world []"]
    by simp
qed

text \<open>
  C22: A worker settles every delivery it receives exactly once, in the order it received them: it
  acknowledges the delivery alone when its result carries no error and otherwise rejects it
  without requeueing, so the broker dead-letters it. The worker neither panics nor stops early.
\<close>

theorem worker_settles_each_once:
  assumes "store_contract G jobs videos L" "configured L G P" "0 < rt_numcpu T"
  shows "\<exists>rs. val (JobWorker L T E M (deliveries A ds) (Some (gorm_service L G)) P) w = Ok rs \<and>
    map res_Payload rs = map snd ds \<and>
    settled (events (JobWorker L T E M (deliveries A ds) (Some (gorm_service L G)) P) w) =
      map2 (\<lambda>d r. if res_Error r = '''' then Acked (fst d) False else Nacked (fst d) False False) ds rs"
proof -
  obtain rs es where "val (JobWorker L T E M (deliveries A ds) (Some (gorm_service L G)) P) w = Ok rs"
    "log (post (JobWorker L T E M (deliveries A ds) (Some (gorm_service L G)) P) w) = log w @ es"
    "map res_Payload rs = map snd ds" "settled es = map2 (\<lambda>d r. settlement_of (fst d) r) ds rs"
    using JobWorker_run [OF assms] by blast
  then show ?thesis by (simp add: events_eqI settlement_of_def)
qed

theorem worker_settles_each_once_witness:
  "\<exists>rs. val (JobWorker mem_lib mem_runtime demo_env mem_media (deliveries mem_amqp [(1, ''{}''), (2, ''x'')])
        (Some (gorm_service mem_lib mem_gorm)) (Some demo_processor)) (demo_run_world []) = Ok rs \<and>
    map res_Payload rs = [''{}'', ''x''] \<and> length (settled (events (JobWorker mem_lib mem_runtime demo_env mem_media
      (deliveries mem_amqp [(1, ''{}''), (2, ''x'')])
        (Some (gorm_service mem_lib mem_gorm)) (Some demo_processor)) (demo_run_world []))) = 2"
proof -
  have conf: "configured mem_lib mem_gorm (Some demo_processor)"
    by (simp add: configured_def)
  obtain rs where rs: "val (JobWorker mem_lib mem_runtime demo_env mem_media (deliveries mem_amqp [(1, ''{}''), (2, ''x'')])
        (Some (gorm_service mem_lib mem_gorm)) (Some demo_processor)) (demo_run_world []) = Ok rs"
      "map res_Payload rs = [''{}'', ''x'']"
      "settled (events (JobWorker mem_lib mem_runtime demo_env mem_media (deliveries mem_amqp [(1, ''{}''), (2, ''x'')])
        (Some (gorm_service mem_lib mem_gorm)) (Some demo_processor)) (demo_run_world [])) =
       map2 (\<lambda>d r. if res_Error r = [] then Acked (fst d) False else Nacked (fst d) False False)
         [(1, ''{}''), (2, ''x'')] rs"
    using worker_settles_each_once [OF mem.store_contract_axioms conf demo_cpu,
        of demo_env mem_media mem_amqp "[(1, ''{}''), (2, ''x'')]" "demo_run_world []"] by auto
  have "length rs = 2" using rs(2) by (metis length_map length_Cons list.size(3) numeral_2_eq_2)
  then show ?thesis using rs by simp
qed

text \<open>
  A message is acknowledged only for finished work. When the processor is enabled and a payload
  is processed with an empty error, which is when the worker acknowledges it, the jobs table holds
  a row that was not there before, with the status \<^verbatim>\<open>Completed\<close>, no error, and the video and the
  output path of the message.
\<close>

theorem acknowledged_is_completed:
  assumes store: "store_contract G jobs videos L" and media: "media_contract T M jobs"
    and speak: "speaking L G" and S: "pr_JobService p = Some (gorm_service L G)"
    and enabled: "Enabled (Some p)" and cpu: "0 < rt_numcpu T"
    and ok: "val (processPayload L T E M payload (Some (gorm_service L G)) (Some p)) w = Ok r"
    and ack: "res_Error r = ''''"
  shows "\<exists>m j row. parseJobWorkerMessage payload = Ok m \<and> res_Job r = Some j \<and>
    jobs (ext w) (job_ID j) = None \<and>
    jobs (ext (post (processPayload L T E M payload (Some (gorm_service L G)) (Some p)) w)) (job_ID j) = Some row \<and>
    job_Status row = JobStatusCompleted \<and> job_Error row = '''' \<and>
    job_VideoID row = jwm_VideoID m \<and> job_OutputBucketPath row = jwm_OutputBucketPath m"
  using ok enabled
proof (cases rule: processPayload_cases)
  case (bad e)
  then show ?thesis using ack parse_Err_text [OF bad(1)] by simp
next
  case (refused m e)
  then show ?thesis using ack wordedD [OF worded_CreatePendingJob [OF speak] refused(2)] by simp
next
  case (failed m j e)
  then show ?thesis using ack wordedD [OF worded_Run failed(3)] by simp
next
  case (completed m j)
  let ?w1 = "post (CreatePendingJob L (gorm_service L G) (jwm_VideoID m) (jwm_OutputBucketPath m)) w"
  note new = job_service_contract.CreatePendingJob_Ok [OF store_contract.is_service [OF store]
      gorm_service_sel(1) gorm_service_sel(2) completed(2)]
  obtain v where v: "job_Video j = Some v" using new(7) by blast
  from Run_effect [OF store media S v cpu, of E ?w1] completed(3) new(2-6)
  show ?thesis using completed new(1) by auto
qed

theorem acknowledged_is_completed_witness:
  "\<exists>row. mem_job (ext (post (processPayload mem_lib mem_runtime demo_env mem_media demo_payload
       (Some (gorm_service mem_lib mem_gorm)) (Some demo_processor)) demo_world)) demo_job_id = Some row \<and>
     job_Status row = ''Completed'' \<and> job_VideoID row = demo_id \<and> job_OutputBucketPath row = ''out''"
proof -
  let ?j = "demo_job\<lparr>job_OutputBucketPath := ''out'', job_CreatedAt := 100, job_UpdatedAt := 101\<rparr>"
  let ?p = "processPayload mem_lib mem_runtime demo_env mem_media demo_payload
       (Some (gorm_service mem_lib mem_gorm)) (Some demo_processor)"
  let ?r = "\<lparr>res_Job = Some (?j\<lparr>job_Status := JobStatusCompleted\<rparr>), res_Payload = demo_payload, res_Error = ''''\<rparr>"
  have speak: "speaking mem_lib mem_gorm"
    by (auto simp: speaking_def mem_lib_def mem_gorm_def faulty_def mem_down_def Let_def split: if_splits)
  have en: "Enabled (Some demo_processor)"
    by (simp add: Enabled_def demo_processor_def NewProcessorFromEnv_def demo_env_def)
  have run: "val (Processor_Run mem_runtime demo_env mem_media demo_processor (Some ?j))
      (post (CreatePendingJob mem_lib (gorm_service mem_lib mem_gorm) demo_id ''out'') demo_world) = Ok ()"
  proof -
    obtain r where "mem_job (ext (post (CreatePendingJob mem_lib (gorm_service mem_lib mem_gorm) demo_id ''out'')
        demo_world)) demo_job_id = Some r"
      using demo_created(4) by blast
    then show ?thesis
      using demo_created(1-3) by (intro mem_Run_Ok [where v = demo_video and r = r]) simp_all
  qed
  have ok: "val ?p demo_world = Ok ?r"
    using run en by (simp add: processPayload_def Let_def demo_payload_parse demo_create split_beta)
  show ?thesis
    using acknowledged_is_completed [OF mem.store_contract_axioms mm.media_contract_axioms speak
        demo_processor_sel en demo_cpu ok] demo_payload_parse
    by (auto simp: JobStatusCompleted_def)
qed

text \<open>
  Without a configured processor the worker only queues: an accepted payload leaves a new row
  with the status \<^verbatim>\<open>Pending\<close>, no storage call is made, and the result reports that job.
\<close>

theorem disabled_worker_only_queues:
  assumes store: "store_contract G jobs videos L" and disabled: "\<not> Enabled P"
    and ok: "val (processPayload L T E M payload (Some (gorm_service L G)) P) w = Ok r"
    and job: "res_Job r = Some j"
  shows "res_Error r = '''' \<and>
    list_all is_db (events (processPayload L T E M payload (Some (gorm_service L G)) P) w) \<and>
    status_writes (events (processPayload L T E M payload (Some (gorm_service L G)) P) w) = [] \<and>
    jobs (ext w) (job_ID j) = None \<and>
    jobs (ext (post (processPayload L T E M payload (Some (gorm_service L G)) P) w)) =
      (jobs (ext w))(job_ID j \<mapsto> row_of j) \<and>
    job_Status j = JobStatusPending"
proof -
  obtain m where m: "parseJobWorkerMessage payload = Ok m"
    using ok job by (auto simp: processPayload_def Let_def split: res.splits)
  let ?c = "CreatePendingJob L (gorm_service L G) (jwm_VideoID m) (jwm_OutputBucketPath m)"
  have c: "val ?c w = Ok j" "res_Error r = ''''"
      "post (processPayload L T E M payload (Some (gorm_service L G)) P) w = post ?c w"
    using ok job m disabled by (auto simp: processPayload_def Let_def split_beta split: res.splits)
  note new = job_service_contract.CreatePendingJob_Ok [OF store_contract.is_service [OF store]
      gorm_service_sel(1) gorm_service_sel(2) c(1)]
  have ev: "events (processPayload L T E M payload (Some (gorm_service L G)) P) w = events ?c w"
    using c(3) by (simp add: events_def)
  have "status_writes (events ?c w) = []"
    by (auto simp: CreatePendingJob_def exec_simps Let_def split_beta events_def split: res.split)
  then show ?thesis
    using c new ev emits_events [OF emits_CreatePendingJob, of L G "jwm_VideoID m" "jwm_OutputBucketPath m" w]
    by simp
qed

theorem disabled_worker_only_queues_witness:
  "\<exists>j. mem_job (ext (post (processPayload mem_lib mem_runtime demo_env mem_media demo_payload
       (Some (gorm_service mem_lib mem_gorm)) None) demo_world)) demo_job_id = Some j \<and> job_Status j = ''Pending''"
proof -
  let ?j = "demo_job\<lparr>job_OutputBucketPath := ''out'', job_CreatedAt := 100, job_UpdatedAt := 101\<rparr>"
  let ?r = "\<lparr>res_Job = Some ?j, res_Payload = demo_payload, res_Error = ''''\<rparr>"
  have "\<not> Enabled (None :: memworld processor option)" by (simp add: Enabled_def)
  moreover have "val (processPayload mem_lib mem_runtime demo_env mem_media demo_payload
       (Some (gorm_service mem_lib mem_gorm)) None) demo_world = Ok ?r"
    by (simp add: processPayload_def Let_def demo_payload_parse demo_create split_beta Enabled_def)
  ultimately show ?thesis
    using disabled_worker_only_queues [OF mem.store_contract_axioms, of None mem_runtime demo_env mem_media
        demo_payload demo_world ?r ?j]
    by (simp add: JobStatusPending_def)
qed

end
