(* ===== verification/Stages.thy ===== *)
theory Stages
  imports Worker
begin

text \<open>
  The processing of one payload in stages, so that several workers can interleave between them: the
  creation of the job, the three status writes and the media pipeline. Run one after the other the
  stages are \<^verbatim>\<open>processPayload\<close>.
\<close>

section \<open>The stages\<close>

text \<open>What a worker does next for its payload: parse it and create its job, mark the job as processing, run
  the pipeline, and record the end, good or bad.\<close>

datatype stage =
    Begin
  | Marking job
  | Rendering job
  | Completing job
  | Failing job err

definition stage_step ::
  "'w lib \<Rightarrow> 'w runtime \<Rightarrow> environ \<Rightarrow> 'w media \<Rightarrow> 'w job_service option \<Rightarrow> 'w processor option \<Rightarrow> string \<Rightarrow>
    stage \<Rightarrow> ('w, (stage + job_worker_result) res) io" where
  "stage_step L T E M jobService processor payload st =
     (let result = \<lparr>res_Job = None, res_Payload = payload, res_Error = ''''\<rparr> in
      case st of
        Begin \<Rightarrow> (case parseJobWorkerMessage payload of
            Err e \<Rightarrow> ret (Ok (Inr (result\<lparr>res_Error := err_text e\<rparr>)))
          | Panic \<Rightarrow> ret Panic
          | Ok message \<Rightarrow> do {
              r \<leftarrow> deref jobService (\<lambda>S. CreatePendingJob L S (jwm_VideoID message) (jwm_OutputBucketPath message));
              ret (case r of
                  Err e \<Rightarrow> Ok (Inr (result\<lparr>res_Error := err_text e\<rparr>))
                | Panic \<Rightarrow> Panic
                | Ok job \<Rightarrow>
                    if Enabled processor then
                      if job_Video job = None
                      then Ok (Inr (result\<lparr>res_Job := Some job, res_Error := ''processor requires a job with a loaded video''\<rparr>))
                      else Ok (Inl (Marking job))
                    else Ok (Inr (result\<lparr>res_Job := Some job\<rparr>)))
            })
      | Marking job \<Rightarrow> do {
          r \<leftarrow> deref processor (\<lambda>P. deref (pr_JobService P) (\<lambda>S.
            wrap ''mark processing: '' (MarkProcessing S (job_ID job))));
          ret (case r of Err e \<Rightarrow> Ok (Inl (Failing job e)) | Panic \<Rightarrow> Panic | Ok _ \<Rightarrow> Ok (Inl (Rendering job)))
        }
      | Rendering job \<Rightarrow> do {
          r \<leftarrow> deref processor (\<lambda>P. pipeline T E M P job);
          ret (case r of Err e \<Rightarrow> Ok (Inl (Failing job e)) | Panic \<Rightarrow> Panic | Ok _ \<Rightarrow> Ok (Inl (Completing job)))
        }
      | Completing job \<Rightarrow> do {
          r \<leftarrow> wrap ''processing succeeded but could not mark completed: '' (deref processor (\<lambda>P.
            deref (pr_JobService P) (\<lambda>S. MarkCompleted S (job_ID job))));
          ret (case r of
              Err e \<Rightarrow> Ok (Inr (result\<lparr>res_Job := Some job, res_Error := err_text e\<rparr>))
            | Panic \<Rightarrow> Panic
            | Ok _ \<Rightarrow> Ok (Inr (result\<lparr>res_Job := Some (job\<lparr>job_Status := JobStatusCompleted\<rparr>)\<rparr>)))
        }
      | Failing job err \<Rightarrow> do {
          m \<leftarrow> deref processor (\<lambda>P. deref (pr_JobService P) (\<lambda>S. MarkFailed S (job_ID job) (Some err)));
          ret (case m of
              Err markErr \<Rightarrow> Ok (Inr (result\<lparr>res_Job := Some job, res_Error := ''processing failed: '' @ err_text err @
                '' (also could not mark job failed: '' @ err_text markErr @ '')''\<rparr>))
            | Panic \<Rightarrow> Panic
            | Ok _ \<Rightarrow> Ok (Inr (result\<lparr>res_Job := Some job, res_Error := err_text err\<rparr>)))
        })"

primrec stages_left :: "stage \<Rightarrow> nat" where
  "stages_left Begin = 4"
| "stages_left (Marking j) = 3"
| "stages_left (Rendering j) = 2"
| "stages_left (Completing j) = 1"
| "stages_left (Failing j e) = 1"

text \<open>All stages of a payload in a row.\<close>

primrec run_stages :: "(stage \<Rightarrow> ('w, (stage + 'r) res) io) \<Rightarrow> nat \<Rightarrow> stage \<Rightarrow> ('w, 'r res) io" where
  "run_stages step 0 st = ret Panic"
| "run_stages step (Suc n) st = do {
     r \<leftarrow> step st;
     case r of
       Err e \<Rightarrow> ret (Err e)
     | Panic \<Rightarrow> ret Panic
     | Ok x \<Rightarrow> (case x of Inl st' \<Rightarrow> run_stages step n st' | Inr y \<Rightarrow> ret (Ok y))
   }"

lemma run_stages_simps [simp]:
  "run_state (run_stages step (Suc n) st) w =
     (case val (step st) w of
        Err e \<Rightarrow> (Err e, post (step st) w)
      | Panic \<Rightarrow> (Panic, post (step st) w)
      | Ok x \<Rightarrow> (case x of Inl st' \<Rightarrow> run_state (run_stages step n st') (post (step st) w) | Inr y \<Rightarrow> (Ok y, post (step st) w)))"
  by (simp add: split_beta split: res.split sum.split)

declare run_stages.simps(2) [simp del]

text \<open>The tail of the stages is \<^verbatim>\<open>Processor.Run\<close> with what \<^verbatim>\<open>processPayload\<close> makes of its outcome.\<close>

definition reported :: "string \<Rightarrow> job \<Rightarrow> unit res \<Rightarrow> job_worker_result res" where
  "reported payload job r = (case r of
       Err e \<Rightarrow> Ok \<lparr>res_Job = Some job, res_Payload = payload, res_Error = err_text e\<rparr>
     | Panic \<Rightarrow> Panic
     | Ok _ \<Rightarrow> Ok \<lparr>res_Job = Some (job\<lparr>job_Status := JobStatusCompleted\<rparr>), res_Payload = payload, res_Error = ''''\<rparr>)"

lemma run_from_Completing:
  "run_state (run_stages (stage_step L T E M S (Some p) payload) (Suc n) (Completing job)) w =
    (let m = wrap ''processing succeeded but could not mark completed: '' (deref (pr_JobService p) (\<lambda>S. MarkCompleted S (job_ID job)))
     in (reported payload job (case val m w of Ok _ \<Rightarrow> Ok () | Err e \<Rightarrow> Err e | Panic \<Rightarrow> Panic), post m w))"
  by (simp add: stage_step_def reported_def Let_def split_beta split: res.split)

lemma run_from_Failing:
  "run_state (run_stages (stage_step L T E M S (Some p) payload) (Suc n) (Failing job err)) w =
    (let m = deref (pr_JobService p) (\<lambda>S. MarkFailed S (job_ID job) (Some err))
     in (reported payload job (case val m w of
           Ok _ \<Rightarrow> Err err
         | Err markErr \<Rightarrow> Err (ErrText (''processing failed: '' @ err_text err @
             '' (also could not mark job failed: '' @ err_text markErr @ '')''))
         | Panic \<Rightarrow> Panic), post m w))"
  by (simp add: stage_step_def reported_def Let_def split_beta split: res.split)

lemma run_Marking:
  "run_state (stage_step L T E M S (Some p) payload (Marking job)) w =
    (let m = deref (pr_JobService p) (\<lambda>S. wrap ''mark processing: '' (MarkProcessing S (job_ID job)))
     in (case val m w of Err e \<Rightarrow> Ok (Inl (Failing job e)) | Panic \<Rightarrow> Panic | Ok _ \<Rightarrow> Ok (Inl (Rendering job)), post m w))"
  by (simp add: stage_step_def Let_def split_beta)

lemma run_Rendering:
  "run_state (stage_step L T E M S (Some p) payload (Rendering job)) w =
    (case val (pipeline T E M p job) w of Err e \<Rightarrow> Ok (Inl (Failing job e)) | Panic \<Rightarrow> Panic | Ok _ \<Rightarrow> Ok (Inl (Completing job)),
     post (pipeline T E M p job) w)"
  by (simp add: stage_step_def Let_def split_beta)

lemma run_from_Marking:
  assumes "job_Video job \<noteq> None"
  shows "run_state (run_stages (stage_step L T E M S (Some p) payload) (Suc (Suc (Suc 0))) (Marking job)) w =
    (let m = Processor_Run T E M p (Some job) in (reported payload job (val m w), post m w))"
proof (cases "pr_JobService p")
  case None
  then show ?thesis
    using assms by (simp add: run_Marking Processor_Run_def process_pipeline reported_def)
next
  case (Some S')
  let ?w1 = "post (MarkProcessing S' (job_ID job)) w"
  note stages = run_stages_simps [of _ "Suc (Suc 0)" "Marking job"] run_stages_simps [of _ "Suc 0" "Rendering job"]
    run_Marking run_Rendering run_from_Completing run_from_Failing
  note whole = Processor_Run_def process_world [OF Some] run_wrap run_attempt reported_def
  show ?thesis
    using assms Some
    by (cases "val (MarkProcessing S' (job_ID job)) w"; cases "val (pipeline T E M p job) ?w1")
       (auto simp: stages whole split_beta Let_def simp del: run_stages_simps split: res.split)
qed

lemma Enabled_None [simp]: "\<not> Enabled None"
  by (simp add: Enabled_def)

text \<open>The stages in a row are the code of the worker.\<close>

lemma run_stages_Begin:
  "run_stages (stage_step L T E M S P payload) (stages_left Begin) Begin = processPayload L T E M payload S P"
proof (rule state.expand, rule ext)
  fix w
  let ?step = "stage_step L T E M S P payload"
  show "run_state (run_stages ?step (stages_left Begin) Begin) w = run_state (processPayload L T E M payload S P) w"
  proof (cases "parseJobWorkerMessage payload")
    case (Ok m)
    let ?c = "deref S (\<lambda>S. CreatePendingJob L S (jwm_VideoID m) (jwm_OutputBucketPath m))"
    show ?thesis
    proof (cases "val ?c w")
      case job: (Ok j)
      show ?thesis
      proof (cases "Enabled P \<and> job_Video j \<noteq> None")
        case True
        then obtain p where p: "P = Some p" by (cases P) (auto simp: Enabled_def)
        have "val (?step Begin) w = Ok (Inl (Marking j))" "post (?step Begin) w = post ?c w"
          using Ok job True by (simp_all add: stage_step_def Let_def split_beta)
        moreover have four: "stages_left Begin = Suc (Suc (Suc (Suc 0)))" by simp
        ultimately show ?thesis
          unfolding four
          using Ok job True run_from_Marking [of j L T E M S p payload "post ?c w"] p
          by (simp add: processPayload_def Let_def split_beta reported_def del: run_stages_simps
              add: run_stages_simps [of _ "Suc (Suc (Suc 0))" Begin] split: res.split)
      next
        case False
        then show ?thesis
          using Ok job by (cases P) (auto simp: stage_step_def processPayload_def Processor_Run_def Let_def split_beta numeral_eq_Suc)
      qed
    qed (use Ok in \<open>simp_all add: stage_step_def processPayload_def Let_def split_beta numeral_eq_Suc\<close>)
  qed (simp_all add: stage_step_def processPayload_def Let_def numeral_eq_Suc)
qed


section \<open>Property\<close>


end
