(* ===== verification/Http.thy ===== *)
theory Http
  imports Go_Path Go_Json Go_Time World
begin

text \<open>
  What \<^verbatim>\<open>internal/api\<close> uses of the standard library: requests and response writers, the limit of
  \<^verbatim>\<open>http.MaxBytesReader\<close>, the streaming decoder and the encoder of \<^verbatim>\<open>encoding/json\<close>, the RFC 3339 form
  of a time, and the patterns of \<^verbatim>\<open>http.ServeMux\<close>. A request carries the bytes of its body that
  arrive, and whether the connection breaks after them; its path has no percent escapes.
\<close>

section \<open>Requests and responses\<close>

record request =
  rq_Method :: string
  rq_Path :: string
  rq_id :: string
  rq_Body :: string
  rq_broken :: bool

text \<open>A response writer with every status given to \<^verbatim>\<open>WriteHeader\<close>; the first one is sent.\<close>

record response_writer =
  rw_ContentType :: string
  rw_codes :: "nat list"
  rw_body :: string

definition new_writer :: response_writer where
  "new_writer = \<lparr>rw_ContentType = '''', rw_codes = [], rw_body = ''''\<rparr>"

text \<open>The status the client sees: 200 when \<^verbatim>\<open>WriteHeader\<close> was never called.\<close>

definition sent_status :: "'a response_writer_scheme \<Rightarrow> nat" where
  "sent_status w = (case rw_codes w of [] \<Rightarrow> 200 | c # _ \<Rightarrow> c)"


section \<open>Times\<close>

text \<open>The civil date of a day counted from 1970-01-01.\<close>

definition civil_of_days :: "int \<Rightarrow> int \<times> int \<times> int" where
  "civil_of_days z0 =
     (let z = z0 + 719468; era = z div 146097; doe = z mod 146097;
          yoe = (doe - doe div 1460 + doe div 36524 - doe div 146096) div 365;
          doy = doe - (365 * yoe + yoe div 4 - yoe div 100);
          mp = (5 * doy + 2) div 153;
          d = doy - (153 * mp + 2) div 5 + 1;
          m = (if mp < 10 then mp + 3 else mp - 9)
      in (yoe + era * 400 + (if m \<le> 2 then 1 else 0), m, d))"

definition digit :: "int \<Rightarrow> char" where
  "digit n = char_of (48 + nat (n mod 10))"

definition two_digits :: "int \<Rightarrow> string" where
  "two_digits n = [digit (n div 10), digit n]"

definition four_digits :: "int \<Rightarrow> string" where
  "four_digits n = two_digits (n div 100) @ two_digits (n mod 100)"

fun fraction_digits :: "nat \<Rightarrow> int \<Rightarrow> string" where
  "fraction_digits 0 n = []"
| "fraction_digits (Suc k) n = digit (n div 10 ^ k) # fraction_digits k (n mod 10 ^ k)"

text \<open>Nanoseconds without trailing zeros.\<close>

definition fraction :: "int \<Rightarrow> string" where
  "fraction n = (if n = 0 then []
     else CHR ''.'' # rev (dropWhile (\<lambda>c. c = CHR ''0'') (rev (fraction_digits 9 n))))"

text \<open>\<^verbatim>\<open>time.Time.MarshalJSON\<close>: RFC 3339 with the offset from UTC in seconds that the zone has at that
  time; it fails when the year does not have four digits or the offset a whole day or more.\<close>

definition rfc3339 :: "(time \<Rightarrow> int) \<Rightarrow> time \<Rightarrow> string option" where
  "rfc3339 zone t =
     (let off = zone t; s = t div 1000000000 + off; (y, m, d) = civil_of_days (s div 86400);
          r = s mod 86400; o' = \<bar>off\<bar> div 60
      in if y < 0 \<or> 9999 < y \<or> 24 * 60 \<le> o' then None
         else Some (four_digits y @ ''-'' @ two_digits m @ ''-'' @ two_digits d @ ''T'' @
           two_digits (r div 3600) @ '':'' @ two_digits (r div 60 mod 60) @ '':'' @ two_digits (r mod 60) @
           fraction (t mod 1000000000) @
           (if o' = 0 then ''Z''
            else (if off < 0 then ''-'' else ''+'') @ two_digits (o' div 60) @ '':'' @ two_digits (o' mod 60))))"

lemma rfc3339_examples:
  "rfc3339 (\<lambda>_. 0) 0 = Some ''1970-01-01T00:00:00Z''"
  "rfc3339 (\<lambda>_. 7200) 1709164800500000000 = Some ''2024-02-29T02:00:00.5+02:00''"
  by code_simp+


section \<open>Encoding\<close>

datatype jvalue = VStr string | VTime time | VArr "jvalue list" | VObj "(string \<times> jvalue) list"

fun encode :: "(time \<Rightarrow> string option) \<Rightarrow> jvalue \<Rightarrow> string option"
and encode_elems :: "(time \<Rightarrow> string option) \<Rightarrow> jvalue list \<Rightarrow> string option"
and encode_members :: "(time \<Rightarrow> string option) \<Rightarrow> (string \<times> jvalue) list \<Rightarrow> string option" where
  "encode F (VStr s) = Some (quote_char # quote s @ [quote_char])"
| "encode F (VTime t) = map_option (\<lambda>s. quote_char # s @ [quote_char]) (F t)"
| "encode F (VArr vs) = map_option (\<lambda>s. CHR ''['' # s @ '']'') (encode_elems F vs)"
| "encode F (VObj ms) = map_option (\<lambda>s. CHR ''{'' # s @ ''}'') (encode_members F ms)"
| "encode_elems F [] = Some []"
| "encode_elems F (v # vs) = (case (encode F v, encode_elems F vs) of
       (Some s, Some t) \<Rightarrow> Some (if vs = [] then s else s @ CHR '','' # t) | _ \<Rightarrow> None)"
| "encode_members F [] = Some []"
| "encode_members F ((k, v) # ms) = (case (encode F v, encode_members F ms) of
       (Some s, Some t) \<Rightarrow>
         Some (quote_char # k @ quote_char # CHR '':'' # s @ (if ms = [] then [] else CHR '','' # t))
     | _ \<Rightarrow> None)"

definition strings :: "(string \<times> string) list \<Rightarrow> jvalue" where
  "strings ms = VObj (map (\<lambda>(k, s). (k, VStr s)) ms)"

text \<open>A struct of strings is encoded as \<^verbatim>\<open>json.Marshal\<close> does.\<close>

lemma encode_strings: "encode F (strings ms) = Some (marshal ms)"
proof -
  have "encode_members F (map (\<lambda>(k, s). (k, VStr s)) ms) = Some (marshal_members ms)"
    by (induction ms rule: marshal_members.induct) auto
  then show ?thesis by (simp add: strings_def marshal_def)
qed


section \<open>Decoding a request body\<close>

definition maxBodyBytes :: nat where "maxBodyBytes = 2 ^ 20"

datatype decode_error = TooLarge | BadBody

text \<open>
  \<^verbatim>\<open>Decoder.Decode\<close> with unknown fields disallowed, reading through the limit: the scanner takes the
  bytes up to the limit; when it needs more than those, the error of the reader decides. The result
  is the fields and the bytes within the limit that are left.
\<close>

definition Decode :: "string list \<Rightarrow> request \<Rightarrow> decode_error + fields \<times> string" where
  "Decode fs r =
     (let buf = take maxBodyBytes (rq_Body r); over = length (rq_Body r) > maxBodyBytes;
          decode = (\<lambda>v rest. case decode_struct True fs v of
            (f, None) \<Rightarrow> Inr (f, rest) | (f, Some e) \<Rightarrow> Inl BadBody)
      in case scan_json buf of
           Malformed \<Rightarrow> Inl BadBody
         | Incomplete \<Rightarrow> Inl (if over then TooLarge else BadBody)
         | AtEnd v \<Rightarrow> if over then Inl TooLarge else if rq_broken r then Inl BadBody else decode v []
         | Done v rest \<Rightarrow> decode v rest)"

text \<open>\<^verbatim>\<open>Decoder.More\<close>: is there a byte other than white space and a closing bracket?\<close>

definition More :: "string \<Rightarrow> bool" where
  "More rest = (case dropWhile is_json_space rest of
       [] \<Rightarrow> False | c # _ \<Rightarrow> c \<noteq> CHR '']'' \<and> c \<noteq> CHR ''}'')"


text \<open>What has been scanned does not depend on the bytes behind it.\<close>

lemma scan_value_append:
  "scan_value s cs = Done v rest \<Longrightarrow> scan_value s (cs @ ys) = Done v (rest @ ys)"
proof (induction cs arbitrary: s)
  case Nil
  then show ?case by (auto split: prod.splits mode.splits list.splits if_splits)
next
  case (Cons c cs)
  obtain m st where m: "settle s c = (m, st)" by (cases "settle s c")
  note eq = scan_value_Cons [of s c, unfolded m prod.case]
  show ?case
  proof (cases "\<exists>u. m = MDone u")
    case True
    then show ?thesis using Cons.prems eq by auto
  next
    case nd: False
    show ?thesis
    proof (cases "scan_step (m, st) c")
      case None
      then show ?thesis using Cons.prems eq nd by (auto split: mode.splits)
    next
      case (Some q)
      obtain m2 st2 where q: "q = (m2, st2)" by (cases q)
      have step: "scan_value s (c # zs) = (case m2 of
              MDone v \<Rightarrow> if is_container v then Done v zs else scan_value (m2, st2) zs
            | _ \<Rightarrow> scan_value (m2, st2) zs)" for zs
        using eq [of zs] nd Some q by (cases m) auto
      show ?thesis
        using Cons.IH [of "(m2, st2)"] Cons.prems step [of cs] step [of "cs @ ys"]
        by (cases m2) (auto split: if_splits)
    qed
  qed
qed

lemma scan_json_append: "scan_json cs = Done v rest \<Longrightarrow> scan_json (cs @ ys) = Done v (rest @ ys)"
  unfolding scan_json_def by (rule scan_value_append)

text \<open>A struct of strings followed by anything is decoded, and what follows is left over.\<close>

lemma Decode_marshal:
  assumes "ms \<noteq> []" "list_all (\<lambda>(k, v). plain k \<and> valid_utf8 v) ms"
    "distinct (map fst ms)" "fst ` set ms \<subseteq> set fs"
    "rq_Body r = marshal ms @ junk" "length (marshal ms) \<le> maxBodyBytes"
  shows "Decode fs r = Inr ((\<lambda>k. case map_of ms k of Some v \<Rightarrow> v | None \<Rightarrow> ''''),
    take (maxBodyBytes - length (marshal ms)) junk)"
proof -
  have "scan_json (take maxBodyBytes (rq_Body r)) =
      Done (JObj (map (\<lambda>(k, v). (k, JStr v)) ms)) (take (maxBodyBytes - length (marshal ms)) junk)"
    using scan_json_append [OF scan_marshal [OF assms(1,2)]] assms(5,6) by simp
  then show ?thesis
    using decode_members_strings [OF assms(3,4)] by (simp add: Decode_def Let_def decode_struct_def)
qed


section \<open>Patterns\<close>

text \<open>A path pattern: its segments, where \<open>None\<close> is a wildcard, or the subtree below a path.\<close>

datatype pattern = Exact "string option list" | Subtree "string list"

text \<open>The segments of a rooted path, after its first slash; a last empty one is a trailing slash.\<close>

definition segments :: "string \<Rightarrow> string list" where
  "segments p = tl (split_slash p)"

fun match_segments :: "string option list \<Rightarrow> string list \<Rightarrow> string option \<Rightarrow> string option option" where
  "match_segments [] [] i = Some i"
| "match_segments (Some s # ps) (x # xs) i = (if s = x then match_segments ps xs i else None)"
| "match_segments (None # ps) (x # xs) i = (if x = '''' then None else match_segments ps xs (Some x))"
| "match_segments _ _ i = None"

definition match_path :: "pattern \<Rightarrow> string \<Rightarrow> string option option" where
  "match_path p path = (case p of
       Exact ps \<Rightarrow> match_segments ps (segments path) None
     | Subtree ps \<Rightarrow> if length ps < length (segments path) \<and> take (length ps) (segments path) = ps
         then Some None else None)"

text \<open>A pattern for \<^verbatim>\<open>GET\<close> matches \<^verbatim>\<open>HEAD\<close> requests too.\<close>

definition match_method :: "string \<Rightarrow> string \<Rightarrow> bool" where
  "match_method m method \<longleftrightarrow> method = m \<or> m = ''GET'' \<and> method = ''HEAD''"

text \<open>\<^verbatim>\<open>cleanPath\<close>.\<close>

definition cleanPath :: "string \<Rightarrow> string" where
  "cleanPath p =
     (if p = '''' then ''/''
      else let p' = (if hd p = slash then p else slash # p); np = Clean p'
           in if last p' = slash \<and> np \<noteq> ''/'' then np @ ''/'' else np)"

datatype 'h target = Handle 'h "string option" | Redirect string | NotFound | MethodNotAllowed

text \<open>
  The choice of \<^verbatim>\<open>ServeMux\<close> for a set of patterns of which at most one matches a request: the path is
  cleaned (except for \<^verbatim>\<open>CONNECT\<close>), a subtree is reached without its trailing slash by a redirect, a
  path that was not clean is redirected to the clean one; without a match the answer depends on
  whether another method would match.
\<close>

definition find_handler :: "(string \<times> pattern \<times> 'h) list \<Rightarrow> string \<Rightarrow> string \<Rightarrow> ('h \<times> string option) option" where
  "find_handler routes method path =
     (case find (\<lambda>(m, p, h). match_method m method \<and> match_path p path \<noteq> None) routes of
        None \<Rightarrow> None | Some (m, p, h) \<Rightarrow> Some (h, the (match_path p path)))"

definition is_subtree_root :: "(string \<times> pattern \<times> 'h) list \<Rightarrow> string \<Rightarrow> string \<Rightarrow> bool" where
  "is_subtree_root routes method path \<longleftrightarrow>
     path \<noteq> '''' \<and> last path \<noteq> slash \<and>
     list_ex (\<lambda>(m, p, h). match_method m method \<and> p = Subtree (segments path)) routes"

definition mux_choose :: "(string \<times> pattern \<times> 'h) list \<Rightarrow> string \<Rightarrow> string \<Rightarrow> 'h target" where
  "mux_choose routes method path0 =
     (let path = (if method = ''CONNECT'' then path0 else cleanPath path0);
          found = find_handler routes method path in
      if found = None \<and> is_subtree_root routes method path then Redirect (path @ ''/'')
      else if path \<noteq> path0 then Redirect path
      else case found of
          Some (h, i) \<Rightarrow> Handle h i
        | None \<Rightarrow> if list_ex (\<lambda>(m, p, h). match_path p path \<noteq> None) routes then MethodNotAllowed else NotFound)"

end
