(* ===== verification/Api.thy ===== *)
theory Api
  imports Http Worker
begin

text \<open>
  \<^verbatim>\<open>internal/api\<close>: the HTTP handlers, their request and response types, the router and the request
  log. Handlers write to the \<^verbatim>\<open>statusRecorder\<close> of \<^verbatim>\<open>logRequests\<close>, through which every request goes.
  \<open>api_env\<close> is what the package uses from outside: the UUID parser and the zone of the process.
\<close>

record api_env =
  ae_uuid :: "string \<Rightarrow> err option"
  ae_zone :: "time \<Rightarrow> int"

definition maxFieldLen :: nat where "maxFieldLen = 255"
definition maxPrefixLen :: nat where "maxPrefixLen = 1024"


section \<open>Request and response types\<close>

record CreateVideoRequest =
  cv_ResourceID :: string
  cv_FilePath :: string

record CreateJobRequest =
  cj_VideoID :: string
  cj_OutputBucketPath :: string

record JobResponse =
  jp_ID :: string
  jp_VideoID :: string
  jp_Status :: string
  jp_OutputBucketPath :: string
  jp_Error :: string
  jp_CreatedAt :: time
  jp_UpdatedAt :: time

record VideoResponse =
  vp_ID :: string
  vp_ResourceID :: string
  vp_FilePath :: string
  vp_CreatedAt :: time
  vp_Jobs :: "JobResponse list"

record EnqueueResponse =
  eq_VideoID :: string
  eq_OutputBucketPath :: string
  eq_Status :: string

record HealthResponse = hr_Status :: string
record ErrorResponse = er_Error :: string

text \<open>What the encoder writes of each, by the tags of the fields; \<^verbatim>\<open>omitempty\<close> leaves out the error of
  a job and the list of jobs when they are empty.\<close>

definition JobResponse_json :: "JobResponse \<Rightarrow> jvalue" where
  "JobResponse_json r = VObj
     ([(''id'', VStr (jp_ID r)), (''video_id'', VStr (jp_VideoID r)), (''status'', VStr (jp_Status r)),
       (''output_bucket_path'', VStr (jp_OutputBucketPath r))] @
      (if jp_Error r = '''' then [] else [(''error'', VStr (jp_Error r))]) @
      [(''created_at'', VTime (jp_CreatedAt r)), (''updated_at'', VTime (jp_UpdatedAt r))])"

definition VideoResponse_json :: "VideoResponse \<Rightarrow> jvalue" where
  "VideoResponse_json r = VObj
     ([(''id'', VStr (vp_ID r)), (''resource_id'', VStr (vp_ResourceID r)), (''file_path'', VStr (vp_FilePath r)),
       (''created_at'', VTime (vp_CreatedAt r))] @
      (if vp_Jobs r = [] then [] else [(''jobs'', VArr (map JobResponse_json (vp_Jobs r)))]))"

definition EnqueueResponse_json :: "EnqueueResponse \<Rightarrow> jvalue" where
  "EnqueueResponse_json r = strings [(''video_id'', eq_VideoID r),
     (''output_bucket_path'', eq_OutputBucketPath r), (''status'', eq_Status r)]"

definition HealthResponse_json :: "HealthResponse \<Rightarrow> jvalue" where
  "HealthResponse_json r = strings [(''status'', hr_Status r)]"

definition ErrorResponse_json :: "ErrorResponse \<Rightarrow> jvalue" where
  "ErrorResponse_json r = strings [(''error'', er_Error r)]"

definition toJobResponse :: "job_row \<Rightarrow> JobResponse" where
  "toJobResponse j =
     \<lparr>jp_ID = job_ID j, jp_VideoID = job_VideoID j, jp_Status = job_Status j,
      jp_OutputBucketPath = job_OutputBucketPath j, jp_Error = job_Error j,
      jp_CreatedAt = job_CreatedAt j, jp_UpdatedAt = job_UpdatedAt j\<rparr>"

definition toVideoResponse :: "video \<Rightarrow> VideoResponse" where
  "toVideoResponse v =
     \<lparr>vp_ID = video_ID v, vp_ResourceID = video_ResourceID v, vp_FilePath = video_FilePath v,
      vp_CreatedAt = video_CreatedAt v, vp_Jobs = map toJobResponse (video_Jobs v)\<rparr>"


section \<open>Writing responses\<close>

record status_recorder = response_writer +
  rec_status :: nat

definition WriteHeader :: "nat \<Rightarrow> status_recorder \<Rightarrow> status_recorder" where
  "WriteHeader code r = r\<lparr>rec_status := code, rw_codes := rw_codes r @ [code]\<rparr>"

text \<open>When the payload cannot be encoded the body stays as it is.\<close>

definition writeJSON :: "api_env \<Rightarrow> nat \<Rightarrow> jvalue \<Rightarrow> status_recorder \<Rightarrow> status_recorder" where
  "writeJSON Q status payload w0 =
     (let w = WriteHeader status (w0\<lparr>rw_ContentType := ''application/json''\<rparr>)
      in case encode (rfc3339 (ae_zone Q)) payload of
           Some s \<Rightarrow> w\<lparr>rw_body := rw_body w @ s @ [CHR 0x0A]\<rparr>
         | None \<Rightarrow> w)"

definition writeError :: "api_env \<Rightarrow> nat \<Rightarrow> string \<Rightarrow> status_recorder \<Rightarrow> status_recorder" where
  "writeError Q status msg = writeJSON Q status (ErrorResponse_json \<lparr>er_Error = msg\<rparr>)"

text \<open>The error goes to the log only.\<close>

definition writeInternalError :: "api_env \<Rightarrow> string \<Rightarrow> err \<Rightarrow> status_recorder \<Rightarrow> status_recorder" where
  "writeInternalError Q ctxt e = writeError Q 500 ''internal server error''"


section \<open>Reading requests\<close>

definition validUUID :: "api_env \<Rightarrow> string \<Rightarrow> bool" where
  "validUUID Q s \<longleftrightarrow> ae_uuid Q s = None"

definition containsNUL :: "string \<Rightarrow> bool" where
  "containsNUL s \<longleftrightarrow> IndexByte s (CHR 0x00) \<ge> 0"

text \<open>\<^verbatim>\<open>readJSON\<close>: the decoded fields, or the response that was written.\<close>

definition readJSON :: "api_env \<Rightarrow> string list \<Rightarrow> request \<Rightarrow> status_recorder \<Rightarrow> status_recorder + fields" where
  "readJSON Q fs r w =
     (case Decode fs r of
        Inl TooLarge \<Rightarrow> Inl (writeError Q 413 ''request body too large'' w)
      | Inl BadBody \<Rightarrow> Inl (writeError Q 400 ''invalid request body'' w)
      | Inr (f, rest) \<Rightarrow>
          if More rest then Inl (writeError Q 400 ''unexpected data after JSON body'' w) else Inr f)"


section \<open>Handlers\<close>

text \<open>The Go interface \<^verbatim>\<open>Publisher\<close>, for payloads that are structs of strings.\<close>

record 'w publisher =
  pb_PublishJSON :: "ctx \<Rightarrow> (string \<times> string) list \<Rightarrow> ('w, unit res) io"

record 'w server =
  sv_videos :: "'w video_repository"
  sv_jobs :: "'w job_service option"
  sv_publisher :: "'w publisher"
  sv_ready :: "(ctx \<Rightarrow> ('w, unit res) io) option"

definition NewServer :: "'w video_repository \<Rightarrow> 'w job_service option \<Rightarrow> 'w publisher \<Rightarrow>
    (ctx \<Rightarrow> ('w, unit res) io) option \<Rightarrow> 'w server" where
  "NewServer videos jobs publisher ready =
     \<lparr>sv_videos = videos, sv_jobs = jobs, sv_publisher = publisher, sv_ready = ready\<rparr>"

definition handleHealthz :: "api_env \<Rightarrow> status_recorder \<Rightarrow> ('w, status_recorder res) io" where
  "handleHealthz Q w = ret (Ok (writeJSON Q 200 (HealthResponse_json \<lparr>hr_Status = ''ok''\<rparr>) w))"

definition handleReadyz :: "api_env \<Rightarrow> 'w server \<Rightarrow> status_recorder \<Rightarrow> ('w, status_recorder res) io" where
  "handleReadyz Q s w =
     (case sv_ready s of
        None \<Rightarrow> ret (Ok (writeJSON Q 200 (HealthResponse_json \<lparr>hr_Status = ''ok''\<rparr>) w))
      | Some ready \<Rightarrow> do {
          r \<leftarrow> ready RequestCtx;
          ret (case r of
              Err e \<Rightarrow> Ok (writeError Q 503 (err_text e) w)
            | Panic \<Rightarrow> Panic
            | Ok _ \<Rightarrow> Ok (writeJSON Q 200 (HealthResponse_json \<lparr>hr_Status = ''ok''\<rparr>) w))
        })"

definition handleCreateVideo :: "api_env \<Rightarrow> 'w server \<Rightarrow> request \<Rightarrow> status_recorder \<Rightarrow> ('w, status_recorder res) io" where
  "handleCreateVideo Q s r w =
     (case readJSON Q [''resource_id'', ''file_path''] r w of
        Inl w' \<Rightarrow> ret (Ok w')
      | Inr f \<Rightarrow>
          let req = \<lparr>cv_ResourceID = TrimSpace (f ''resource_id''), cv_FilePath = TrimSpace (f ''file_path'')\<rparr> in
          if cv_ResourceID req = '''' \<or> cv_FilePath req = ''''
          then ret (Ok (writeError Q 400 ''resource_id and file_path are required'' w))
          else if length (cv_ResourceID req) > maxFieldLen \<or> length (cv_FilePath req) > maxFieldLen
          then ret (Ok (writeError Q 400 ''resource_id and file_path must be at most 255 characters'' w))
          else if containsNUL (cv_ResourceID req) \<or> containsNUL (cv_FilePath req)
          then ret (Ok (writeError Q 400 ''fields must not contain null bytes'' w))
          else do {
            created \<leftarrow> vr_Insert (sv_videos s)
              (NewVideo\<lparr>video_ResourceID := cv_ResourceID req, video_FilePath := cv_FilePath req\<rparr>);
            ret (case created of
                Err e \<Rightarrow> Ok (writeInternalError Q ''create video'' e w)
              | Panic \<Rightarrow> Panic
              | Ok v \<Rightarrow> Ok (writeJSON Q 201 (VideoResponse_json (toVideoResponse v)) w))
          })"

definition handleGetVideo :: "api_env \<Rightarrow> 'w server \<Rightarrow> request \<Rightarrow> status_recorder \<Rightarrow> ('w, status_recorder res) io" where
  "handleGetVideo Q s r w =
     (if \<not> validUUID Q (rq_id r) then ret (Ok (writeError Q 400 ''invalid video id: must be a UUID'' w))
      else do {
        found \<leftarrow> vr_Find (sv_videos s) (rq_id r);
        ret (case found of
            Err e \<Rightarrow> Ok (if err_is e ErrVideoNotFound then writeError Q 404 (err_text e) w
                        else writeInternalError Q ''get video'' e w)
          | Panic \<Rightarrow> Panic
          | Ok v \<Rightarrow> Ok (writeJSON Q 200 (VideoResponse_json (toVideoResponse v)) w))
      })"

definition handleCreateJob :: "api_env \<Rightarrow> 'w server \<Rightarrow> request \<Rightarrow> status_recorder \<Rightarrow> ('w, status_recorder res) io" where
  "handleCreateJob Q s r w =
     (case readJSON Q [''video_id'', ''output_bucket_path''] r w of
        Inl w' \<Rightarrow> ret (Ok w')
      | Inr f \<Rightarrow>
          let req = \<lparr>cj_VideoID = TrimSpace (f ''video_id''),
                     cj_OutputBucketPath = TrimSpace (f ''output_bucket_path'')\<rparr> in
          if cj_VideoID req = '''' \<or> cj_OutputBucketPath req = ''''
          then ret (Ok (writeError Q 400 ''video_id and output_bucket_path are required'' w))
          else if \<not> validUUID Q (cj_VideoID req)
          then ret (Ok (writeError Q 400 ''video_id must be a UUID'' w))
          else if length (cj_OutputBucketPath req) > maxPrefixLen
          then ret (Ok (writeError Q 400 ''output_bucket_path is too long'' w))
          else if containsNUL (cj_OutputBucketPath req)
          then ret (Ok (writeError Q 400 ''output_bucket_path must not contain null bytes'' w))
          else do {
            found \<leftarrow> vr_Find (sv_videos s) (cj_VideoID req);
            case found of
              Err e \<Rightarrow> ret (Ok (if err_is e ErrVideoNotFound then writeError Q 404 (err_text e) w
                        else writeInternalError Q ''create job: find video'' e w))
            | Panic \<Rightarrow> ret Panic
            | Ok _ \<Rightarrow> do {
                p \<leftarrow> pb_PublishJSON (sv_publisher s) RequestCtx
                  (jwm_members \<lparr>jwm_VideoID = cj_VideoID req, jwm_OutputBucketPath = cj_OutputBucketPath req\<rparr>);
                ret (case p of
                    Err e \<Rightarrow> Ok (writeError Q 502 ''failed to enqueue job'' w)
                  | Panic \<Rightarrow> Panic
                  | Ok _ \<Rightarrow> Ok (writeJSON Q 202 (EnqueueResponse_json
                      \<lparr>eq_VideoID = cj_VideoID req, eq_OutputBucketPath = cj_OutputBucketPath req,
                       eq_Status = ''queued''\<rparr>) w))
              }
          })"

definition handleGetJob :: "api_env \<Rightarrow> 'w server \<Rightarrow> request \<Rightarrow> status_recorder \<Rightarrow> ('w, status_recorder res) io" where
  "handleGetJob Q s r w =
     (if \<not> validUUID Q (rq_id r) then ret (Ok (writeError Q 400 ''invalid job id: must be a UUID'' w))
      else do {
        found \<leftarrow> deref (sv_jobs s) (\<lambda>S. JobService_Find S (rq_id r));
        ret (case found of
            Err e \<Rightarrow> Ok (if err_is e ErrJobNotFound then writeError Q 404 (err_text e) w
                        else writeInternalError Q ''get job'' e w)
          | Panic \<Rightarrow> Panic
          | Ok j \<Rightarrow> Ok (writeJSON Q 200 (JobResponse_json (toJobResponse (row_of j))) w))
      })"


section \<open>The router and the request log\<close>

datatype endpoint = Healthz | Readyz | CreateVideo | GetVideo | CreateJob | GetJob | Swagger

definition routes :: "(string \<times> pattern \<times> endpoint) list" where
  "routes =
    [(''GET'', Exact [Some ''healthz''], Healthz),
     (''GET'', Exact [Some ''readyz''], Readyz),
     (''POST'', Exact [Some ''videos''], CreateVideo),
     (''GET'', Exact [Some ''videos'', None], GetVideo),
     (''POST'', Exact [Some ''jobs''], CreateJob),
     (''GET'', Exact [Some ''jobs'', None], GetJob),
     (''GET'', Subtree [''swagger''], Swagger)]"

text \<open>The Swagger pages and the plain answers of the mux come from the library: \<open>other\<close> is what it
  writes.\<close>

definition serve :: "api_env \<Rightarrow> 'w server \<Rightarrow> (endpoint target \<Rightarrow> status_recorder \<Rightarrow> status_recorder) \<Rightarrow>
    request \<Rightarrow> status_recorder \<Rightarrow> ('w, status_recorder res) io" where
  "serve Q s other r0 w =
     (case mux_choose routes (rq_Method r0) (rq_Path r0) of
        Handle h i \<Rightarrow>
          (let r = r0\<lparr>rq_id := (case i of None \<Rightarrow> '''' | Some x \<Rightarrow> x)\<rparr> in
           case h of
             Healthz \<Rightarrow> handleHealthz Q w
           | Readyz \<Rightarrow> handleReadyz Q s w
           | CreateVideo \<Rightarrow> handleCreateVideo Q s r w
           | GetVideo \<Rightarrow> handleGetVideo Q s r w
           | CreateJob \<Rightarrow> handleCreateJob Q s r w
           | GetJob \<Rightarrow> handleGetJob Q s r w
           | Swagger \<Rightarrow> ret (Ok (other (Handle Swagger i) w)))
      | t \<Rightarrow> ret (Ok (other t w)))"

text \<open>\<^verbatim>\<open>logRequests\<close>: the response, and the status in the log line.\<close>

definition logRequests :: "(request \<Rightarrow> status_recorder \<Rightarrow> ('w, status_recorder res) io) \<Rightarrow> request \<Rightarrow>
    ('w, (response_writer \<times> nat) res) io" where
  "logRequests next r = do {
     x \<leftarrow> next r (response_writer.extend new_writer \<lparr>rec_status = 200\<rparr>);
     ret (case x of Ok w \<Rightarrow> Ok (response_writer.truncate w, rec_status w) | Err e \<Rightarrow> Err e | Panic \<Rightarrow> Panic)
   }"

definition Handler :: "api_env \<Rightarrow> 'w server \<Rightarrow> (endpoint target \<Rightarrow> status_recorder \<Rightarrow> status_recorder) \<Rightarrow>
    request \<Rightarrow> ('w, (response_writer \<times> nat) res) io" where
  "Handler Q s other = logRequests (serve Q s other)"

end
