(* ===== verification/Database.thy ===== *)
theory Database
  imports World Go_Strings
begin

text \<open>
  \<^verbatim>\<open>internal/database/db.go\<close>: the choice of the database driver and the optional migration. The drivers
  and GORM's \<^verbatim>\<open>Open\<close> and \<^verbatim>\<open>AutoMigrate\<close> are the fields of \<open>driver\<close>; a \<^verbatim>\<open>*gorm.DB\<close> is the pool of
  connections it works on and whether its session logs every statement.
\<close>

record gorm_db =
  gd_pool :: handle
  gd_logs :: bool

record 'w driver =
  dv_postgres :: "string \<Rightarrow> 'w \<Rightarrow> (err + handle) \<times> 'w"
  dv_sqlite :: "string \<Rightarrow> 'w \<Rightarrow> (err + handle) \<times> 'w"
  dv_migrate :: "handle \<Rightarrow> 'w \<Rightarrow> err option \<times> 'w"
  dv_sql_db :: "handle \<Rightarrow> 'w \<Rightarrow> err option \<times> 'w"
  dv_ping :: "handle \<Rightarrow> ctx \<Rightarrow> 'w \<Rightarrow> err option \<times> 'w"
  dv_close :: "handle \<Rightarrow> 'w \<Rightarrow> err option \<times> 'w"

record database =
  db_Db :: "gorm_db option"
  db_Dsn :: string
  db_DsnTest :: string
  db_Debug :: bool
  db_AutoMigrateDb :: bool
  db_Env :: string

definition NewDb :: database where
  "NewDb = \<lparr>db_Db = None, db_Dsn = '''', db_DsnTest = '''', db_Debug = False, db_AutoMigrateDb = False, db_Env = ''''\<rparr>"

text \<open>\<^verbatim>\<open>Database.Connect\<close>: the struct afterwards and the result. When opening fails nothing reads the field
  \<^verbatim>\<open>Db\<close> again; the model clears it.\<close>

definition Database_Connect :: "'w driver \<Rightarrow> database \<Rightarrow> ('w, database \<times> gorm_db res) io" where
  "Database_Connect D d = do {
     r \<leftarrow> (if db_Env d \<noteq> ''test''
          then call (dv_postgres D (db_Dsn d)) (\<lambda>r. Boot (EvOpenPostgres (db_Dsn d) r))
          else call (dv_sqlite D (db_DsnTest d)) (\<lambda>r. Boot (EvOpenSqlite (db_DsnTest d) r)));
     case r of
       Err err \<Rightarrow> ret (d\<lparr>db_Db := None\<rparr>, Err err)
     | Panic \<Rightarrow> ret (d, Panic)
     | Ok h \<Rightarrow>
         let g = \<lparr>gd_pool = h, gd_logs = db_Debug d\<rparr>; d' = d\<lparr>db_Db := Some g\<rparr> in
         if db_AutoMigrateDb d then do {
           m \<leftarrow> call_unit (dv_migrate D h) (\<lambda>r. Boot (EvMigrate h r));
           ret (d', case m of Err err \<Rightarrow> Err err | Panic \<Rightarrow> Panic | Ok _ \<Rightarrow> Ok g)
         }
         else ret (d', Ok g)
   }"

text \<open>\<^verbatim>\<open>log.Fatalf\<close> ends the process with a message; no deferred call runs.\<close>

datatype 'a exits = Fatal string | Returns 'a | Crashes

definition NewDbTest :: "'w driver \<Rightarrow> ('w, gorm_db exits) io" where
  "NewDbTest D = do {
     (d, r) \<leftarrow> Database_Connect D (NewDb\<lparr>db_Env := ''test'', db_DsnTest := '':memory:'', db_AutoMigrateDb := True,
                db_Debug := True\<rparr>);
     ret (case r of
         Err err \<Rightarrow> Fatal (''Test database error: '' @ err_text err)
       | Panic \<Rightarrow> Crashes
       | Ok connection \<Rightarrow> Returns connection)
   }"


section \<open>What connecting does\<close>

text \<open>The connection that was opened, or the error that was met, and the calls made.\<close>

lemma Database_Connect_run:
  "\<exists>es. log (post (Database_Connect D d) w) = log w @ es \<and>
    snd (val (Database_Connect D d) w) \<noteq> Panic \<and>
    (case snd (val (Database_Connect D d) w) of
       Ok g \<Rightarrow> db_Db (fst (val (Database_Connect D d) w)) = Some g \<and> gd_logs g = db_Debug d \<and>
         es = (if db_Env d = ''test'' then Boot (EvOpenSqlite (db_DsnTest d) (Inr (gd_pool g)))
               else Boot (EvOpenPostgres (db_Dsn d) (Inr (gd_pool g)))) #
              (if db_AutoMigrateDb d then [Boot (EvMigrate (gd_pool g) None)] else [])
     | Err e \<Rightarrow> es \<in> {[Boot (EvOpenSqlite (db_DsnTest d) (Inl e))], [Boot (EvOpenPostgres (db_Dsn d) (Inl e))]} \<or>
         (\<exists>o' h. db_AutoMigrateDb d \<and> es = [o', Boot (EvMigrate h (Some e))] \<and> acquired o' = {#SqlPool h#})
     | Panic \<Rightarrow> False)"
proof -
  let ?r = "if db_Env d = ''test'' then dv_sqlite D (db_DsnTest d) (ext w) else dv_postgres D (db_Dsn d) (ext w)"
  show ?thesis
  proof (cases "fst ?r")
    case (Inl e)
    then show ?thesis
      by (cases "db_Env d = ''test''") (simp_all add: Database_Connect_def exec_simps)
  next
    case (Inr h)
    then show ?thesis
      by (cases "db_Env d = ''test''"; cases "db_AutoMigrateDb d"; cases "fst (dv_migrate D h (snd ?r))")
         (simp_all add: Database_Connect_def exec_simps Let_def)
  qed
qed

text \<open>
  C40: \<^verbatim>\<open>Connect\<close> opens exactly one database: the SQLite test database when the environment is \<^verbatim>\<open>test\<close>, the
  Postgres one otherwise, each with its own data source. It migrates it exactly when configured, it
  succeeds exactly when every call did, and it then remembers the connection it returns, with a
  logging session exactly in debug mode.
\<close>

theorem Connect_opens_one:
  "\<exists>o' rest. events (Database_Connect D d) w = o' # rest \<and>
    (\<exists>r. o' = (if db_Env d = ''test'' then Boot (EvOpenSqlite (db_DsnTest d) r) else Boot (EvOpenPostgres (db_Dsn d) r))) \<and>
    (rest = [] \<or> db_AutoMigrateDb d \<and> (\<exists>h r. rest = [Boot (EvMigrate h r)] \<and> acquired o' = {#SqlPool h#})) \<and>
    ((\<exists>g. snd (val (Database_Connect D d) w) = Ok g \<and> db_Db (fst (val (Database_Connect D d) w)) = Some g \<and>
        gd_logs g = db_Debug d \<and> acquired o' = {#SqlPool (gd_pool g)#}) \<longleftrightarrow>
     acquired o' \<noteq> {#} \<and> (db_AutoMigrateDb d \<longrightarrow> (\<exists>h. rest = [Boot (EvMigrate h None)])))"
proof -
  let ?r = "if db_Env d = ''test'' then dv_sqlite D (db_DsnTest d) (ext w) else dv_postgres D (db_Dsn d) (ext w)"
  show ?thesis
  proof (cases "fst ?r")
    case (Inl e)
    then show ?thesis
      by (cases "db_Env d = ''test''") (simp_all add: Database_Connect_def exec_simps events_def)
  next
    case (Inr h)
    then show ?thesis
      by (cases "db_Env d = ''test''"; cases "db_AutoMigrateDb d"; cases "fst (dv_migrate D h (snd ?r))")
         (simp_all add: Database_Connect_def exec_simps Let_def events_def)
  qed
qed


text \<open>A driver whose databases open and whose migration fails.\<close>

definition demo_driver :: "unit driver" where
  "demo_driver = \<lparr>dv_postgres = (\<lambda>d x. (Inr 1, x)), dv_sqlite = (\<lambda>d x. (Inr 2, x)),
     dv_migrate = (\<lambda>h x. (Some (ErrExternal ''permission denied''), x)), dv_sql_db = (\<lambda>h x. (None, x)),
     dv_ping = (\<lambda>h c x. (None, x)), dv_close = (\<lambda>h x. (None, x))\<rparr>"

theorem Connect_opens_one_witness:
  "\<not> (\<exists>g. snd (val (Database_Connect demo_driver (NewDb\<lparr>db_AutoMigrateDb := True\<rparr>)) \<lparr>ext = (), log = []\<rparr>) = Ok g \<and>
      db_Db (fst (val (Database_Connect demo_driver (NewDb\<lparr>db_AutoMigrateDb := True\<rparr>)) \<lparr>ext = (), log = []\<rparr>)) = Some g) \<and>
   (\<exists>o'. events (Database_Connect demo_driver (NewDb\<lparr>db_AutoMigrateDb := True\<rparr>)) \<lparr>ext = (), log = []\<rparr> =
      [o', Boot (EvMigrate 1 (Some (ErrExternal ''permission denied'')))])"
proof -
  let ?d = "NewDb\<lparr>db_AutoMigrateDb := True\<rparr>"
  have ev: "events (Database_Connect demo_driver ?d) \<lparr>ext = (), log = []\<rparr> =
      [Boot (EvOpenPostgres '''' (Inr 1)), Boot (EvMigrate 1 (Some (ErrExternal ''permission denied'')))]"
    by (simp add: Database_Connect_def NewDb_def demo_driver_def exec_simps events_def Let_def)
  have "\<And>g. snd (val (Database_Connect demo_driver ?d) \<lparr>ext = (), log = []\<rparr>) \<noteq> Ok g"
    by (simp add: Database_Connect_def NewDb_def demo_driver_def exec_simps Let_def)
  then show ?thesis
    using Connect_opens_one [of demo_driver ?d "\<lparr>ext = (), log = []\<rparr>"] ev by auto
qed

end
