(* ===== verification/Manager.thy ===== *)
theory Manager
  imports Stages Api Database
begin

text \<open>
  \<^verbatim>\<open>internal/job/manager.go\<close> and the shutdown at the end of \<^verbatim>\<open>main\<close>: the manager's set-up, the
  consumer loop with its backoff, the pool of workers, the HTTP server and the stop function, as one
  transition system over a state of all goroutines. A step is one communication or one call of the
  code: a goroutine reads its message, processes it in stages, settles it and returns its result in
  steps that interleave with those of the other goroutines. The media pipeline of one job and the
  handling of one HTTP request are one step each, which leaves out the interleaving of their outside
  calls.
\<close>

section \<open>Set-up\<close>

definition defaultWorkerConcurrency :: int where "defaultWorkerConcurrency = 1"

definition workerConcurrencyFromEnv :: "environ \<Rightarrow> int" where
  "workerConcurrencyFromEnv E =
     (let value = E ''CONCURRENCY_WORKERS'' in
      if value = '''' then defaultWorkerConcurrency
      else case Atoi value of
          None \<Rightarrow> defaultWorkerConcurrency
        | Some workers \<Rightarrow> if workers \<le> 0 then defaultWorkerConcurrency else workers)"

record 'w manager =
  mg_JobService :: "'w job_service option"
  mg_Workers :: int
  mg_Processor :: "'w processor option"

definition NewManager :: "environ \<Rightarrow> 'w job_service option \<Rightarrow> 'w manager" where
  "NewManager E jobService =
     \<lparr>mg_JobService = jobService, mg_Workers = workerConcurrencyFromEnv E,
      mg_Processor = Some (NewProcessorFromEnv E jobService)\<rparr>"

definition minReconnectBackoff :: duration where "minReconnectBackoff = 1 * Second"
definition maxReconnectBackoff :: duration where "maxReconnectBackoff = 30 * Second"

definition nextBackoff :: "duration \<Rightarrow> duration" where
  "nextBackoff current =
     (let next = current * 2 in if maxReconnectBackoff <s next then maxReconnectBackoff else next)"

definition reconnect :: "'w amqp \<Rightarrow> client \<Rightarrow> ('w, client \<times> unit res) io" where
  "reconnect A q = do {
     (q', r) \<leftarrow> Reconnect A q;
     case r of
       Err rerr \<Rightarrow> ret (q', Err rerr)
     | Panic \<Rightarrow> ret (q', Panic)
     | Ok _ \<Rightarrow> do {
         d \<leftarrow> Declare A q';
         ret (q', case d of Err err \<Rightarrow> Err err | Panic \<Rightarrow> Panic | Ok _ \<Rightarrow> Ok ())
       }
   }"


section \<open>The state of the goroutines\<close>

text \<open>What the message channel carries: a delivery of the broker with its acknowledger, or a local
  payload without one.\<close>

datatype queued = Delivered handle string | Local string

definition message_of :: "'w amqp \<Rightarrow> queued \<Rightarrow> 'w message" where
  "message_of A q = (case q of
       Delivered d b \<Rightarrow> \<lparr>msg_Body = b, msg_Ack = Some (deliveryAck A d)\<rparr>
     | Local b \<Rightarrow> \<lparr>msg_Body = b, msg_Ack = None\<rparr>)"

fun payload_of :: "queued \<Rightarrow> string" where
  "payload_of (Delivered d b) = b"
| "payload_of (Local b) = b"

lemma msg_Body_message_of [simp]: "msg_Body (message_of A q) = payload_of q"
  by (cases q) (simp_all add: message_of_def)

text \<open>Where the consumer goroutine is: at the head of the loop of \<^verbatim>\<open>RunQueueConsumer\<close>, about to
  consume, in the outer and in the inner \<^verbatim>\<open>select\<close> of \<^verbatim>\<open>consumeOnce\<close>, behind the call of
  \<^verbatim>\<open>consumeOnce\<close> with its error, waiting for the backoff, about to reconnect, or returned.\<close>

datatype consumer =
    CTop
  | CConsume
  | CSelect handle
  | CHand handle handle string
  | CBroken "err option"
  | CWait
  | CReconnect
  | CReturned err

text \<open>Where a worker is: waiting for a message, at a stage of one, holding its result before and after
  settling the message, or gone.\<close>

datatype wstate =
    WIdle
  | WWork queued stage
  | WAck queued job_worker_result
  | WReturn queued job_worker_result
  | WExit

text \<open>Where the main goroutine is: waiting in \<^verbatim>\<open>select\<close>, shutting down, and in the stop function
  before and after each of its four lines.\<close>

datatype phase = Serving | ShuttingDown | Joined | Closing | WorkersDone | Draining | Finished

text \<open>The phases in the order the program goes through them.\<close>

primrec phase_no :: "phase \<Rightarrow> nat" where
  "phase_no Serving = 0"
| "phase_no ShuttingDown = 1"
| "phase_no Joined = 2"
| "phase_no Closing = 3"
| "phase_no WorkersDone = 4"
| "phase_no Draining = 5"
| "phase_no Finished = 6"

instantiation phase :: linorder
begin

definition less_eq_phase :: "phase \<Rightarrow> phase \<Rightarrow> bool" where
  "less_eq_phase p q \<longleftrightarrow> phase_no p \<le> phase_no q"

definition less_phase :: "phase \<Rightarrow> phase \<Rightarrow> bool" where
  "less_phase p q \<longleftrightarrow> phase_no p < phase_no q"

instance
proof
  fix p q :: phase
  show "p = q" if "p \<le> q" "q \<le> p"
    using that by (cases p; cases q; simp add: less_eq_phase_def)
qed (auto simp: less_eq_phase_def less_phase_def)

end

lemmas phase_order = less_eq_phase_def less_phase_def

text \<open>\<open>sy_requests\<close> are the HTTP requests in progress. The last eight fields are histories of the model: the
  deliveries received, the messages put into the channel, the results logged, the deliveries given
  back to the queue, the pauses made, the outcomes of the reconnects, the requests accepted, and the
  requests answered with their answers.\<close>

record 'w system =
  sy_world :: "'w world"
  sy_client :: client
  sy_backoff :: duration
  sy_consumer :: consumer
  sy_cancelled :: bool
  sy_main :: phase
  sy_buf :: "queued list"
  sy_closed :: bool
  sy_workers :: "wstate list"
  sy_results_closed :: bool
  sy_logger_done :: bool
  sy_panic :: bool
  sy_requests :: "request list"
  sy_received :: "(handle \<times> string) list"
  sy_accepted :: "queued list"
  sy_logged :: "(queued \<times> job_worker_result) list"
  sy_requeued :: "(handle \<times> string) list"
  sy_waits :: "duration list"
  sy_reconnects :: "bool list"
  sy_asked :: "request list"
  sy_answered :: "(request \<times> (response_writer \<times> nat) res) list"

text \<open>What the program has built when it serves: its outside, the manager, and the HTTP server with what it
  uses of the outside. The struct of the publisher, which the server shares through a pointer, is a
  cell of the world, read by \<open>cf_get\<close> and written by \<open>cf_put\<close>.\<close>

record 'w config =
  cf_lib :: "'w lib"
  cf_runtime :: "'w runtime"
  cf_environ :: environ
  cf_media :: "'w media"
  cf_amqp :: "'w amqp"
  cf_manager :: "'w manager"
  cf_consumerName :: string
  cf_driver :: "'w driver"
  cf_sqlDB :: handle
  cf_get :: "'w \<Rightarrow> client"
  cf_put :: "client \<Rightarrow> 'w \<Rightarrow> 'w"
  cf_api :: api_env
  cf_pages :: "endpoint target \<Rightarrow> status_recorder \<Rightarrow> status_recorder"
  cf_server :: "'w server"

text \<open>The state right after \<^verbatim>\<open>Start\<close> and the launch of the consumer and of the HTTP server.\<close>

definition started :: "'w config \<Rightarrow> 'w world \<Rightarrow> client \<Rightarrow> 'w system" where
  "started K w c =
     \<lparr>sy_world = w, sy_client = c, sy_backoff = minReconnectBackoff, sy_consumer = CTop, sy_cancelled = False,
      sy_main = Serving, sy_buf = [], sy_closed = False,
      sy_workers = replicate (nat (mg_Workers (cf_manager K))) WIdle,
      sy_results_closed = False, sy_logger_done = False, sy_panic = False, sy_requests = [],
      sy_received = [], sy_accepted = [], sy_logged = [], sy_requeued = [], sy_waits = [],
      sy_reconnects = [], sy_asked = [], sy_answered = []\<rparr>"

text \<open>A send into the message channel: it needs room, and panics when the channel is closed.\<close>

definition can_send :: "'w config \<Rightarrow> 'w system \<Rightarrow> bool" where
  "can_send K s \<longleftrightarrow> sy_closed s \<or> length (sy_buf s) < nat (mg_Workers (cf_manager K))"

definition send :: "queued \<Rightarrow> 'w system \<Rightarrow> 'w system" where
  "send q s = (if sy_closed s then s\<lparr>sy_panic := True\<rparr>
     else s\<lparr>sy_buf := sy_buf s @ [q], sy_accepted := sy_accepted s @ [q]\<rparr>)"

definition Enqueue :: "string \<Rightarrow> 'w system \<Rightarrow> 'w system" where
  "Enqueue payload = send (Local payload)"


section \<open>The steps of each goroutine\<close>

text \<open>\<^verbatim>\<open>RunQueueConsumer\<close> and \<^verbatim>\<open>consumeOnce\<close>. The broker decides when a delivery arrives and when the
  channel of deliveries closes; when several branches of a \<^verbatim>\<open>select\<close> are ready, any may be taken.\<close>

inductive consumer_step :: "'w config \<Rightarrow> 'w system \<Rightarrow> 'w system \<Rightarrow> bool" for K where
  top_cancelled: "sy_consumer s = CTop \<Longrightarrow> sy_cancelled s \<Longrightarrow>
    consumer_step K s (s\<lparr>sy_consumer := CReturned ErrContextCanceled\<rparr>)"
| top: "sy_consumer s = CTop \<Longrightarrow> \<not> sy_cancelled s \<Longrightarrow>
    consumer_step K s (s\<lparr>sy_consumer := CConsume\<rparr>)"
| consume: "sy_consumer s = CConsume \<Longrightarrow>
    run_state (Consume (cf_amqp K) (sy_client s) (cf_consumerName K) False) (sy_world s) = (r, w) \<Longrightarrow>
    consumer_step K s (s\<lparr>sy_world := w, sy_panic := (r = Panic),
      sy_consumer := (case r of Ok h \<Rightarrow> CSelect h | Err e \<Rightarrow> CBroken (Some e) | Panic \<Rightarrow> CConsume)\<rparr>)"
| select_done: "sy_consumer s = CSelect h \<Longrightarrow> sy_cancelled s \<Longrightarrow>
    consumer_step K s (s\<lparr>sy_consumer := CBroken (Some ErrContextCanceled)\<rparr>)"
| select_closed: "sy_consumer s = CSelect h \<Longrightarrow>
    consumer_step K s (s\<lparr>sy_consumer := CBroken None\<rparr>)"
| select_delivery: "sy_consumer s = CSelect h \<Longrightarrow>
    consumer_step K s (s\<lparr>sy_consumer := CHand h d b, sy_received := sy_received s @ [(d, b)]\<rparr>)"
| hand: "sy_consumer s = CHand h d b \<Longrightarrow> can_send K s \<Longrightarrow>
    consumer_step K s (send (Delivered d b) s\<lparr>sy_consumer := CSelect h\<rparr>)"
| hand_done: "sy_consumer s = CHand h d b \<Longrightarrow> sy_cancelled s \<Longrightarrow>
    run_state (ack_Nack (deliveryAck (cf_amqp K) d) True) (sy_world s) = (r, w) \<Longrightarrow>
    consumer_step K s (s\<lparr>sy_world := w, sy_consumer := CBroken (Some ErrContextCanceled),
      sy_requeued := sy_requeued s @ [(d, b)]\<rparr>)"
| broken_cancelled: "sy_consumer s = CBroken r \<Longrightarrow> sy_cancelled s \<Longrightarrow>
    consumer_step K s (s\<lparr>sy_consumer := CReturned ErrContextCanceled\<rparr>)"
| broken: "sy_consumer s = CBroken r \<Longrightarrow> \<not> sy_cancelled s \<Longrightarrow>
    consumer_step K s (s\<lparr>sy_consumer := CWait\<rparr>)"
| wait_done: "sy_consumer s = CWait \<Longrightarrow> sy_cancelled s \<Longrightarrow>
    consumer_step K s (s\<lparr>sy_consumer := CReturned ErrContextCanceled\<rparr>)"
| wait_over: "sy_consumer s = CWait \<Longrightarrow>
    consumer_step K s (s\<lparr>sy_consumer := CReconnect, sy_waits := sy_waits s @ [sy_backoff s]\<rparr>)"
| reconnected: "sy_consumer s = CReconnect \<Longrightarrow>
    run_state (reconnect (cf_amqp K) (sy_client s)) (sy_world s) = ((q, r), w) \<Longrightarrow>
    consumer_step K s (s\<lparr>sy_world := w, sy_client := q, sy_panic := (r = Panic), sy_consumer := CTop,
      sy_reconnects := sy_reconnects s @ [is_ok r],
      sy_backoff := (if is_ok r then minReconnectBackoff else nextBackoff (sy_backoff s))\<rparr>)"

text \<open>One stage of the processing of a payload, with what the pool has been started with.\<close>

definition work_of :: "'w config \<Rightarrow> string \<Rightarrow> stage \<Rightarrow> ('w, (stage + job_worker_result) res) io" where
  "work_of K = stage_step (cf_lib K) (cf_runtime K) (cf_environ K) (cf_media K) (mg_JobService (cf_manager K))
     (mg_Processor (cf_manager K))"

text \<open>One worker: \<^verbatim>\<open>JobWorker\<close> on the two channels.\<close>

inductive worker_step :: "'w config \<Rightarrow> nat \<Rightarrow> 'w system \<Rightarrow> 'w system \<Rightarrow> bool" for K i where
  recv: "sy_workers s ! i = WIdle \<Longrightarrow> sy_buf s = q # qs \<Longrightarrow>
    worker_step K i s (s\<lparr>sy_buf := qs, sy_workers := (sy_workers s)[i := WWork q Begin]\<rparr>)"
| exit: "sy_workers s ! i = WIdle \<Longrightarrow> sy_buf s = [] \<Longrightarrow> sy_closed s \<Longrightarrow>
    worker_step K i s (s\<lparr>sy_workers := (sy_workers s)[i := WExit]\<rparr>)"
| work: "sy_workers s ! i = WWork q st \<Longrightarrow>
    run_state (work_of K (payload_of q) st) (sy_world s) = (Ok (Inl st'), w) \<Longrightarrow>
    worker_step K i s (s\<lparr>sy_world := w, sy_workers := (sy_workers s)[i := WWork q st']\<rparr>)"
| worked: "sy_workers s ! i = WWork q st \<Longrightarrow>
    run_state (work_of K (payload_of q) st) (sy_world s) = (Ok (Inr r), w) \<Longrightarrow>
    worker_step K i s (s\<lparr>sy_world := w, sy_workers := (sy_workers s)[i := WAck q r]\<rparr>)"
| work_panic: "sy_workers s ! i = WWork q st \<Longrightarrow>
    run_state (work_of K (payload_of q) st) (sy_world s) = (Panic, w) \<Longrightarrow>
    worker_step K i s (s\<lparr>sy_world := w, sy_panic := True\<rparr>)"
| settle: "sy_workers s ! i = WAck q r \<Longrightarrow>
    run_state (acknowledge (message_of (cf_amqp K) q) r) (sy_world s) = (u, w) \<Longrightarrow>
    worker_step K i s (s\<lparr>sy_world := w, sy_panic := (u = Panic), sy_workers := (sy_workers s)[i := WReturn q r]\<rparr>)"
| result: "sy_workers s ! i = WReturn q r \<Longrightarrow> \<not> sy_results_closed s \<Longrightarrow> \<not> sy_logger_done s \<Longrightarrow>
    worker_step K i s (s\<lparr>sy_logged := sy_logged s @ [(q, r)], sy_workers := (sy_workers s)[i := WIdle]\<rparr>)"
| result_panic: "sy_workers s ! i = WReturn q r \<Longrightarrow> sy_results_closed s \<Longrightarrow>
    worker_step K i s (s\<lparr>sy_panic := True\<rparr>)"

text \<open>The stop function of \<^verbatim>\<open>Start\<close>: close the message channel, wait for the workers, close the result
  channel, wait for the logger. Closing a closed channel panics.\<close>

inductive stop_step :: "'w system \<Rightarrow> 'w system \<Rightarrow> bool" where
  close_messages: "sy_main s = Joined \<Longrightarrow>
    stop_step s (s\<lparr>sy_main := Closing, sy_closed := True, sy_panic := sy_closed s\<rparr>)"
| workers_gone: "sy_main s = Closing \<Longrightarrow> list_all (\<lambda>v. v = WExit) (sy_workers s) \<Longrightarrow>
    stop_step s (s\<lparr>sy_main := WorkersDone\<rparr>)"
| close_results: "sy_main s = WorkersDone \<Longrightarrow>
    stop_step s (s\<lparr>sy_main := Draining, sy_results_closed := True, sy_panic := sy_results_closed s\<rparr>)"
| logger_gone: "sy_main s = Draining \<Longrightarrow> sy_logger_done s \<Longrightarrow> stop_step s (s\<lparr>sy_main := Finished\<rparr>)"

text \<open>The main goroutine: \<^verbatim>\<open>main\<close> leaves its \<^verbatim>\<open>select\<close> on a signal, on a failed HTTP server or when the
  consumer is gone, cancels the context and waits for the consumer; then the deferred stop
  function runs.\<close>

inductive main_step :: "'w system \<Rightarrow> 'w system \<Rightarrow> bool" where
  shutdown: "sy_main s = Serving \<Longrightarrow> main_step s (s\<lparr>sy_main := ShuttingDown, sy_cancelled := True\<rparr>)"
| join: "sy_main s = ShuttingDown \<Longrightarrow> sy_consumer s = CReturned e \<Longrightarrow> main_step s (s\<lparr>sy_main := Joined\<rparr>)"
| stopping: "stop_step s s' \<Longrightarrow> main_step s s'"

lemmas main_stop = stop_step.intros [THEN main_step.stopping]

text \<open>The HTTP server accepts requests while it serves and, at the latest, until \<^verbatim>\<open>main\<close> has shut it down and
  joined the consumer; it answers those it has accepted in any order. \<^verbatim>\<open>Shutdown\<close> waits for them for 15 seconds at most, so some may still be in progress
  later. A panic of a handler ends that request only.\<close>

inductive http_step :: "'w config \<Rightarrow> 'w system \<Rightarrow> 'w system \<Rightarrow> bool" for K where
  request: "sy_main s < Joined \<Longrightarrow>
    http_step K s (s\<lparr>sy_requests := sy_requests s @ [r], sy_asked := sy_asked s @ [r]\<rparr>)"
| answer: "i < length (sy_requests s) \<Longrightarrow>
    run_state (Handler (cf_api K) (cf_server K) (cf_pages K) (sy_requests s ! i)) (sy_world s) = (a, w) \<Longrightarrow>
    http_step K s (s\<lparr>sy_world := w, sy_requests := take i (sy_requests s) @ drop (Suc i) (sy_requests s),
      sy_answered := sy_answered s @ [(sy_requests s ! i, a)]\<rparr>)"

text \<open>The whole program. The logger leaves its loop when the result channel is closed; \<^verbatim>\<open>Enqueue\<close> may be
  called from inside the process while it serves. After a panic nothing moves.\<close>

inductive system_step :: "'w config \<Rightarrow> 'w system \<Rightarrow> 'w system \<Rightarrow> bool" for K where
  by_consumer: "\<not> sy_panic s \<Longrightarrow> consumer_step K s s' \<Longrightarrow> system_step K s s'"
| by_worker: "\<not> sy_panic s \<Longrightarrow> i < length (sy_workers s) \<Longrightarrow> worker_step K i s s' \<Longrightarrow> system_step K s s'"
| by_main: "\<not> sy_panic s \<Longrightarrow> main_step s s' \<Longrightarrow> system_step K s s'"
| by_logger: "\<not> sy_panic s \<Longrightarrow> sy_results_closed s \<Longrightarrow> \<not> sy_logger_done s \<Longrightarrow>
    system_step K s (s\<lparr>sy_logger_done := True\<rparr>)"
| by_http: "\<not> sy_panic s \<Longrightarrow> http_step K s s' \<Longrightarrow> system_step K s s'"
| by_Enqueue: "\<not> sy_panic s \<Longrightarrow> sy_main s = Serving \<Longrightarrow> can_send K s \<Longrightarrow>
    system_step K s (Enqueue payload s)"

inductive reachable :: "'w config \<Rightarrow> 'w system \<Rightarrow> 'w system \<Rightarrow> bool" for K s0 where
  start: "reachable K s0 s0"
| more: "reachable K s0 s \<Longrightarrow> system_step K s s' \<Longrightarrow> reachable K s0 s'"

inductive_cases consumer_stepE: "consumer_step K s s'"
inductive_cases worker_stepE: "worker_step K i s s'"
inductive_cases stop_stepE: "stop_step s s'"
inductive_cases main_stepE: "main_step s s'"
inductive_cases http_stepE: "http_step K s s'"
inductive_cases system_stepE: "system_step K s s'"


section \<open>Backoff\<close>

lemma nextBackoff_range:
  assumes "minReconnectBackoff \<le>s b" "b \<le>s maxReconnectBackoff"
  shows "sint (nextBackoff b) = min (2 * sint b) (sint maxReconnectBackoff)"
    "minReconnectBackoff \<le>s nextBackoff b" "nextBackoff b \<le>s maxReconnectBackoff"
proof -
  have b: "1000000000 \<le> sint b" "sint b \<le> 30000000000"
    using assms by (simp_all add: word_sle_eq minReconnectBackoff_def maxReconnectBackoff_def Second_def)
  have d: "sint (b * 2) = sint b * 2"
    using b by (simp add: sint_word_ariths signed_take_bit_int_eq_self)
  show "sint (nextBackoff b) = min (2 * sint b) (sint maxReconnectBackoff)"
    "minReconnectBackoff \<le>s nextBackoff b" "nextBackoff b \<le>s maxReconnectBackoff"
    using b d by (auto simp: nextBackoff_def Let_def word_sless_alt word_sle_eq minReconnectBackoff_def
        maxReconnectBackoff_def Second_def)
qed

text \<open>The pause after \<open>k\<close> failed attempts to reconnect.\<close>

definition backoff_after :: "nat \<Rightarrow> duration" where
  "backoff_after k = (nextBackoff ^^ k) minReconnectBackoff"

lemma backoff_after_range:
  "minReconnectBackoff \<le>s backoff_after k \<and> backoff_after k \<le>s maxReconnectBackoff \<and>
    sint (backoff_after k) = min (2 ^ k * 1000000000) 30000000000"
proof (induction k)
  case 0
  then show ?case by (simp add: backoff_after_def minReconnectBackoff_def maxReconnectBackoff_def Second_def word_sle_eq)
next
  case (Suc k)
  then have r: "minReconnectBackoff \<le>s backoff_after k" "backoff_after k \<le>s maxReconnectBackoff" by blast+
  have s: "sint (backoff_after k) = min (2 ^ k * 1000000000) 30000000000" using Suc by blast
  have e: "backoff_after (Suc k) = nextBackoff (backoff_after k)" by (simp add: backoff_after_def)
  have "sint maxReconnectBackoff = 30000000000" by (simp add: maxReconnectBackoff_def Second_def)
  then have "sint (backoff_after (Suc k)) = min (2 ^ Suc k * 1000000000) 30000000000"
    unfolding e nextBackoff_range(1) [OF r] s by (simp add: min_def)
  then show ?case using nextBackoff_range(2,3) [OF r] e by simp
qed

end
