(* ===== verification/Api_Spec.thy ===== *)
theory Api_Spec
  imports Api
begin

text \<open>
  What the handlers of \<^verbatim>\<open>internal/api\<close> promise: which requests they accept, the calls they make, and
  the responses they write. The publisher is known to the handlers by its contract only, which the
  queue client keeps.
\<close>

section \<open>Responses\<close>

definition fresh :: status_recorder where
  "fresh = response_writer.extend new_writer \<lparr>rec_status = 200\<rparr>"

lemma fresh_sel [simp]: "rw_codes fresh = []" "rw_body fresh = ''''" "rec_status fresh = 200"
  by (simp_all add: fresh_def new_writer_def response_writer.defs)

lemma writeJSON_sel [simp]:
  "rw_codes (writeJSON Q st p w) = rw_codes w @ [st]" "rec_status (writeJSON Q st p w) = st"
  "rw_ContentType (writeJSON Q st p w) = ''application/json''"
  "rw_codes (writeError Q st msg w) = rw_codes w @ [st]" "rec_status (writeError Q st msg w) = st"
  "rw_ContentType (writeError Q st msg w) = ''application/json''"
  "rw_body (writeError Q st msg w) = rw_body w @ marshal [(''error'', msg)] @ [CHR 0x0A]"
  "writeInternalError Q c e w = writeError Q 500 ''internal server error'' w"
  by (simp_all add: writeJSON_def writeError_def writeInternalError_def WriteHeader_def Let_def
      ErrorResponse_json_def encode_strings split: option.split)

lemma writeJSON_body: "encode (rfc3339 (ae_zone Q)) p = Some s \<Longrightarrow> rw_body (writeJSON Q st p w) = rw_body w @ s @ [CHR 0x0A]"
  by (simp add: writeJSON_def WriteHeader_def Let_def)

lemma sent_status_single [simp]: "rw_codes w = [c] \<Longrightarrow> sent_status w = c"
  by (simp add: sent_status_def)

text \<open>An error response with one of the given statuses, which shows an internal error as the fixed text
  only.\<close>

definition refused_with :: "api_env \<Rightarrow> nat set \<Rightarrow> status_recorder \<Rightarrow> status_recorder \<Rightarrow> bool" where
  "refused_with Q S w w' \<longleftrightarrow> (\<exists>st msg. w' = writeError Q st msg w \<and> st \<in> S \<and>
     (st = 500 \<longrightarrow> msg = ''internal server error''))"

lemma refused_withI [intro]:
  "st \<in> S \<Longrightarrow> (st = 500 \<Longrightarrow> msg = ''internal server error'') \<Longrightarrow> refused_with Q S w (writeError Q st msg w)"
  by (auto simp: refused_with_def)

lemma refused_with_mono: "refused_with Q S w w' \<Longrightarrow> S \<subseteq> T \<Longrightarrow> refused_with Q T w w'"
  by (auto simp: refused_with_def)

lemma refused_with_if [intro]:
  "(b \<Longrightarrow> refused_with Q S w x) \<Longrightarrow> (\<not> b \<Longrightarrow> refused_with Q S w y) \<Longrightarrow> refused_with Q S w (if b then x else y)"
  by simp

lemma containsNUL_iff: "containsNUL s \<longleftrightarrow> CHR 0x00 \<in> set s"
  by (simp add: containsNUL_def IndexByte_nonneg)

lemma readJSON_refused:
  assumes "readJSON Q fs r w = Inl w'"
  shows "\<exists>st msg. w' = writeError Q st msg w \<and> st \<in> {400, 413}"
  using assms unfolding readJSON_def
  by (auto split: sum.splits prod.splits decode_error.splits if_splits)

lemma readJSON_accepted:
  assumes "readJSON Q fs r w = Inr f"
  shows "\<exists>v rest. scan_json (take maxBodyBytes (rq_Body r)) \<in> {Done v rest, AtEnd v} \<and>
      decode_struct True fs v = (f, None)"
  using assms unfolding readJSON_def Decode_def Let_def
  by (auto split: sum.splits prod.splits decode_error.splits if_splits scan.splits option.splits)

lemma readJSON_utf8:
  assumes "readJSON Q fs r w = Inr f"
  shows "valid_utf8 (f k)"
proof -
  obtain v rest where v: "scan_json (take maxBodyBytes (rq_Body r)) \<in> {Done v rest, AtEnd v}"
      "decode_struct True fs v = (f, None)"
    using readJSON_accepted [OF assms] by blast
  show ?thesis by (rule decode_struct_utf8 [OF scan_json_utf8 [OF v(1)] v(2)])
qed


section \<open>The publisher\<close>

locale publisher_contract =
  fixes pub :: "'w publisher" and queue :: "'w \<Rightarrow> string"
  assumes publish_log: "\<exists>es rs. log (post (pb_PublishJSON pub x p) w) = log w @ es \<and>
      publishes es = map (\<lambda>r. (x, queue (ext w), marshal p, r)) rs \<and> length rs \<le> 2 \<and>
      list_all (\<lambda>r. r \<noteq> None) (butlast rs) \<and>
      (val (pb_PublishJSON pub x p) w = Ok () \<longleftrightarrow> rs \<noteq> [] \<and> last rs = None)"
    and publish_no_panic: "val (pb_PublishJSON pub x p) w \<noteq> Panic"
begin

lemma publish_failed:
  assumes "val (pb_PublishJSON pub x p) w = Err e"
  shows "\<exists>es rs. log (post (pb_PublishJSON pub x p) w) = log w @ es \<and>
      publishes es = map (\<lambda>r. (x, queue (ext w), marshal p, r)) rs \<and> list_all (\<lambda>r. r \<noteq> None) rs"
proof -
  obtain es rs where *: "log (post (pb_PublishJSON pub x p) w) = log w @ es"
    "publishes es = map (\<lambda>r. (x, queue (ext w), marshal p, r)) rs"
    "list_all (\<lambda>r. r \<noteq> None) (butlast rs)" "rs = [] \<or> last rs \<noteq> None"
    using publish_log [of x p w] assms by auto
  have "list_all (\<lambda>r. r \<noteq> None) rs"
    using *(3,4) by (cases rs rule: rev_cases) auto
  then show ?thesis using * by blast
qed

end

text \<open>The queue client, behind its pointer, as a publisher.\<close>

definition client_publisher :: "'w amqp \<Rightarrow> ('w \<Rightarrow> client) \<Rightarrow> (client \<Rightarrow> 'w \<Rightarrow> 'w) \<Rightarrow> 'w publisher" where
  "client_publisher A get put =
     \<lparr>pb_PublishJSON = (\<lambda>x payload. via get put (\<lambda>c. PublishJSON A c x payload))\<rparr>"

lemma run_client_publisher:
  "run_state (pb_PublishJSON (client_publisher A get put) x p) w =
    (let m = PublishJSON A (get (ext w)) x p; w' = post m w
     in (snd (val m w), w'\<lparr>ext := put (fst (val m w)) (ext w')\<rparr>))"
  by (simp add: client_publisher_def run_via Let_def)

interpretation client_pub:
  publisher_contract "client_publisher A get put" "\<lambda>x. qc_QueueName (get x)"
  for A :: "'w amqp" and get put
proof
  fix x p w
  obtain es rs where *: "log (post (Publish A (get (ext w)) x (marshal p)) w) = log w @ es"
    "publishes es = map (\<lambda>r. (x, qc_QueueName (get (ext w)), marshal p, r)) rs" "length rs \<le> 2"
    "list_all (\<lambda>r. r \<noteq> None) (butlast rs)"
    "snd (val (Publish A (get (ext w)) x (marshal p)) w) = Ok () \<longleftrightarrow> rs \<noteq> [] \<and> last rs = None"
    "snd (val (Publish A (get (ext w)) x (marshal p)) w) \<noteq> Panic"
    using Publish_log [of A "get (ext w)" x "marshal p" w] by blast
  show "\<exists>es rs. log (post (pb_PublishJSON (client_publisher A get put) x p) w) = log w @ es \<and>
      publishes es = map (\<lambda>r. (x, qc_QueueName (get (ext w)), marshal p, r)) rs \<and> length rs \<le> 2 \<and>
      list_all (\<lambda>r. r \<noteq> None) (butlast rs) \<and>
      (val (pb_PublishJSON (client_publisher A get put) x p) w = Ok () \<longleftrightarrow> rs \<noteq> [] \<and> last rs = None)"
    using * by (intro exI [of _ es] exI [of _ rs]) (simp add: run_client_publisher Let_def PublishJSON_def)
  show "val (pb_PublishJSON (client_publisher A get put) x p) w \<noteq> Panic"
    using * by (simp add: run_client_publisher Let_def PublishJSON_def)
qed

text \<open>The server that \<^verbatim>\<open>main\<close> builds.\<close>

definition gorm_server :: "'w lib \<Rightarrow> 'w gorm \<Rightarrow> 'w amqp \<Rightarrow> ('w \<Rightarrow> client) \<Rightarrow> (client \<Rightarrow> 'w \<Rightarrow> 'w) \<Rightarrow>
    (ctx \<Rightarrow> ('w, unit res) io) option \<Rightarrow> 'w server" where
  "gorm_server L G A get put ready =
     NewServer (VideoRepositoryDb L G) (Some (gorm_service L G)) (client_publisher A get put) ready"

lemma gorm_server_sel [simp]:
  "sv_videos (gorm_server L G A get put ready) = VideoRepositoryDb L G"
  "sv_jobs (gorm_server L G A get put ready) = Some (gorm_service L G)"
  "sv_publisher (gorm_server L G A get put ready) = client_publisher A get put"
  "sv_ready (gorm_server L G A get put ready) = ready"
  by (simp_all add: gorm_server_def NewServer_def)


section \<open>The requests the create handlers accept\<close>

text \<open>The cases of \<^verbatim>\<open>handleCreateJob\<close>.\<close>

definition job_request_ok :: "api_env \<Rightarrow> fields \<Rightarrow> JobWorkerMessage \<Rightarrow> bool" where
  "job_request_ok Q f m \<longleftrightarrow> jwm_VideoID m = TrimSpace (f ''video_id'') \<and>
     jwm_OutputBucketPath m = TrimSpace (f ''output_bucket_path'') \<and>
     jwm_VideoID m \<noteq> '''' \<and> jwm_OutputBucketPath m \<noteq> '''' \<and> validUUID Q (jwm_VideoID m) \<and>
     length (jwm_OutputBucketPath m) \<le> maxPrefixLen \<and> CHR 0x00 \<notin> set (jwm_OutputBucketPath m)"

definition enqueue_job :: "api_env \<Rightarrow> 'w server \<Rightarrow> JobWorkerMessage \<Rightarrow> status_recorder \<Rightarrow> ('w, status_recorder res) io" where
  "enqueue_job Q s m w0 = do {
     found \<leftarrow> vr_Find (sv_videos s) (jwm_VideoID m);
     case found of
       Err e \<Rightarrow> ret (Ok (if err_is e ErrVideoNotFound then writeError Q 404 (err_text e) w0
                 else writeInternalError Q ''create job: find video'' e w0))
     | Panic \<Rightarrow> ret Panic
     | Ok _ \<Rightarrow> do {
         p \<leftarrow> pb_PublishJSON (sv_publisher s) RequestCtx (jwm_members m);
         ret (case p of
             Err e \<Rightarrow> Ok (writeError Q 502 ''failed to enqueue job'' w0)
           | Panic \<Rightarrow> Panic
           | Ok _ \<Rightarrow> Ok (writeJSON Q 202 (EnqueueResponse_json
               \<lparr>eq_VideoID = jwm_VideoID m, eq_OutputBucketPath = jwm_OutputBucketPath m,
                eq_Status = ''queued''\<rparr>) w0))
       }
   }"

lemma handleCreateJob_accepted:
  assumes "readJSON Q [''video_id'', ''output_bucket_path''] r w0 = Inr f" "job_request_ok Q f m"
  shows "handleCreateJob Q s r w0 = enqueue_job Q s m w0"
proof -
  have "m = \<lparr>jwm_VideoID = TrimSpace (f ''video_id''), jwm_OutputBucketPath = TrimSpace (f ''output_bucket_path'')\<rparr>"
    using assms(2) by (simp add: job_request_ok_def)
  then show ?thesis
    using assms by (simp add: handleCreateJob_def enqueue_job_def job_request_ok_def containsNUL_iff Let_def
        cong: res.case_cong)
qed

lemma handleCreateJob_cases:
  obtains (refused) st msg where "handleCreateJob Q s r w0 = ret (Ok (writeError Q st msg w0))" "st \<in> {400, 413}"
  | (accepted) f m where "readJSON Q [''video_id'', ''output_bucket_path''] r w0 = Inr f" "job_request_ok Q f m"
      "handleCreateJob Q s r w0 = enqueue_job Q s m w0"
proof (cases "readJSON Q [''video_id'', ''output_bucket_path''] r w0")
  case (Inl w')
  then obtain st msg where "w' = writeError Q st msg w0" "st \<in> {400, 413}"
    using readJSON_refused by blast
  then show ?thesis using refused Inl by (simp add: handleCreateJob_def)
next
  case (Inr f)
  let ?m = "\<lparr>jwm_VideoID = TrimSpace (f ''video_id''), jwm_OutputBucketPath = TrimSpace (f ''output_bucket_path'')\<rparr>"
  show ?thesis
  proof (cases "job_request_ok Q f ?m")
    case True
    show ?thesis by (rule accepted [OF Inr True handleCreateJob_accepted [OF Inr True]])
  next
    case False
    then have "handleCreateJob Q s r w0 \<in> (\<lambda>msg. ret (Ok (writeError Q 400 msg w0))) ` UNIV"
      using Inr by (auto simp: handleCreateJob_def job_request_ok_def containsNUL_iff Let_def)
    then show ?thesis using refused by auto
  qed
qed


lemma job_request_message:
  assumes "readJSON Q fs r w = Inr f" "job_request_ok Q f m"
  shows "parseJobWorkerMessage (marshal (jwm_members m)) = Ok m"
  using assms valid_utf8_TrimSpace [OF readJSON_utf8 [OF assms(1)]]
  by (intro parse_marshal) (auto simp: job_request_ok_def)

text \<open>What \<^verbatim>\<open>handleCreateJob\<close> does once the request is accepted.\<close>

lemma enqueue_job_run:
  assumes pub: "publisher_contract (sv_publisher s) queue" and videos: "sv_videos s = VideoRepositoryDb L G"
  shows "\<exists>w' es rs. val (enqueue_job Q s m w0) w = Ok w' \<and> log (post (enqueue_job Q s m w0) w) = log w @ es \<and>
    publishes es = map (\<lambda>r. (RequestCtx, queue (snd (gorm_first_video G (jwm_VideoID m) (ext w))), marshal (jwm_members m), r)) rs \<and>
    length rs \<le> 2 \<and> list_all (\<lambda>r. r \<noteq> None) (butlast rs) \<and>
    ((\<exists>v. fst (gorm_first_video G (jwm_VideoID m) (ext w)) = Inr v) \<and> rs \<noteq> [] \<and> last rs = None \<and>
       w' = writeJSON Q 202 (EnqueueResponse_json \<lparr>eq_VideoID = jwm_VideoID m,
         eq_OutputBucketPath = jwm_OutputBucketPath m, eq_Status = ''queued''\<rparr>) w0 \<or>
     list_all (\<lambda>r. r \<noteq> None) rs \<and> refused_with Q {404, 500, 502} w0 w')"
proof -
  let ?q = "gorm_first_video G (jwm_VideoID m) (ext w)"
  let ?e = "DB (EvFirstVideo (jwm_VideoID m) (err_of (fst ?q)))"
  let ?w1 = "w\<lparr>ext := snd ?q, log := log w @ [?e]\<rparr>"
  show ?thesis
  proof (cases "fst ?q")
    case (Inl e)
    let ?x = "if err_is e ErrRecordNotFound then ErrVideoNotFound else ErrWrap ''find video: '' e"
    let ?w' = "if err_is ?x ErrVideoNotFound then writeError Q 404 (err_text ?x) w0
        else writeError Q 500 ''internal server error'' w0"
    have "val (enqueue_job Q s m w0) w = Ok ?w'" "log (post (enqueue_job Q s m w0) w) = log w @ [?e]"
      using Inl by (simp_all add: enqueue_job_def videos run_VideoRepositoryDb_Find not_found_as_def Let_def split_beta)
    moreover have "refused_with Q {404, 500, 502} w0 ?w'" by (intro refused_with_if refused_withI) simp_all
    ultimately show ?thesis by (intro exI [of _ ?w'] exI [of _ "[?e]"] exI [of _ "[]"]) simp
  next
    case (Inr v)
    let ?p = "pb_PublishJSON (sv_publisher s) RequestCtx (jwm_members m)"
    obtain es rs where p: "log (post ?p ?w1) = log ?w1 @ es"
      "publishes es = map (\<lambda>r. (RequestCtx, queue (ext ?w1), marshal (jwm_members m), r)) rs" "length rs \<le> 2"
      "list_all (\<lambda>r. r \<noteq> None) (butlast rs)" "val ?p ?w1 = Ok () \<longleftrightarrow> rs \<noteq> [] \<and> last rs = None"
      using publisher_contract.publish_log [OF pub] by blast
    have run: "run_state (enqueue_job Q s m w0) w = (case val ?p ?w1 of
          Err e \<Rightarrow> Ok (writeError Q 502 ''failed to enqueue job'' w0)
        | Panic \<Rightarrow> Panic
        | Ok _ \<Rightarrow> Ok (writeJSON Q 202 (EnqueueResponse_json
            \<lparr>eq_VideoID = jwm_VideoID m, eq_OutputBucketPath = jwm_OutputBucketPath m,
             eq_Status = ''queued''\<rparr>) w0), post ?p ?w1)"
      using Inr by (simp add: enqueue_job_def videos run_VideoRepositoryDb_Find not_found_as_def Let_def split_beta)
    show ?thesis
    proof (cases "val ?p ?w1")
      case (Ok u)
      then show ?thesis using run p Inr
        by (intro exI [of _ "writeJSON Q 202 (EnqueueResponse_json \<lparr>eq_VideoID = jwm_VideoID m,
            eq_OutputBucketPath = jwm_OutputBucketPath m, eq_Status = ''queued''\<rparr>) w0"]
            exI [of _ "?e # es"] exI [of _ rs]) simp
    next
      case (Err e)
      then have "list_all (\<lambda>r. r \<noteq> None) rs" using p(4,5) by (cases rs rule: rev_cases) auto
      moreover have "refused_with Q {404, 500, 502} w0 (writeError Q 502 ''failed to enqueue job'' w0)" by auto
      ultimately show ?thesis using run p Err
        by (intro exI [of _ "writeError Q 502 ''failed to enqueue job'' w0"] exI [of _ "?e # es"] exI [of _ rs]) simp
    qed (use publisher_contract.publish_no_panic [OF pub] in simp)
  qed
qed



section \<open>The cases of the other handlers\<close>

context store_contract
begin

lemma is_video_repository: "video_repository_contract (VideoRepositoryDb L G) jobs videos"
  by (rule video_repo.video_repository_contract_axioms)

end


definition video_request_ok :: "fields \<Rightarrow> CreateVideoRequest \<Rightarrow> bool" where
  "video_request_ok f q \<longleftrightarrow> cv_ResourceID q = TrimSpace (f ''resource_id'') \<and>
     cv_FilePath q = TrimSpace (f ''file_path'') \<and>
     cv_ResourceID q \<noteq> '''' \<and> cv_FilePath q \<noteq> '''' \<and>
     length (cv_ResourceID q) \<le> maxFieldLen \<and> length (cv_FilePath q) \<le> maxFieldLen \<and>
     CHR 0x00 \<notin> set (cv_ResourceID q) \<and> CHR 0x00 \<notin> set (cv_FilePath q)"

definition new_video :: "CreateVideoRequest \<Rightarrow> video" where
  "new_video q = NewVideo\<lparr>video_ResourceID := cv_ResourceID q, video_FilePath := cv_FilePath q\<rparr>"

definition store_video :: "api_env \<Rightarrow> 'w server \<Rightarrow> CreateVideoRequest \<Rightarrow> status_recorder \<Rightarrow> ('w, status_recorder res) io" where
  "store_video Q s q w = do {
     created \<leftarrow> vr_Insert (sv_videos s) (new_video q);
     ret (case created of
         Err e \<Rightarrow> Ok (writeInternalError Q ''create video'' e w)
       | Panic \<Rightarrow> Panic
       | Ok v \<Rightarrow> Ok (writeJSON Q 201 (VideoResponse_json (toVideoResponse v)) w))
   }"

lemma handleCreateVideo_cases:
  obtains (refused) st msg where "handleCreateVideo Q s r w0 = ret (Ok (writeError Q st msg w0))" "st \<in> {400, 413}"
  | (accepted) f q where "readJSON Q [''resource_id'', ''file_path''] r w0 = Inr f" "video_request_ok f q"
      "handleCreateVideo Q s r w0 = store_video Q s q w0"
proof (cases "readJSON Q [''resource_id'', ''file_path''] r w0")
  case (Inl w')
  then obtain st msg where "w' = writeError Q st msg w0" "st \<in> {400, 413}"
    using readJSON_refused by blast
  then show ?thesis using refused Inl by (simp add: handleCreateVideo_def)
next
  case (Inr f)
  let ?q = "\<lparr>cv_ResourceID = TrimSpace (f ''resource_id''), cv_FilePath = TrimSpace (f ''file_path'')\<rparr>"
  show ?thesis
  proof (cases "video_request_ok f ?q")
    case True
    then have "handleCreateVideo Q s r w0 = store_video Q s ?q w0"
      using Inr by (simp add: handleCreateVideo_def store_video_def new_video_def video_request_ok_def
          containsNUL_iff Let_def cong: res.case_cong)
    then show ?thesis by (rule accepted [OF Inr True])
  next
    case False
    then have "handleCreateVideo Q s r w0 \<in> (\<lambda>msg. ret (Ok (writeError Q 400 msg w0))) ` UNIV"
      using Inr by (auto simp: handleCreateVideo_def video_request_ok_def containsNUL_iff Let_def)
    then show ?thesis using refused by auto
  qed
qed

lemma handleCreateVideo_refused:
  "readJSON Q [''resource_id'', ''file_path''] r w0 = Inl w' \<Longrightarrow> handleCreateVideo Q s r w0 = ret (Ok w')"
  by (simp add: handleCreateVideo_def)

lemma new_video_sel [simp]:
  "video_ID (new_video q) = ''''" "video_ResourceID (new_video q) = cv_ResourceID q"
  "video_FilePath (new_video q) = cv_FilePath q" "video_Jobs (new_video q) = []"
  by (simp_all add: new_video_def NewVideo_def)

text \<open>The bodies that carry no time are written whole.\<close>

lemma EnqueueResponse_body:
  "rw_body (writeJSON Q st (EnqueueResponse_json e) w) = rw_body w @ marshal [(''video_id'', eq_VideoID e),
     (''output_bucket_path'', eq_OutputBucketPath e), (''status'', eq_Status e)] @ [CHR 0x0A]"
  by (rule writeJSON_body) (simp add: EnqueueResponse_json_def encode_strings)


section \<open>One answer per request\<close>

text \<open>A response whose one status is \<open>st\<close>, which is also the status in the log; an internal error shows
  the fixed text only.\<close>

definition internal_body :: string where
  "internal_body = marshal [(''error'', ''internal server error'')] @ [CHR 0x0A]"

definition answered :: "nat set \<Rightarrow> status_recorder \<Rightarrow> bool" where
  "answered S w \<longleftrightarrow> rw_codes w = [rec_status w] \<and> rec_status w \<in> S \<and> rw_ContentType w = ''application/json'' \<and>
     (rec_status w = 500 \<longrightarrow> rw_body w = internal_body)"

lemma answered_writeJSON: "st \<in> S \<Longrightarrow> st \<noteq> 500 \<Longrightarrow> answered S (writeJSON Q st p fresh)"
  by (simp add: answered_def)

lemma answered_writeError:
  "st \<in> S \<Longrightarrow> (st = 500 \<Longrightarrow> msg = ''internal server error'') \<Longrightarrow> answered S (writeError Q st msg fresh)"
  by (simp add: answered_def internal_body_def)

lemma answered_refused: "refused_with Q T fresh w \<Longrightarrow> T \<subseteq> S \<Longrightarrow> answered S w"
  by (auto simp: refused_with_def intro: answered_writeError)

lemma answered_if: "(b \<Longrightarrow> answered S x) \<Longrightarrow> (\<not> b \<Longrightarrow> answered S y) \<Longrightarrow> answered S (if b then x else y)"
  by simp

text \<open>Programs that end with such a response.\<close>

definition answers :: "nat set \<Rightarrow> ('w, status_recorder res) io \<Rightarrow> bool" where
  "answers S m \<longleftrightarrow> (\<forall>w. \<exists>w'. val m w = Ok w' \<and> answered S w')"

lemma answers_ret: "answered S w' \<Longrightarrow> answers S (ret (Ok w'))"
  by (simp add: answers_def)

lemma answers_call:
  assumes "panic_free m" "\<And>x. answered S (f x)" "\<And>e. answered S (g e)"
  shows "answers S (do { r \<leftarrow> m; ret (case r of Err e \<Rightarrow> Ok (g e) | Panic \<Rightarrow> Panic | Ok x \<Rightarrow> Ok (f x)) })"
  unfolding answers_def
proof
  fix w
  show "\<exists>w'. val (do { r \<leftarrow> m; ret (case r of Err e \<Rightarrow> Ok (g e) | Panic \<Rightarrow> Panic | Ok x \<Rightarrow> Ok (f x)) }) w = Ok w' \<and> answered S w'"
    using panic_freeD [OF assms(1), of w] assms(2,3) by (cases "val m w") (simp_all add: split_beta)
qed

lemma repository_panic_free:
  "panic_free (VideoRepositoryDb_Find G i)" "panic_free (VideoRepositoryDb_Insert L G v)"
  "panic_free (JobRepositoryDb_Find G i)"
  by (simp_all add: panic_free_def exec_simps Let_def not_found_as_iff)

lemma answers_GetVideo: "answers {200, 400, 404, 500} (handleGetVideo Q (gorm_server L G A get put ready) r fresh)"
  unfolding handleGetVideo_def gorm_server_sel repository_sel
  by (cases "validUUID Q (rq_id r)")
     (auto intro!: answers_ret answers_call repository_panic_free answered_if answered_writeError answered_writeJSON
       simp del: writeJSON_sel(1-7))

lemma answers_GetJob: "answers {200, 400, 404, 500} (handleGetJob Q (gorm_server L G A get put ready) r fresh)"
  unfolding handleGetJob_def gorm_server_sel deref_simps JobService_Find_def gorm_service_sel option.case repository_sel
  by (cases "validUUID Q (rq_id r)")
     (auto intro!: answers_ret answers_call repository_panic_free answered_if answered_writeError answered_writeJSON
       simp del: writeJSON_sel(1-7))

lemma answers_CreateVideo: "answers {201, 400, 413, 500} (handleCreateVideo Q (gorm_server L G A get put ready) r fresh)"
proof (cases rule: handleCreateVideo_cases [of Q "gorm_server L G A get put ready" r fresh])
  case (refused st msg)
  then show ?thesis by (auto intro!: answers_ret answered_writeError)
next
  case (accepted f q)
  show ?thesis
    unfolding accepted(3) store_video_def gorm_server_sel repository_sel
    by (intro answers_call repository_panic_free answered_writeJSON) (simp_all add: answered_writeError)
qed

lemma answers_CreateJob:
  "answers {202, 400, 404, 413, 500, 502} (handleCreateJob Q (gorm_server L G A get put ready) r fresh)"
proof (cases rule: handleCreateJob_cases [of Q "gorm_server L G A get put ready" r fresh])
  case (refused st msg)
  then show ?thesis by (auto intro!: answers_ret answered_writeError)
next
  case (accepted f m)
  let ?s = "gorm_server L G A get put ready"
  have pub: "publisher_contract (sv_publisher ?s) (\<lambda>x. qc_QueueName (get x))"
    by (simp add: client_pub.publisher_contract_axioms)
  show ?thesis
    unfolding answers_def accepted(3)
  proof
    fix w
    obtain w' es rs where run: "val (enqueue_job Q ?s m fresh) w = Ok w'"
      "w' = writeJSON Q 202 (EnqueueResponse_json \<lparr>eq_VideoID = jwm_VideoID m,
         eq_OutputBucketPath = jwm_OutputBucketPath m, eq_Status = ''queued''\<rparr>) fresh \<or>
       refused_with Q {404, 500, 502} fresh w'"
      using enqueue_job_run [OF pub gorm_server_sel(1), of Q m fresh w] by blast
    then show "\<exists>w'. val (enqueue_job Q ?s m fresh) w = Ok w' \<and> answered {202, 400, 404, 413, 500, 502} w'"
      by (auto intro: answered_writeJSON answered_refused)
  qed
qed

lemma answers_Readyz:
  assumes "\<forall>f. ready = Some f \<longrightarrow> panic_free (f RequestCtx)"
  shows "answers {200, 503} (handleReadyz Q (gorm_server L G A get put ready) fresh)"
proof (cases ready)
  case None
  then show ?thesis by (simp add: handleReadyz_def answers_ret answered_writeJSON)
next
  case (Some f)
  show ?thesis
    unfolding handleReadyz_def gorm_server_sel Some option.case
    by (intro answers_call answered_writeJSON answered_writeError assms [rule_format, OF Some]) simp_all
qed

lemma answers_Healthz: "answers {200} (handleHealthz Q fresh)"
  by (simp add: handleHealthz_def answers_ret answered_writeJSON)

section \<open>A concrete server\<close>

text \<open>The queue client's struct lies beside the tables.\<close>

record apiworld = memworld +
  aw_client :: client

definition demo_api :: api_env where
  "demo_api = \<lparr>ae_uuid = (\<lambda>s. if length s = 36 then None else Some (ErrExternal ''uuid: incorrect UUID length'')),
     ae_zone = (\<lambda>t. 0)\<rparr>"

definition demo_server :: "apiworld server" where
  "demo_server = gorm_server mem_lib mem_gorm mem_amqp aw_client (\<lambda>c x. x\<lparr>aw_client := c\<rparr>) None"

definition api_world :: "apiworld world" where
  "api_world = \<lparr>ext = memworld.extend demo_ext \<lparr>aw_client = connected\<rparr>, log = []\<rparr>"

definition post_request :: "string \<Rightarrow> string \<Rightarrow> request" where
  "post_request p b = \<lparr>rq_Method = ''POST'', rq_Path = p, rq_id = '''', rq_Body = b, rq_broken = False\<rparr>"

definition get_request :: "string \<Rightarrow> string \<Rightarrow> request" where
  "get_request p i = \<lparr>rq_Method = ''GET'', rq_Path = p, rq_id = i, rq_Body = '''', rq_broken = False\<rparr>"


section \<open>Properties\<close>

text \<open>
  C31: A job request that is answered with 202 is in the queue, and one that is not is not. The handler
  sends at most two copies of one message; the answer is 202 exactly when the last send succeeded,
  and otherwise no send did. The message of an accepted request carries the trimmed fields of the
  request, with a valid id of a video that exists, and the worker's parser accepts it and reads the
  same fields.
\<close>

theorem create_job_publishes:
  assumes store: "store_contract G jobs videos L"
  shows "\<exists>w' rs. val (handleCreateJob Q (gorm_server L G A get put ready) r fresh) w = Ok w' \<and>
    length rs \<le> 2 \<and> list_all (\<lambda>r. r \<noteq> None) (butlast rs) \<and>
    map (\<lambda>(x, q, b, r). r) (publishes (events (handleCreateJob Q (gorm_server L G A get put ready) r fresh) w)) = rs \<and>
    (sent_status w' = 202 \<longleftrightarrow> rs \<noteq> [] \<and> last rs = None) \<and>
    (sent_status w' = 202 \<longrightarrow> (\<exists>f m q. readJSON Q [''video_id'', ''output_bucket_path''] r fresh = Inr f \<and>
       publishes (events (handleCreateJob Q (gorm_server L G A get put ready) r fresh) w) =
         map (\<lambda>r. (RequestCtx, q, marshal (jwm_members m), r)) rs \<and>
       parseJobWorkerMessage (marshal (jwm_members m)) = Ok m \<and> job_request_ok Q f m \<and>
       videos (ext w) (jwm_VideoID m) \<noteq> None \<and>
       rw_body w' = marshal (jwm_members m @ [(''status'', ''queued'')]) @ [CHR 0x0A]))"
proof (cases rule: handleCreateJob_cases [of Q "gorm_server L G A get put ready" r fresh])
  case (refused st msg)
  then show ?thesis by (auto intro!: exI [of _ "writeError Q st msg fresh"])
next
  case (accepted f m)
  let ?s = "gorm_server L G A get put ready"
  let ?g = "gorm_first_video G (jwm_VideoID m) (ext w)"
  have pub: "publisher_contract (sv_publisher ?s) (\<lambda>x. qc_QueueName (get x))"
    by (simp add: client_pub.publisher_contract_axioms)
  obtain w' es rs where run: "val (enqueue_job Q ?s m fresh) w = Ok w'" "log (post (enqueue_job Q ?s m fresh) w) = log w @ es"
    "publishes es = map (\<lambda>r. (RequestCtx, qc_QueueName (get (snd ?g)), marshal (jwm_members m), r)) rs"
    "length rs \<le> 2" "list_all (\<lambda>r. r \<noteq> None) (butlast rs)"
    "(\<exists>v. fst ?g = Inr v) \<and> rs \<noteq> [] \<and> last rs = None \<and>
       w' = writeJSON Q 202 (EnqueueResponse_json \<lparr>eq_VideoID = jwm_VideoID m,
         eq_OutputBucketPath = jwm_OutputBucketPath m, eq_Status = ''queued''\<rparr>) fresh \<or>
     list_all (\<lambda>r. r \<noteq> None) rs \<and> refused_with Q {404, 500, 502} fresh w'"
    using enqueue_job_run [OF pub gorm_server_sel(1), of Q m fresh w] by blast
  note ev = events_eqI [OF run(2)]
  have comp: "map ((\<lambda>(x, q, b, r). r) \<circ> (\<lambda>r. (RequestCtx, q0, b0, r))) rs = rs"
    for q0 b0 :: string and rs :: "err option list"
    by (simp add: comp_def)
  from run(6) show ?thesis
  proof
    assume *: "(\<exists>v. fst ?g = Inr v) \<and> rs \<noteq> [] \<and> last rs = None \<and>
       w' = writeJSON Q 202 (EnqueueResponse_json \<lparr>eq_VideoID = jwm_VideoID m,
         eq_OutputBucketPath = jwm_OutputBucketPath m, eq_Status = ''queued''\<rparr>) fresh"
    then obtain v where "fst ?g = Inr v" by blast
    then have "videos (ext w) (jwm_VideoID m) \<noteq> None"
      using gorm_contract.first_video_found [OF store_contract.axioms(1) [OF store]] by blast
    then have "\<exists>f m q. readJSON Q [''video_id'', ''output_bucket_path''] r fresh = Inr f \<and>
       publishes es = map (\<lambda>r. (RequestCtx, q, marshal (jwm_members m), r)) rs \<and>
       parseJobWorkerMessage (marshal (jwm_members m)) = Ok m \<and> job_request_ok Q f m \<and>
       videos (ext w) (jwm_VideoID m) \<noteq> None \<and>
       rw_body w' = marshal (jwm_members m @ [(''status'', ''queued'')]) @ [CHR 0x0A]"
      using run(3) * accepted(1,2) job_request_message [OF accepted(1,2)]
      by (intro exI [of _ f] exI [of _ m] exI [of _ "qc_QueueName (get (snd ?g))"])
         (simp add: EnqueueResponse_body jwm_members_def)
    moreover have "sent_status w' = 202" using * by simp
    ultimately show ?thesis
      using run * ev comp accepted(3) by (intro exI [of _ w'] exI [of _ rs]) simp
  next
    assume *: "list_all (\<lambda>r. r \<noteq> None) rs \<and> refused_with Q {404, 500, 502} fresh w'"
    then have "sent_status w' \<noteq> 202" by (auto simp: refused_with_def)
    moreover have "\<not> (rs \<noteq> [] \<and> last rs = None)" using * by (cases rs rule: rev_cases) auto
    ultimately show ?thesis
      using run ev comp accepted by (intro exI [of _ w'] exI [of _ rs]) simp
  qed
qed

text \<open>A request for the stored video, with white space to trim.\<close>

definition demo_job_request :: request where
  "demo_job_request = post_request ''/jobs''
     (marshal [(''video_id'', demo_id), (''output_bucket_path'', '' out/1 '')])"

lemma demo_job_request_read:
  "readJSON demo_api [''video_id'', ''output_bucket_path''] demo_job_request fresh =
     Inr (\<lambda>k. case map_of [(''video_id'', demo_id), (''output_bucket_path'', '' out/1 '')] k of Some v \<Rightarrow> v | None \<Rightarrow> '''')"
proof -
  have "length (marshal [(''video_id'', demo_id), (''output_bucket_path'', '' out/1 '')]) \<le> 100"
    by code_simp
  then have "Decode [''video_id'', ''output_bucket_path''] demo_job_request =
      Inr ((\<lambda>k. case map_of [(''video_id'', demo_id), (''output_bucket_path'', '' out/1 '')] k of Some v \<Rightarrow> v | None \<Rightarrow> ''''),
        [])"
    using Decode_marshal [of "[(''video_id'', demo_id), (''output_bucket_path'', '' out/1 '')]"
        "[''video_id'', ''output_bucket_path'']" demo_job_request "[]"]
    by (simp add: demo_job_request_def post_request_def plain_def valid_utf8_ascii demo_id_def maxBodyBytes_def)
  then show ?thesis by (simp add: readJSON_def More_def)
qed


lemma demo_trim: "TrimSpace demo_id = demo_id" "TrimSpace '' out/1 '' = ''out/1''"
  by code_simp+

lemma demo_enqueued:
  "\<exists>w'. val (handleCreateJob demo_api demo_server demo_job_request fresh) api_world = Ok w' \<and> sent_status w' = 202"
proof -
  let ?m = "\<lparr>jwm_VideoID = demo_id, jwm_OutputBucketPath = ''out/1''\<rparr>"
  have len: "length demo_id = 36" "demo_id \<noteq> []" by (simp_all add: demo_id_def)
  have "handleCreateJob demo_api demo_server demo_job_request fresh = enqueue_job demo_api demo_server ?m fresh"
    by (rule handleCreateJob_accepted [OF demo_job_request_read])
       (simp add: job_request_ok_def demo_trim validUUID_def demo_api_def len maxPrefixLen_def)
  moreover have "\<exists>w'. val (enqueue_job demo_api demo_server ?m fresh) api_world = Ok w' \<and> sent_status w' = 202"
    by (simp add: enqueue_job_def demo_server_def exec_simps Let_def split_beta mem_gorm_def faulty_def api_world_def
        demo_ext_def memworld.defs mem_video_def not_found_as_def demo_video_def run_client_publisher PublishJSON_def
        Publish_def readyLocked_def connected_def mem_amqp_def publish_retry_def publishOnce_def mm_act_def)
  ultimately show ?thesis by simp
qed

theorem create_job_publishes_witness:
  "\<exists>rs q. publishes (events (handleCreateJob demo_api demo_server demo_job_request fresh) api_world) =
      map (\<lambda>r. (RequestCtx, q, marshal [(''video_id'', demo_id), (''output_bucket_path'', ''out/1'')], r)) rs \<and>
    rs \<noteq> [] \<and> last rs = None"
proof -
  obtain w' where w': "val (handleCreateJob demo_api demo_server demo_job_request fresh) api_world = Ok w'"
    "sent_status w' = 202" using demo_enqueued by blast
  note claim = create_job_publishes [OF mem.store_contract_axioms, of demo_api mem_amqp aw_client
      "\<lambda>c x. x\<lparr>aw_client := c\<rparr>" None demo_job_request api_world, folded demo_server_def]
  obtain rs where sent: "sent_status w' = 202 \<longleftrightarrow> rs \<noteq> [] \<and> last rs = None"
    "sent_status w' = 202 \<longrightarrow> (\<exists>f m q. readJSON demo_api [''video_id'', ''output_bucket_path''] demo_job_request fresh = Inr f \<and>
       publishes (events (handleCreateJob demo_api demo_server demo_job_request fresh) api_world) =
         map (\<lambda>r. (RequestCtx, q, marshal (jwm_members m), r)) rs \<and>
       parseJobWorkerMessage (marshal (jwm_members m)) = Ok m \<and> job_request_ok demo_api f m \<and>
       mem_video (ext api_world) (jwm_VideoID m) \<noteq> None \<and>
       rw_body w' = marshal (jwm_members m @ [(''status'', ''queued'')]) @ [CHR 0x0A])"
    using claim unfolding w'(1) res.inject by blast
  then obtain f m q where rs: "rs \<noteq> []" "last rs = None"
    "readJSON demo_api [''video_id'', ''output_bucket_path''] demo_job_request fresh = Inr f"
    "publishes (events (handleCreateJob demo_api demo_server demo_job_request fresh) api_world) =
       map (\<lambda>r. (RequestCtx, q, marshal (jwm_members m), r)) rs" "job_request_ok demo_api f m"
    using w'(2) by blast
  have "f = (\<lambda>k. case map_of [(''video_id'', demo_id), (''output_bucket_path'', '' out/1 '')] k of Some v \<Rightarrow> v | None \<Rightarrow> '''')"
    using rs(3) demo_job_request_read by simp
  then have "m = \<lparr>jwm_VideoID = demo_id, jwm_OutputBucketPath = ''out/1''\<rparr>"
    using rs(5) demo_trim by (simp add: job_request_ok_def)
  then show ?thesis using rs by (intro exI [of _ rs] exI [of _ q]) (simp add: jwm_members_def)
qed

text \<open>
  C32: A video request is answered with 201 only when its row was stored: a new row whose fields are the
  trimmed fields of the request, not empty, at most 255 bytes and without a zero byte, every other
  row and every job as before. A refused request (400 or 413) makes no call. An internal error is
  answered with a fixed text.
\<close>

theorem create_video_stores:
  assumes store: "store_contract G jobs videos L"
  shows "\<exists>w'. val (handleCreateVideo Q (gorm_server L G A get put ready) r fresh) w = Ok w' \<and>
    sent_status w' \<in> {201, 400, 413, 500} \<and>
    (sent_status w' = 201 \<longrightarrow> (\<exists>f q v. readJSON Q [''resource_id'', ''file_path''] r fresh = Inr f \<and> video_request_ok f q \<and>
       video_ResourceID v = cv_ResourceID q \<and> video_FilePath v = cv_FilePath q \<and> videos (ext w) (video_ID v) = None \<and>
       videos (ext (post (handleCreateVideo Q (gorm_server L G A get put ready) r fresh) w)) =
         (videos (ext w))(video_ID v \<mapsto> v) \<and>
       jobs (ext (post (handleCreateVideo Q (gorm_server L G A get put ready) r fresh) w)) = jobs (ext w) \<and>
       w' = writeJSON Q 201 (VideoResponse_json (toVideoResponse v)) fresh)) \<and>
    (sent_status w' \<in> {400, 413} \<longrightarrow> post (handleCreateVideo Q (gorm_server L G A get put ready) r fresh) w = w) \<and>
    (sent_status w' = 500 \<longrightarrow> rw_body w' = marshal [(''error'', ''internal server error'')] @ [CHR 0x0A])"
proof (cases rule: handleCreateVideo_cases [of Q "gorm_server L G A get put ready" r fresh])
  case (refused st msg)
  then show ?thesis by (auto intro!: exI [of _ "writeError Q st msg fresh"])
next
  case (accepted f q)
  let ?i = "VideoRepositoryDb_Insert L G (new_video q)"
  note repo = store_contract.is_video_repository [OF store]
  have post: "post (handleCreateVideo Q (gorm_server L G A get put ready) r fresh) w = post ?i w"
    by (simp add: accepted(3) store_video_def split_beta)
  show ?thesis
  proof (cases "val ?i w")
    case (Ok v)
    have i: "val (vr_Insert (VideoRepositoryDb L G) (new_video q)) w = Ok v" using Ok by simp
    note ins = video_repository_contract.vInsert_Ok [OF repo i]
    have same: "v\<lparr>video_Jobs := []\<rparr> = v" using ins by simp
    have "videos (ext (post ?i w)) = (videos (ext w))(video_ID v \<mapsto> v\<lparr>video_Jobs := []\<rparr>)" using ins by simp
    then have "videos (ext (post ?i w)) = (videos (ext w))(video_ID v \<mapsto> v)" unfolding same .
    moreover have "val (handleCreateVideo Q (gorm_server L G A get put ready) r fresh) w =
        Ok (writeJSON Q 201 (VideoResponse_json (toVideoResponse v)) fresh)"
      using Ok by (simp add: accepted(3) store_video_def split_beta)
    ultimately show ?thesis
      using ins video_repository_contract.vInsert_jobs [OF repo, of "new_video q" w] accepted(1,2)
      by (intro exI [of _ "writeJSON Q 201 (VideoResponse_json (toVideoResponse v)) fresh"] conjI impI
           exI [of _ f] exI [of _ q] exI [of _ v]) (simp_all add: post)
  next
    case (Err e)
    then show ?thesis
      by (intro exI [of _ "writeError Q 500 ''internal server error'' fresh"])
         (simp add: accepted(3) store_video_def split_beta)
  next
    case Panic
    then show ?thesis using video_repository_contract.v_no_panic(2) [OF repo, of "new_video q" w] by simp
  qed
qed

text \<open>A request for a new video, with white space to trim.\<close>

definition demo_video_request :: request where
  "demo_video_request = post_request ''/videos'' (marshal [(''resource_id'', ''r''), (''file_path'', '' a.mp4 '')])"

lemma demo_video_request_read:
  "readJSON demo_api [''resource_id'', ''file_path''] demo_video_request fresh =
     Inr (\<lambda>k. case map_of [(''resource_id'', ''r''), (''file_path'', '' a.mp4 '')] k of Some v \<Rightarrow> v | None \<Rightarrow> '''')"
proof -
  have "length (marshal [(''resource_id'', ''r''), (''file_path'', '' a.mp4 '')]) \<le> 100"
    by code_simp
  then have "Decode [''resource_id'', ''file_path''] demo_video_request =
      Inr ((\<lambda>k. case map_of [(''resource_id'', ''r''), (''file_path'', '' a.mp4 '')] k of Some v \<Rightarrow> v | None \<Rightarrow> ''''), [])"
    using Decode_marshal [of "[(''resource_id'', ''r''), (''file_path'', '' a.mp4 '')]"
        "[''resource_id'', ''file_path'']" demo_video_request "[]"]
    by (simp add: demo_video_request_def post_request_def plain_def valid_utf8_ascii maxBodyBytes_def)
  then show ?thesis by (simp add: readJSON_def More_def)
qed

lemma demo_video_trim: "TrimSpace ''r'' = ''r''" "TrimSpace '' a.mp4 '' = ''a.mp4''"
  by code_simp+

lemma demo_stored:
  "\<exists>w'. val (handleCreateVideo demo_api demo_server demo_video_request fresh) api_world = Ok w' \<and> sent_status w' = 201"
  by (simp add: handleCreateVideo_def demo_video_request_read demo_video_trim demo_server_def exec_simps Let_def split_beta
      mem_gorm_def faulty_def api_world_def demo_ext_def memworld.defs mem_video_def demo_video_def with_id_def
      mem_lib_def maxFieldLen_def containsNUL_def IndexByte_nonneg NewVideo_def demo_id_def demo_job_id_def)

theorem create_video_stores_witness:
  "\<exists>v. mem_video (ext (post (handleCreateVideo demo_api demo_server demo_video_request fresh) api_world)) =
       (mem_video (ext api_world))(video_ID v \<mapsto> v) \<and>
     mem_video (ext api_world) (video_ID v) = None \<and> video_ResourceID v = ''r'' \<and> video_FilePath v = ''a.mp4''"
proof -
  obtain w' where w': "val (handleCreateVideo demo_api demo_server demo_video_request fresh) api_world = Ok w'"
    "sent_status w' = 201" using demo_stored by blast
  obtain f q v where v: "readJSON demo_api [''resource_id'', ''file_path''] demo_video_request fresh = Inr f"
    "video_request_ok f q" "video_ResourceID v = cv_ResourceID q" "video_FilePath v = cv_FilePath q"
    "mem_video (ext api_world) (video_ID v) = None"
    "mem_video (ext (post (handleCreateVideo demo_api demo_server demo_video_request fresh) api_world)) =
       (mem_video (ext api_world))(video_ID v \<mapsto> v)"
    using create_video_stores [OF mem.store_contract_axioms, of demo_api mem_amqp aw_client
      "\<lambda>c x. x\<lparr>aw_client := c\<rparr>" None demo_video_request api_world, folded demo_server_def] w'(2)
    unfolding w'(1) res.inject by blast
  have "f = (\<lambda>k. case map_of [(''resource_id'', ''r''), (''file_path'', '' a.mp4 '')] k of Some v \<Rightarrow> v | None \<Rightarrow> '''')"
    using v(1) demo_video_request_read by simp
  then have "cv_ResourceID q = ''r''" "cv_FilePath q = ''a.mp4''"
    using v(2) demo_video_trim by (simp_all add: video_request_ok_def)
  then show ?thesis using v(3-6) by (intro exI [of _ v]) simp
qed

text \<open>
  C33: Reading a video changes no row and answers faithfully: 400 without any call exactly when the id is
  not a UUID; 200 with the stored row and all its jobs when it is found; 404 only when there is no
  such row; otherwise 500 with the fixed text.
\<close>

theorem get_video_faithful:
  assumes store: "store_contract G jobs videos L"
  shows "\<exists>w1. val (handleGetVideo Q (gorm_server L G A get put ready) r fresh) w = Ok w1 \<and>
    sent_status w1 \<in> {200, 400, 404, 500} \<and>
    (sent_status w1 = 400 \<longleftrightarrow> \<not> validUUID Q (rq_id r)) \<and>
    (sent_status w1 = 400 \<longrightarrow> post (handleGetVideo Q (gorm_server L G A get put ready) r fresh) w = w) \<and>
    videos (ext (post (handleGetVideo Q (gorm_server L G A get put ready) r fresh) w)) = videos (ext w) \<and>
    jobs (ext (post (handleGetVideo Q (gorm_server L G A get put ready) r fresh) w)) = jobs (ext w) \<and>
    (sent_status w1 = 200 \<longrightarrow> (\<exists>v. videos (ext w) (rq_id r) = Some (v\<lparr>video_Jobs := []\<rparr>) \<and>
       set (video_Jobs v) = {j. \<exists>k. jobs (ext w) k = Some j \<and> job_VideoID j = rq_id r} \<and>
       w1 = writeJSON Q 200 (VideoResponse_json (toVideoResponse v)) fresh)) \<and>
    (sent_status w1 = 404 \<longrightarrow> videos (ext w) (rq_id r) = None) \<and>
    (sent_status w1 = 500 \<longrightarrow> w1 = writeError Q 500 ''internal server error'' fresh)"
proof (cases "validUUID Q (rq_id r)")
  case False
  then show ?thesis by (simp add: handleGetVideo_def)
next
  case True
  note repo = store_contract.is_video_repository [OF store]
  let ?v = "VideoRepositoryDb_Find G (rq_id r)"
  have post: "post (handleGetVideo Q (gorm_server L G A get put ready) r fresh) w = post ?v w"
    using True by (simp add: handleGetVideo_def split_beta)
  note frame = video_repository_contract.vFind_reads [OF repo, of "rq_id r" w]
  show ?thesis
  proof (cases "val ?v w")
    case (Ok v)
    have "val (handleGetVideo Q (gorm_server L G A get put ready) r fresh) w =
        Ok (writeJSON Q 200 (VideoResponse_json (toVideoResponse v)) fresh)"
      using True Ok by (simp add: handleGetVideo_def split_beta)
    then show ?thesis
      using True Ok frame video_repository_contract.vFind_Ok [OF repo, of "rq_id r" w v]
      by (intro exI [of _ "writeJSON Q 200 (VideoResponse_json (toVideoResponse v)) fresh"] conjI impI exI [of _ v])
         (simp_all add: post)
  next
    case (Err e)
    then show ?thesis using True frame video_repository_contract.vFind_missing [OF repo, of "rq_id r" w e]
      by (simp add: post) (simp add: handleGetVideo_def split_beta)
  next
    case Panic
    then show ?thesis using video_repository_contract.v_no_panic(1) [OF repo, of "rq_id r" w] by simp
  qed
qed

lemma demo_lookup:
  "\<exists>w1. val (handleGetVideo demo_api demo_server (get_request ''/videos/x'' demo_id) fresh) api_world = Ok w1 \<and>
     sent_status w1 = 200"
  "\<exists>w1. val (handleGetJob demo_api demo_server (get_request ''/jobs/x'' demo_id) fresh) api_world = Ok w1 \<and>
     sent_status w1 = 404"
proof -
  have "length demo_id = 36" by (simp add: demo_id_def)
  then show "\<exists>w1. val (handleGetVideo demo_api demo_server (get_request ''/videos/x'' demo_id) fresh) api_world = Ok w1 \<and>
     sent_status w1 = 200"
    "\<exists>w1. val (handleGetJob demo_api demo_server (get_request ''/jobs/x'' demo_id) fresh) api_world = Ok w1 \<and>
     sent_status w1 = 404"
    by (simp_all add: handleGetVideo_def handleGetJob_def JobService_Find_def validUUID_def demo_api_def demo_server_def
        get_request_def exec_simps Let_def split_beta mem_gorm_def faulty_def api_world_def demo_ext_def memworld.defs
        mem_video_def mem_job_def not_found_as_def demo_video_def)
qed

theorem get_video_faithful_witness:
  "\<exists>v w1. val (handleGetVideo demo_api demo_server (get_request ''/videos/x'' demo_id) fresh) api_world = Ok w1 \<and>
     mem_video (ext api_world) demo_id = Some (v\<lparr>video_Jobs := []\<rparr>) \<and>
     w1 = writeJSON demo_api 200 (VideoResponse_json (toVideoResponse v)) fresh"
proof -
  have id: "rq_id (get_request ''/videos/x'' demo_id) = demo_id" by (simp add: get_request_def)
  obtain w1 where w1: "val (handleGetVideo demo_api demo_server (get_request ''/videos/x'' demo_id) fresh) api_world = Ok w1"
    "sent_status w1 = 200" using demo_lookup(1) by blast
  then show ?thesis
    using get_video_faithful [OF mem.store_contract_axioms, of demo_api mem_amqp aw_client
      "\<lambda>c x. x\<lparr>aw_client := c\<rparr>" None "get_request ''/videos/x'' demo_id" api_world, folded demo_server_def]
    unfolding id w1(1) res.inject by blast
qed

text \<open>
  C34: Reading a job changes no row and answers faithfully: 400 without any call exactly when the id is not a
  UUID; 200 with the stored row when it is found; 404 only when there is none; otherwise 500 with
  the fixed text.
\<close>

theorem get_job_faithful:
  assumes store: "store_contract G jobs videos L"
  shows "\<exists>w1. val (handleGetJob Q (gorm_server L G A get put ready) r fresh) w = Ok w1 \<and>
    sent_status w1 \<in> {200, 400, 404, 500} \<and>
    (sent_status w1 = 400 \<longleftrightarrow> \<not> validUUID Q (rq_id r)) \<and>
    (sent_status w1 = 400 \<longrightarrow> post (handleGetJob Q (gorm_server L G A get put ready) r fresh) w = w) \<and>
    jobs (ext (post (handleGetJob Q (gorm_server L G A get put ready) r fresh) w)) = jobs (ext w) \<and>
    (sent_status w1 = 200 \<longrightarrow> (\<exists>j. jobs (ext w) (rq_id r) = Some j \<and>
       w1 = writeJSON Q 200 (JobResponse_json (toJobResponse j)) fresh)) \<and>
    (sent_status w1 = 404 \<longrightarrow> jobs (ext w) (rq_id r) = None) \<and>
    (sent_status w1 = 500 \<longrightarrow> w1 = writeError Q 500 ''internal server error'' fresh)"
proof (cases "validUUID Q (rq_id r)")
  case False
  then show ?thesis by (simp add: handleGetJob_def)
next
  case True
  note repo = store_contract.is_job_repository [OF store]
  let ?j = "JobRepositoryDb_Find G (rq_id r)"
  have post: "post (handleGetJob Q (gorm_server L G A get put ready) r fresh) w = post ?j w"
    using True by (simp add: handleGetJob_def JobService_Find_def split_beta)
  have frame: "jobs (ext (post ?j w)) = jobs (ext w)"
    using job_repository_contract.Find_reads [OF repo, of "rq_id r" w] by simp
  show ?thesis
  proof (cases "val ?j w")
    case (Ok j)
    have "val (handleGetJob Q (gorm_server L G A get put ready) r fresh) w =
        Ok (writeJSON Q 200 (JobResponse_json (toJobResponse (row_of j))) fresh)"
      using True Ok by (simp add: handleGetJob_def JobService_Find_def split_beta)
    then show ?thesis
      using True Ok frame job_repository_contract.Find_Ok [OF repo, of "rq_id r" w j]
      by (intro exI [of _ "writeJSON Q 200 (JobResponse_json (toJobResponse (row_of j))) fresh"] conjI impI
           exI [of _ "row_of j"]) (simp_all add: post)
  next
    case (Err e)
    then show ?thesis using True frame job_repository_contract.Find_missing [OF repo, of "rq_id r" w e]
      by (simp add: post) (simp add: handleGetJob_def JobService_Find_def split_beta)
  next
    case Panic
    then show ?thesis using job_repository_contract.no_panic(1) [OF repo, of "rq_id r" w] by simp
  qed
qed

theorem get_job_faithful_witness:
  "\<exists>w1. val (handleGetJob demo_api demo_server (get_request ''/jobs/x'' demo_id) fresh) api_world = Ok w1 \<and>
     sent_status w1 = 404 \<and> mem_job (ext api_world) demo_id = None"
proof -
  have id: "rq_id (get_request ''/jobs/x'' demo_id) = demo_id" by (simp add: get_request_def)
  obtain w1 where w1: "val (handleGetJob demo_api demo_server (get_request ''/jobs/x'' demo_id) fresh) api_world = Ok w1"
    "sent_status w1 = 404" using demo_lookup(2) by blast
  then show ?thesis
    using get_job_faithful [OF mem.store_contract_axioms, of demo_api mem_amqp aw_client
      "\<lambda>c x. x\<lparr>aw_client := c\<rparr>" None "get_request ''/jobs/x'' demo_id" api_world, folded demo_server_def]
    unfolding id w1(1) res.inject by blast
qed


text \<open>The statuses the handlers' annotations list.\<close>

fun documented :: "endpoint \<Rightarrow> nat set" where
  "documented Healthz = {200}"
| "documented Readyz = {200, 503}"
| "documented CreateVideo = {201, 400, 413, 500}"
| "documented GetVideo = {200, 400, 404, 500}"
| "documented CreateJob = {202, 400, 404, 413, 502}"
| "documented GetJob = {200, 400, 404, 500}"
| "documented Swagger = {200}"

lemma answers_serve:
  assumes "mux_choose routes (rq_Method r) (rq_Path r) = Handle e i" "e \<noteq> Swagger"
    "\<forall>f. ready = Some f \<longrightarrow> panic_free (f RequestCtx)"
  shows "answers (documented e \<union> (if e = CreateJob then {500} else {}))
    (serve Q (gorm_server L G A get put ready) other r fresh)"
proof -
  have job: "{500, 202, 400, 404, 413, 502} = {202, 400, 404, 413, 500, 502::nat}" by auto
  show ?thesis
    using assms answers_Healthz answers_Readyz answers_CreateVideo answers_GetVideo
      answers_CreateJob answers_GetJob
    by (cases e) (simp_all add: serve_def Let_def job)
qed

text \<open>
  Every request that reaches a handler gets exactly one JSON answer, and the log shows its status: the
  handler does not panic, calls \<^verbatim>\<open>WriteHeader\<close> once, with a status its documentation lists (or 500 for
  \<^verbatim>\<open>POST /jobs\<close>, which the documentation leaves out), and an answer with 500 has the one fixed body,
  whatever the error was.
\<close>

theorem one_answer_per_request:
  assumes "mux_choose routes (rq_Method r) (rq_Path r) = Handle e i" "e \<noteq> Swagger"
    "\<forall>f. ready = Some f \<longrightarrow> panic_free (f RequestCtx)"
  shows "\<exists>rw st. val (Handler Q (gorm_server L G A get put ready) other r) w = Ok (rw, st) \<and>
    rw_codes rw = [st] \<and> st \<in> documented e \<union> (if e = CreateJob then {500} else {}) \<and>
    rw_ContentType rw = ''application/json'' \<and>
    (st = 500 \<longrightarrow> rw_body rw = marshal [(''error'', ''internal server error'')] @ [CHR 0x0A])"
proof -
  obtain w' where w': "val (serve Q (gorm_server L G A get put ready) other r fresh) w = Ok w'"
    "answered (documented e \<union> (if e = CreateJob then {500} else {})) w'"
    using answers_serve [OF assms] unfolding answers_def by blast
  have "val (Handler Q (gorm_server L G A get put ready) other r) w = Ok (response_writer.truncate w', rec_status w')"
    using w'(1) by (simp add: Handler_def logRequests_def fresh_def [symmetric] split_beta)
  then show ?thesis
    using w'(2) by (intro exI [of _ "response_writer.truncate w'"] exI [of _ "rec_status w'"])
      (simp add: answered_def internal_body_def response_writer.defs)
qed

theorem one_answer_per_request_witness:
  "\<exists>rw. val (Handler demo_api demo_server (\<lambda>t w. w) (get_request ''/healthz'' '''')) api_world = Ok (rw, 200) \<and> rw_codes rw = [200]"
proof -
  have "mux_choose routes ''GET'' ''/healthz'' = Handle Healthz None" by code_simp
  then show ?thesis
    using one_answer_per_request [of "get_request ''/healthz'' ''''" Healthz None None demo_api mem_lib mem_gorm
      mem_amqp aw_client "\<lambda>c x. x\<lparr>aw_client := c\<rparr>" "\<lambda>t w. w" api_world, folded demo_server_def]
    by (fastforce simp: get_request_def)
qed


text \<open>A body of blanks as long as the limit and one byte more is too long.\<close>

lemma scan_blanks: "scan_json (replicate n (CHR 0x20)) = Incomplete"
proof -
  have "scan_value (MValue, []) (replicate n (CHR 0x20)) = Incomplete"
    by (induction n) (simp_all add: settle_def begin_value_def is_json_space_def)
  then show ?thesis by (simp add: scan_json_def)
qed


text \<open>
  C36: A request body is the encoding of a struct of the expected fields, and may be followed by any bytes
  that start with a closing bracket: the check for trailing data does not see them.
\<close>

theorem trailing_bracket_accepted:
  assumes "ms \<noteq> []" "list_all (\<lambda>(k, v). plain k \<and> valid_utf8 v) ms" "distinct (map fst ms)"
    "fst ` set ms \<subseteq> set fs" "length (marshal ms) \<le> maxBodyBytes"
    "rq_Body r \<in> {marshal ms} \<union> (\<lambda>junk. marshal ms @ CHR ''}'' # junk) ` UNIV \<union> (\<lambda>junk. marshal ms @ CHR '']'' # junk) ` UNIV"
  shows "readJSON Q fs r fresh = Inr (\<lambda>k. case map_of ms k of Some v \<Rightarrow> v | None \<Rightarrow> '''')"
proof -
  obtain junk where b: "rq_Body r = marshal ms @ junk" "junk = [] \<or> hd junk \<in> {CHR ''}'', CHR '']''}"
    using assms(6) by auto
  have "\<not> More (take n junk)" for n
    using b(2) by (cases n; cases junk) (auto simp: More_def is_json_space_def)
  then show ?thesis
    using Decode_marshal [OF assms(1-4) b(1) assms(5)] by (simp add: readJSON_def)
qed

theorem trailing_bracket_accepted_witness:
  "readJSON demo_api [''video_id''] (post_request ''/jobs'' (marshal [(''video_id'', ''a'')] @ ''} {}'')) fresh =
     Inr (\<lambda>k. case map_of [(''video_id'', ''a'')] k of Some v \<Rightarrow> v | None \<Rightarrow> '''')"
proof (rule trailing_bracket_accepted)
  have "length (marshal [(''video_id'', ''a'')]) \<le> 100" by code_simp
  then show "length (marshal [(''video_id'', ''a'')]) \<le> maxBodyBytes" by (simp add: maxBodyBytes_def)
qed (simp_all add: plain_def valid_utf8_ascii post_request_def)


text \<open>A path of two segments is clean.\<close>

lemma two_segments:
  assumes "p \<in> {''videos'', ''jobs''}" "valid_name i"
  shows "cleanPath (slash # p @ slash # i) = slash # p @ slash # i" "segments (slash # p @ slash # i) = [p, i]"
    "last (slash # p @ slash # i) \<noteq> slash"
proof -
  have i: "i \<noteq> []" "slash \<notin> set i" using assms(2) by (auto simp: valid_name_def)
  have "last (slash # p @ slash # i) = last i" using i by simp
  moreover have "last i \<in> set i" using i(1) by (rule last_in_set)
  ultimately show l: "last (slash # p @ slash # i) \<noteq> slash" using i(2) by metis
  have "clean_dir ''/videos''" "clean_dir ''/jobs''" by code_simp+
  then have "clean_dir (slash # p)" using assms(1) by auto
  from clean_dir_Join1(2) [OF this assms(2)] have "Clean (slash # p @ slash # i) = slash # p @ slash # i"
    by (simp add: clean_dir_def)
  then show "cleanPath (slash # p @ slash # i) = slash # p @ slash # i"
    using l by (simp add: cleanPath_def Let_def)
  have "split_slash p = [p]" "split_slash i = [i]" using assms(1) i by (auto intro!: split_slash_plain)
  then show "segments (slash # p @ slash # i) = [p, i]"
    using split_slash_append [of "[]" "p @ slash # i"] split_slash_append [of p i]
    by (simp add: segments_def)
qed

lemma fixed_paths:
  "p \<in> {''/healthz'', ''/readyz'', ''/videos'', ''/jobs''} \<Longrightarrow> cleanPath p = p \<and> segments p = [tl p] \<and> last p \<noteq> slash"
  by (elim insertE emptyE; simp only:; code_simp)

lemmas mux_defs = mux_choose_def find_handler_def is_subtree_root_def routes_def match_method_def match_path_def Let_def

text \<open>
  The router sends every request to the handler its pattern names: for the paths of the API and every
  id that is one path segment, \<^verbatim>\<open>GET\<close> (or \<^verbatim>\<open>HEAD\<close>) and \<^verbatim>\<open>POST\<close> reach their handlers with the id, and any
  other method is answered with 405.
\<close>

theorem routes_reach_handlers:
  assumes "valid_name i"
  shows "mux_choose routes m ''/healthz'' = (if m \<in> {''GET'', ''HEAD''} then Handle Healthz None else MethodNotAllowed) \<and>
    mux_choose routes m ''/readyz'' = (if m \<in> {''GET'', ''HEAD''} then Handle Readyz None else MethodNotAllowed) \<and>
    mux_choose routes m ''/videos'' = (if m = ''POST'' then Handle CreateVideo None else MethodNotAllowed) \<and>
    mux_choose routes m ''/jobs'' = (if m = ''POST'' then Handle CreateJob None else MethodNotAllowed) \<and>
    mux_choose routes m (''/videos/'' @ i) = (if m \<in> {''GET'', ''HEAD''} then Handle GetVideo (Some i) else MethodNotAllowed) \<and>
    mux_choose routes m (''/jobs/'' @ i) = (if m \<in> {''GET'', ''HEAD''} then Handle GetJob (Some i) else MethodNotAllowed)"
proof (intro conjI)
  have i: "i \<noteq> []" using assms by (auto simp: valid_name_def)
  show "mux_choose routes m ''/healthz'' = (if m \<in> {''GET'', ''HEAD''} then Handle Healthz None else MethodNotAllowed)"
    using fixed_paths [of "''/healthz''"] by (simp add: mux_defs)
  show "mux_choose routes m ''/readyz'' = (if m \<in> {''GET'', ''HEAD''} then Handle Readyz None else MethodNotAllowed)"
    using fixed_paths [of "''/readyz''"] by (simp add: mux_defs)
  show "mux_choose routes m ''/videos'' = (if m = ''POST'' then Handle CreateVideo None else MethodNotAllowed)"
    using fixed_paths [of "''/videos''"] by (simp add: mux_defs)
  show "mux_choose routes m ''/jobs'' = (if m = ''POST'' then Handle CreateJob None else MethodNotAllowed)"
    using fixed_paths [of "''/jobs''"] by (simp add: mux_defs)
  show "mux_choose routes m (''/videos/'' @ i) = (if m \<in> {''GET'', ''HEAD''} then Handle GetVideo (Some i) else MethodNotAllowed)"
    using two_segments [of "''videos''" i] assms i by (simp add: mux_defs)
  show "mux_choose routes m (''/jobs/'' @ i) = (if m \<in> {''GET'', ''HEAD''} then Handle GetJob (Some i) else MethodNotAllowed)"
    using two_segments [of "''jobs''" i] assms i by (simp add: mux_defs)
qed

theorem routes_reach_handlers_witness:
  "mux_choose routes ''HEAD'' (''/videos/'' @ demo_id) = Handle GetVideo (Some demo_id) \<and>
   mux_choose routes ''DELETE'' (''/videos/'' @ demo_id) = MethodNotAllowed"
proof -
  have "valid_name demo_id" by code_simp
  then show ?thesis
    using routes_reach_handlers [of demo_id "''HEAD''"] routes_reach_handlers [of demo_id "''DELETE''"] by simp
qed

end
