(* ===== verification/Http_Server.thy ===== *)
theory Http_Server
  imports Api_Spec Database
begin

text \<open>
  The HTTP server as \<^verbatim>\<open>main\<close> builds it, over the repositories and a publisher of its own, with its readiness
  check; and what its handlers do to what they share with the rest of the program: they settle no
  delivery, they leave alone what the outside calls leave alone, and they keep account of the
  connection of the publisher. \<open>get\<close> and \<open>put\<close> are the cell of the publisher's client.
\<close>

section \<open>The server of the program\<close>

text \<open>The readiness check given to the API: the details of a failure stay inside.\<close>

definition ready_check :: "'w driver \<Rightarrow> 'w amqp \<Rightarrow> ('w \<Rightarrow> client) \<Rightarrow> (client \<Rightarrow> 'w \<Rightarrow> 'w) \<Rightarrow> handle \<Rightarrow> ctx \<Rightarrow> ('w, unit res) io" where
  "ready_check D A get put sqlDB x = do {
     p \<leftarrow> perform (dv_ping D sqlDB x) (\<lambda>r. Boot (EvPing sqlDB x r));
     case p of
       Some err \<Rightarrow> ret (Err (ErrText ''database unavailable''))
     | None \<Rightarrow> do {
         r \<leftarrow> via get put (EnsureReady A);
         ret (case r of Err err \<Rightarrow> Err (ErrText ''queue unavailable'') | Panic \<Rightarrow> Panic | Ok _ \<Rightarrow> Ok ())
       }
   }"

definition main_server :: "'w lib \<Rightarrow> 'w gorm \<Rightarrow> 'w amqp \<Rightarrow> 'w driver \<Rightarrow> ('w \<Rightarrow> client) \<Rightarrow> (client \<Rightarrow> 'w \<Rightarrow> 'w) \<Rightarrow> handle \<Rightarrow> 'w server" where
  "main_server L G A D get put sqlDB = gorm_server L G A get put (Some (ready_check D A get put sqlDB))"

text \<open>What \<^verbatim>\<open>EnsureReady\<close> ends with.\<close>

lemma EnsureReady_run:
  "snd (val (EnsureReady A c) w) \<noteq> Panic"
  "snd (val (EnsureReady A c) w) = Ok () \<Longrightarrow>
     qc_Connection (fst (val (EnsureReady A c) w)) \<noteq> None \<and> qc_Channel (fst (val (EnsureReady A c) w)) \<noteq> None"
  using readyLocked_run [of A c w] connectLocked_log(2,3) [of A "c\<lparr>qc_Channel := None, qc_Connection := None\<rparr>" "post (closeLocked A c) w"]
    closeLocked_client [of A c w]
  by (auto simp: EnsureReady_def split_beta)

lemma ready_check_panic_free: "panic_free (ready_check D A get put h x)"
  by (simp add: EnsureReady_run(1) panic_free_def ready_check_def exec_simps split_beta Let_def split: option.split res.split)


section \<open>Quiet events\<close>

text \<open>Events that settle no delivery, and among them those that publish nothing either.\<close>

definition unsettling :: "event \<Rightarrow> bool" where
  "unsettling e \<longleftrightarrow> settled [e] = []"

definition quiet :: "event \<Rightarrow> bool" where
  "quiet e \<longleftrightarrow> settled [e] = [] \<and> publishes [e] = []"

lemma quiet_simps [simp]:
  "quiet (AMQP (EvDial u a))" "quiet (AMQP (EvOpenChannel h b))" "quiet (AMQP (EvQos h k r))"
  "quiet (AMQP (EvCloseChannel h r))" "quiet (AMQP (EvCloseConn h r))"
  "quiet (AMQP (EvExchangeDeclare h x r))" "quiet (AMQP (EvQueueDeclare h x d r))"
  "quiet (AMQP (EvQueueBind h q x r))" "quiet (AMQP (EvConsume h q n g r))" "quiet (DB e)" "quiet (Boot f)"
  "unsettling (AMQP (EvPublish h c q p r))"
  by (simp_all add: quiet_def unsettling_def)

text \<open>The bodies that were published with success.\<close>

definition sent :: "event list \<Rightarrow> string list" where
  "sent es = map (\<lambda>(x, q, b, r). b) (filter (\<lambda>(x, q, b, r). r = None) (publishes es))"

lemma sent_simps [simp]: "sent [] = []" "sent (es @ fs) = sent es @ sent fs"
  by (simp_all add: sent_def)

lemma emits_unsettling: "emits quiet m \<Longrightarrow> emits unsettling m"
  by (erule emits_mono) (simp add: quiet_def unsettling_def)

lemma settled_unsettling: "list_all unsettling es \<Longrightarrow> settled es = []"
  by (induction es rule: settled.induct) (auto simp: unsettling_def)

lemma emits_settled: "emits unsettling m \<Longrightarrow> settled (log (post m w)) = settled (log w)"
  using emits_log [of unsettling m w] settled_unsettling [OF emits_events, of m w] by simp

lemma publishes_quiet: "list_all quiet es \<Longrightarrow> publishes es = []"
  by (induction es rule: publishes.induct) (auto simp: quiet_def)

lemma emits_sent: "emits quiet m \<Longrightarrow> sent (log (post m w)) = sent (log w)"
  using emits_log [of quiet m w] publishes_quiet [OF emits_events, of m w] by (simp add: sent_def)

lemma emits_get [emit_rules]: "emits P State_Monad.get"
  by (rule emitsI) simp

lemma emits_close [emit_rules]: "emits quiet (close_channel A h)" "emits quiet (close_conn A h)"
  unfolding close_channel_def close_conn_def by (auto intro!: emit_rules)

lemma emits_locked [emit_rules]:
  "emits quiet (connectLocked A c)" "emits quiet (closeLocked A c)" "emits quiet (readyLocked A c)"
  unfolding connectLocked_def closeLocked_def readyLocked_def by (auto intro!: emit_rules)

lemma emits_client_calls [emit_rules]:
  "emits quiet (Declare A c)" "emits quiet (Reconnect A c)" "emits quiet (Consume A c n g)" "emits quiet (EnsureReady A c)"
  unfolding Declare_def queue_declare_def Let_def Reconnect_def reconnectLocked_def Consume_def EnsureReady_def
  by (auto intro!: emit_rules)

lemma emits_PublishJSON: "emits unsettling (PublishJSON A c x ms)"
  unfolding PublishJSON_def Publish_def publish_retry_def publishOnce_def reconnectLocked_def
  by (auto intro!: emit_rules emits_locked [THEN emits_unsettling])

lemma emits_repository [emit_rules]:
  "emits quiet (VideoRepositoryDb_Find G i)" "emits quiet (JobRepositoryDb_Find G i)"
  "emits quiet (VideoRepositoryDb_Insert L G v)"
  unfolding VideoRepositoryDb_Find_def JobRepositoryDb_Find_def VideoRepositoryDb_Insert_def by (auto intro!: emit_rules)

lemma emits_ready_check [emit_rules]: "emits quiet (ready_check D A get put h x)"
  unfolding ready_check_def by (auto intro!: emit_rules)

lemmas handler_defs = handleHealthz_def handleReadyz_def handleCreateVideo_def handleGetVideo_def
  handleCreateJob_def handleGetJob_def

definition creates_job :: "request \<Rightarrow> bool" where
  "creates_job r \<longleftrightarrow> (\<exists>i. mux_choose routes (rq_Method r) (rq_Path r) = Handle CreateJob i)"

lemma emits_handlers:
  "emits quiet (handleHealthz Q w)" "emits quiet (handleReadyz Q (main_server L G A D get put h) w)"
  "emits quiet (handleCreateVideo Q (main_server L G A D get put h) r w)"
  "emits quiet (handleGetVideo Q (main_server L G A D get put h) r w)"
  "emits quiet (handleGetJob Q (main_server L G A D get put h) r w)"
  unfolding main_server_def gorm_server_sel Let_def handler_defs repository_sel JobService_Find_def gorm_service_sel
    deref_simps option.case
  by (auto intro!: emit_rules)

lemma emits_Handler_quiet:
  assumes "\<not> creates_job r"
  shows "emits quiet (Handler Q (main_server L G A D get put h) other r)"
  unfolding Handler_def logRequests_def serve_def Let_def
  using assms by (auto simp: creates_job_def intro!: emit_rules emits_handlers split: target.split endpoint.split)

lemma emits_Handler: "emits unsettling (Handler Q (main_server L G A D get put h) other r)"
proof -
  have "emits unsettling (handleCreateJob Q (main_server L G A D get put h) r w)" for r w
    unfolding main_server_def gorm_server_sel Let_def handler_defs repository_sel client_publisher_def publisher.select_convs
    by (auto intro!: emit_rules emits_PublishJSON emits_repository [THEN emits_unsettling])
  then show ?thesis
    unfolding Handler_def logRequests_def serve_def Let_def
    by (auto intro!: emit_rules emits_handlers [THEN emits_unsettling] split: target.split endpoint.split)
qed


section \<open>What a request leaves alone\<close>

text \<open>\<open>V\<close> reads a part of the world that lookups, a new video, random ids, the broker and a ping of the
  database do not change.\<close>

locale server_frame = amqp_contract A V
  for A :: "'w amqp" and V :: "'w \<Rightarrow> 'v" +
  fixes L :: "'w lib" and G :: "'w gorm" and D :: "'w driver" and h :: handle
  assumes lookup_frame: "V (snd (gorm_first_video G i x)) = V x" "V (snd (gorm_first_job G i x)) = V x"
    and create_frame: "video_Jobs v = [] \<Longrightarrow> V (snd (gorm_create_video G v x)) = V x"
    and new_id_frame: "V (snd (lib_uuid L x)) = V x"
    and ping_frame: "V (snd (dv_ping D h y x)) = V x"
begin

lemma keeps_lookup: "keeps V (VideoRepositoryDb_Find G i)" "keeps V (JobRepositoryDb_Find G i)"
  by (rule keepsI, simp add: exec_simps Let_def lookup_frame)+

lemma keeps_new_video: "keeps V (VideoRepositoryDb_Insert L G (new_video q))"
  by (rule keepsI) (simp add: exec_simps Let_def with_id_def new_video_def NewVideo_def create_frame new_id_frame)

lemma keeps_ping: "keeps V (perform (dv_ping D h y) ev)"
  by (intro keep_rules) (rule ping_frame)

end

text \<open>The tables are beside the cell of the publisher.\<close>

locale server_beside = server_frame A V L G D h
  for A :: "'w amqp" and V :: "'w \<Rightarrow> 'v" and L G D h +
  fixes put :: "client \<Rightarrow> 'w \<Rightarrow> 'w"
  assumes cell_frame: "V (put c x) = V x"
begin

lemma keeps_ready_check: "keeps V (ready_check D A get put h y)"
  unfolding ready_check_def by (intro keep_rules keeps_ping keeps_via keeps_client cell_frame ping_frame)

lemma keeps_Handler: "keeps V (Handler Q (main_server L G A D get put h) other r)"
proof -
  note rules = keep_rules keeps_lookup keeps_new_video keeps_via keeps_client cell_frame keeps_ready_check
  let ?s = "main_server L G A D get put h"
  have "keeps V (handleCreateVideo Q ?s r w)" for r w
    by (cases rule: handleCreateVideo_cases [of Q ?s r w])
       (auto simp: store_video_def main_server_def intro!: rules)
  then show ?thesis
    unfolding Handler_def logRequests_def serve_def Let_def handler_defs(1,2,4-)
    by (auto simp: main_server_def JobService_Find_def client_publisher_def intro!: rules
        split: target.split endpoint.split sum.split)
qed

end


section \<open>The connection of the publisher\<close>

text \<open>\<open>tracks get m\<close>: what the client in the cell owned and what \<open>m\<close> opened is what \<open>m\<close> closed and what
  the client in the cell then owns.\<close>

definition tracks :: "('w \<Rightarrow> client) \<Rightarrow> ('w, 'a) io \<Rightarrow> bool" where
  "tracks get m \<longleftrightarrow> (\<forall>w. \<exists>es. log (post m w) = log w @ es \<and>
     sum_list (map acquired es) + held (get (ext w)) = sum_list (map released es) + held (get (ext (post m w))))"

lemma tracks_owes: "owes {#} m \<Longrightarrow> keeps get m \<Longrightarrow> tracks get m"
  unfolding owes_def tracks_def by (metis add.right_neutral keepsD)

lemma tracks_ret [balance_rules]: "tracks get (ret x)"
  by (simp add: tracks_def)

lemma tracks_bind [balance_rules]:
  assumes "tracks get m" "\<And>x. tracks get (f x)"
  shows "tracks get (State_Monad.bind m f)"
  unfolding tracks_def
proof
  fix w
  obtain es where es: "log (post m w) = log w @ es"
    "sum_list (map acquired es) + held (get (ext w)) = sum_list (map released es) + held (get (ext (post m w)))"
    using assms(1) unfolding tracks_def by blast
  let ?w = "post (f (val m w)) (post m w)"
  obtain fs where fs: "log ?w = log (post m w) @ fs"
    "sum_list (map acquired fs) + held (get (ext (post m w))) = sum_list (map released fs) + held (get (ext ?w))"
    using assms(2) unfolding tracks_def by blast
  have "sum_list (map acquired (es @ fs)) + held (get (ext w)) = sum_list (map released (es @ fs)) + held (get (ext ?w))"
    using es(2) fs(2) by (simp add: union_ac) (metis union_assoc union_commute)
  then show "\<exists>es. log (post (State_Monad.bind m f) w) = log w @ es \<and> sum_list (map acquired es) + held (get (ext w)) =
      sum_list (map released es) + held (get (ext (post (State_Monad.bind m f) w)))"
    using es(1) fs(1) by (intro exI [of _ "es @ fs"]) (simp add: post_bind del: run_state_bind)
qed

lemma tracks_if [balance_rules]: "(b \<Longrightarrow> tracks get m) \<Longrightarrow> (\<not> b \<Longrightarrow> tracks get n) \<Longrightarrow> tracks get (if b then m else n)"
  by simp

lemma tracks_case_res [balance_rules]:
  "(\<And>x. r = Ok x \<Longrightarrow> tracks get (f x)) \<Longrightarrow> (\<And>e. r = Err e \<Longrightarrow> tracks get (g e)) \<Longrightarrow> (r = Panic \<Longrightarrow> tracks get m) \<Longrightarrow>
    tracks get (case r of Ok x \<Rightarrow> f x | Err e \<Rightarrow> g e | Panic \<Rightarrow> m)"
  by (simp split: res.split)

lemma tracks_case_option [balance_rules]:
  "(r = None \<Longrightarrow> tracks get m) \<Longrightarrow> (\<And>x. r = Some x \<Longrightarrow> tracks get (f x)) \<Longrightarrow>
    tracks get (case r of None \<Rightarrow> m | Some x \<Rightarrow> f x)"
  by (simp split: option.split)

lemma tracks_via:
  assumes "\<And>c. accounts c (m c)" "\<And>c x. get (put c x) = c"
  shows "tracks get (via get put m)"
  unfolding tracks_def
proof
  fix w
  show "\<exists>es. log (post (via get put m) w) = log w @ es \<and> sum_list (map acquired es) + held (get (ext w)) =
      sum_list (map released es) + held (get (ext (post (via get put m) w)))"
    using assms(1) [of "get (ext w)"] assms(2) unfolding accounts_def by (simp add: run_via Let_def)
qed

lemma emits_read_owes: "emits is_db_read m \<Longrightarrow> owes {#} m"
  by (rule emits_db_owes) (erule emits_mono, erule is_db_read.elims, simp_all)

lemma owes_repository: "owes {#} (VideoRepositoryDb_Find G i)" "owes {#} (JobRepositoryDb_Find G i)"
  "owes {#} (VideoRepositoryDb_Insert L G v)"
  by (intro emits_read_owes emits_db_owes emits_repositories)+

text \<open>The publisher's struct is memory of the process: no outside call changes it.\<close>

locale publisher_cell = server_frame A get L G D h
  for A :: "'w amqp" and get :: "'w \<Rightarrow> client" and L G D h +
  fixes put :: "client \<Rightarrow> 'w \<Rightarrow> 'w"
  assumes cell: "get (put c x) = c"
begin

lemma tracks_repository:
  "tracks get (VideoRepositoryDb_Find G i)" "tracks get (JobRepositoryDb_Find G i)"
  "tracks get (VideoRepositoryDb_Insert L G (new_video q))"
  by (intro tracks_owes owes_repository keeps_lookup keeps_new_video)+

lemma tracks_ready_check: "tracks get (ready_check D A get put h y)"
  unfolding ready_check_def
  by (intro balance_rules tracks_owes [OF _ keeps_ping] tracks_via accounts_EnsureReady cell) simp

lemma tracks_publish: "tracks get (via get put (\<lambda>c. PublishJSON A c x ms))"
  unfolding PublishJSON_def by (intro tracks_via accounts_Publish cell)

lemma tracks_Handler: "tracks get (Handler Q (main_server L G A D get put h) other r)"
proof -
  note rules = balance_rules tracks_repository tracks_ready_check tracks_publish
  let ?s = "main_server L G A D get put h"
  have "tracks get (handleCreateVideo Q ?s r w)" for r w
    by (cases rule: handleCreateVideo_cases [of Q ?s r w])
       (auto simp: store_video_def main_server_def intro!: rules)
  then show ?thesis
    unfolding Handler_def logRequests_def serve_def Let_def handler_defs(1,2,4-)
    by (auto simp: main_server_def JobService_Find_def client_publisher_def intro!: rules
        split: target.split endpoint.split sum.split)
qed

end


section \<open>Answers\<close>

text \<open>Every request is answered; a request that reaches a handler, once, in JSON, with a documented status that
  is also the one in the log, and an internal error with one fixed text.\<close>

definition well_answered :: "request \<Rightarrow> (response_writer \<times> nat) res \<Rightarrow> bool" where
  "well_answered r a \<longleftrightarrow> (\<exists>rw st. a = Ok (rw, st) \<and>
     (\<forall>e i. mux_choose routes (rq_Method r) (rq_Path r) = Handle e i \<and> e \<noteq> Swagger \<longrightarrow>
       rw_codes rw = [st] \<and> st \<in> documented e \<union> (if e = CreateJob then {500} else {}) \<and>
       rw_ContentType rw = ''application/json'' \<and>
       (st = 500 \<longrightarrow> rw_body rw = marshal [(''error'', ''internal server error'')] @ [CHR 0x0A])))"

lemma Handler_well_answered: "well_answered r (val (Handler Q (main_server L G A D get put h) other r) w)"
proof -
  have ready: "\<forall>f. Some (ready_check D A get put h) = Some f \<longrightarrow> panic_free (f RequestCtx)"
    by (simp add: ready_check_panic_free)
  have run: "val (Handler Q (main_server L G A D get put h) other r) w =
      (case val (serve Q (main_server L G A D get put h) other r fresh) w of
        Ok w' \<Rightarrow> Ok (response_writer.truncate w', rec_status w') | Err e \<Rightarrow> Err e | Panic \<Rightarrow> Panic)"
    by (simp add: Handler_def logRequests_def fresh_def [symmetric] split_beta)
  show ?thesis
  proof (cases "\<exists>e i. mux_choose routes (rq_Method r) (rq_Path r) = Handle e i \<and> e \<noteq> Swagger")
    case True
    then obtain e i where e: "mux_choose routes (rq_Method r) (rq_Path r) = Handle e i" "e \<noteq> Swagger" by blast
    from answers_serve [OF e ready, of Q L G A get put other]
    obtain w' where "val (serve Q (main_server L G A D get put h) other r fresh) w = Ok w'"
      "answered (documented e \<union> (if e = CreateJob then {500} else {})) w'"
      unfolding answers_def main_server_def by blast
    then show ?thesis
      using e by (auto simp: well_answered_def run answered_def internal_body_def response_writer.defs)
  next
    case False
    then have "\<exists>w'. val (serve Q (main_server L G A D get put h) other r fresh) w = Ok w'"
      by (auto simp: serve_def split: target.split endpoint.split)
    then show ?thesis using False by (auto simp: well_answered_def run)
  qed
qed


section \<open>What a job request sends\<close>

text \<open>The message of a job request, and whether its answer accepts it.\<close>

definition job_body :: "api_env \<Rightarrow> request \<Rightarrow> string" where
  "job_body Q r = (case readJSON Q [''video_id'', ''output_bucket_path''] r fresh of
       Inl w \<Rightarrow> ''''
     | Inr f \<Rightarrow> marshal (jwm_members \<lparr>jwm_VideoID = TrimSpace (f ''video_id''),
         jwm_OutputBucketPath = TrimSpace (f ''output_bucket_path'')\<rparr>))"

definition job_accepted :: "request \<Rightarrow> (response_writer \<times> nat) res \<Rightarrow> bool" where
  "job_accepted r a \<longleftrightarrow> creates_job r \<and> (\<exists>rw. a = Ok (rw, 202))"

lemma readJSON_rq_id [simp]: "readJSON Q fs (r\<lparr>rq_id := i\<rparr>) w = readJSON Q fs r w"
proof -
  have r: "rq_Body (r\<lparr>rq_id := i\<rparr>) = rq_Body r" "rq_broken (r\<lparr>rq_id := i\<rparr>) = rq_broken r" by simp_all
  show ?thesis unfolding readJSON_def Decode_def r ..
qed

lemma sent_of_publishes:
  assumes "publishes es = map (\<lambda>r. (x, q, b, r)) rs" "list_all (\<lambda>r. r \<noteq> None) (butlast rs)"
  shows "sent es = (if rs \<noteq> [] \<and> last rs = None then [b] else [])"
proof -
  have "sent es = map (\<lambda>r. b) (filter (\<lambda>r. r = None) rs)"
    by (simp add: sent_def assms(1) filter_map comp_def)
  moreover have "filter (\<lambda>r. r = None) rs = (if rs \<noteq> [] \<and> last rs = None then [None] else [])"
    using assms(2) by (cases rs rule: rev_cases) (auto simp: filter_empty_conv list_all_iff)
  ultimately show ?thesis by simp
qed

lemma handleCreateJob_sent:
  "\<exists>w' es. val (handleCreateJob Q (gorm_server L G A get put ready) r fresh) w = Ok w' \<and>
     log (post (handleCreateJob Q (gorm_server L G A get put ready) r fresh) w) = log w @ es \<and>
     sent es = (if rec_status w' = 202 then [job_body Q r] else []) \<and>
     (rec_status w' = 202 \<longrightarrow> (\<exists>m. job_body Q r = marshal (jwm_members m) \<and> parseJobWorkerMessage (job_body Q r) = Ok m))"
proof (cases rule: handleCreateJob_cases [of Q "gorm_server L G A get put ready" r fresh])
  case (refused st msg)
  then show ?thesis by (intro exI [of _ "writeError Q st msg fresh"] exI [of _ "[]"]) auto
next
  case (accepted f m)
  let ?s = "gorm_server L G A get put ready"
  let ?g = "gorm_first_video G (jwm_VideoID m) (ext w)"
  have m: "m = \<lparr>jwm_VideoID = TrimSpace (f ''video_id''), jwm_OutputBucketPath = TrimSpace (f ''output_bucket_path'')\<rparr>"
    using accepted(2) by (simp add: job_request_ok_def)
  have body: "job_body Q r = marshal (jwm_members m)" using accepted(1) by (simp add: job_body_def m)
  have pub: "publisher_contract (sv_publisher ?s) (\<lambda>x. qc_QueueName (get x))"
    by (simp add: client_pub.publisher_contract_axioms)
  obtain w' es rs where run: "val (enqueue_job Q ?s m fresh) w = Ok w'" "log (post (enqueue_job Q ?s m fresh) w) = log w @ es"
    "publishes es = map (\<lambda>r. (RequestCtx, qc_QueueName (get (snd ?g)), marshal (jwm_members m), r)) rs"
    "list_all (\<lambda>r. r \<noteq> None) (butlast rs)"
    "(rs \<noteq> [] \<and> last rs = None \<and>
       w' = writeJSON Q 202 (EnqueueResponse_json \<lparr>eq_VideoID = jwm_VideoID m,
         eq_OutputBucketPath = jwm_OutputBucketPath m, eq_Status = ''queued''\<rparr>) fresh) \<or>
     list_all (\<lambda>r. r \<noteq> None) rs \<and> refused_with Q {404, 500, 502} fresh w'"
    using enqueue_job_run [OF pub gorm_server_sel(1), of Q m fresh w] by blast
  note ev = sent_of_publishes [OF run(3,4)]
  have "rec_status w' = 202 \<longleftrightarrow> rs \<noteq> [] \<and> last rs = None"
    using run(5) by (cases rs rule: rev_cases) (auto simp: refused_with_def)
  then show ?thesis
    using run(1,2) ev accepted(3) body job_request_message [OF accepted(1,2)]
    by (intro exI [of _ w'] exI [of _ es]) auto
qed

lemma Handler_sent:
  "sent (log (post (Handler Q (main_server L G A D get put h) other r) w)) = sent (log w) @
      (if job_accepted r (val (Handler Q (main_server L G A D get put h) other r) w) then [job_body Q r] else []) \<and>
   (job_accepted r (val (Handler Q (main_server L G A D get put h) other r) w) \<longrightarrow>
     (\<exists>m. job_body Q r = marshal (jwm_members m) \<and> parseJobWorkerMessage (job_body Q r) = Ok m))"
proof (cases "creates_job r")
  case True
  let ?H = "Handler Q (main_server L G A D get put h) other r"
  obtain i where i: "mux_choose routes (rq_Method r) (rq_Path r) = Handle CreateJob i"
    using True by (auto simp: creates_job_def)
  let ?r = "r\<lparr>rq_id := (case i of None \<Rightarrow> '''' | Some x \<Rightarrow> x)\<rparr>"
  let ?m = "handleCreateJob Q (main_server L G A D get put h) ?r fresh"
  have run: "run_state ?H w = (case val ?m w of Ok w' \<Rightarrow> Ok (response_writer.truncate w', rec_status w')
      | Err e \<Rightarrow> Err e | Panic \<Rightarrow> Panic, post ?m w)"
    by (simp add: Handler_def logRequests_def serve_def i fresh_def [symmetric] split_beta)
  have "job_body Q ?r = job_body Q r" by (simp add: job_body_def)
  then show ?thesis
    using handleCreateJob_sent [of Q L G A get put "Some (ready_check D A get put h)" ?r w] run True
    by (auto simp: main_server_def job_accepted_def)
next
  case False
  then show ?thesis
    using emits_sent [OF emits_Handler_quiet [OF False], of Q L G A D get put h other w]
    by (simp add: job_accepted_def)
qed


section \<open>A concrete server with its readiness check\<close>

definition mem_driver :: "'a memworld_scheme driver" where
  "mem_driver = \<lparr>dv_postgres = (\<lambda>d. mm_open), dv_sqlite = (\<lambda>d. mm_open), dv_migrate = (\<lambda>h. mm_act),
     dv_sql_db = (\<lambda>h. mm_act), dv_ping = (\<lambda>h x. mm_act), dv_close = (\<lambda>h. mm_act)\<rparr>"

definition put_aw :: "client \<Rightarrow> apiworld \<Rightarrow> apiworld" where
  "put_aw c x = x\<lparr>aw_client := c\<rparr>"

text \<open>A world of the tests with the cell beside it, a connected publisher in it.\<close>

definition beside :: "memworld world \<Rightarrow> apiworld world" where
  "beside w = \<lparr>ext = memworld.extend (ext w) \<lparr>aw_client = connected\<rparr>, log = log w\<rparr>"

lemma mem_job_beside [simp]: "mem_job (ext (beside w)) = mem_job (ext w)" "log (beside w) = log w"
  by (simp_all add: beside_def mem_job_def memworld.defs fun_eq_iff)

lemma mem_job_put_aw: "mem_job (put_aw c x) = mem_job x"
  by (simp add: put_aw_def mem_job_def fun_eq_iff)

interpretation mem_beside: server_beside mem_amqp mem_job mem_lib mem_gorm mem_driver h put_aw for h
proof
  fix v :: video and i y and x :: apiworld
  show "mem_job (snd (gorm_first_video mem_gorm i x)) = mem_job x"
    "mem_job (snd (gorm_first_job mem_gorm i x)) = mem_job x"
    by (simp_all add: mem.first_video_reads mem.first_job_reads)
  show "video_Jobs v = [] \<Longrightarrow> mem_job (snd (gorm_create_video mem_gorm v x)) = mem_job x"
    by (rule mem.create_video_jobs)
  show "mem_job (snd (lib_uuid mem_lib x)) = mem_job x" by (rule mem.uuid_frame)
  show "mem_job (snd (dv_ping mem_driver h y x)) = mem_job x"
    by (simp add: mem_driver_def mm_act_def mem_job_def fun_eq_iff Let_def)
  show "mem_job (put_aw c x) = mem_job x" for c by (rule mem_job_put_aw)
qed

interpretation aw_mq: amqp_contract mem_amqp aw_client
  by unfold_locales (simp_all add: mem_amqp_def mm_open_def mm_act_def Let_def)

interpretation aw_cell: publisher_cell mem_amqp aw_client mem_lib mem_gorm mem_driver h put_aw for h
  by unfold_locales
     (auto simp: mem_gorm_def mem_lib_def mem_driver_def faulty_def mm_act_def put_aw_def Let_def split: option.split list.split)

end
