(* ===== verification/Program.thy ===== *)
theory Program
  imports Manager Http_Server
begin

text \<open>
  The program as \<^verbatim>\<open>main\<close> builds it: what its goroutines need of the stages of a payload and of the handling
  of a request, as contracts, and that the code keeps them, whatever the outside does.
\<close>

section \<open>What the pool needs of the stages of a payload\<close>

text \<open>A job that is worked on has its video.\<close>

fun fit :: "stage \<Rightarrow> bool" where
  "fit Begin \<longleftrightarrow> True"
| "fit (Marking j) \<longleftrightarrow> job_Video j \<noteq> None"
| "fit (Rendering j) \<longleftrightarrow> job_Video j \<noteq> None"
| "fit (Completing j) \<longleftrightarrow> job_Video j \<noteq> None"
| "fit (Failing j e) \<longleftrightarrow> job_Video j \<noteq> None"

text \<open>Each stage ends, without a panic, with a later one or with a result for its payload, and settles and
  publishes nothing.\<close>

locale stage_contract =
  fixes work :: "string \<Rightarrow> stage \<Rightarrow> ('w, (stage + job_worker_result) res) io"
  assumes work_goes: "fit st \<Longrightarrow>
      (\<exists>st'. val (work b st) w = Ok (Inl st') \<and> fit st' \<and> stages_left st' < stages_left st) \<or>
      (\<exists>r. val (work b st) w = Ok (Inr r) \<and> res_Payload r = b)"
    and work_quiet: "emits quiet (work b st)"
begin

lemma run_workD:
  assumes "fit st" "run_state (work b st) w = (x, w')"
  shows "x = Ok (Inl st') \<Longrightarrow> fit st' \<and> stages_left st' < stages_left st" "x = Ok (Inr r) \<Longrightarrow> res_Payload r = b" "x \<noteq> Panic"
  using work_goes [OF assms(1), of b w] assms(2) by auto

lemma run_work_log:
  assumes "run_state (work b st) w = (x, w')"
  shows "settled (log w') = settled (log w)" "sent (log w') = sent (log w)"
  using emits_settled [OF emits_unsettling [OF work_quiet], of b st w] emits_sent [OF work_quiet, of b st w] assms by simp_all

lemma run_work:
  assumes "fit st"
  obtains (next_stage) st' w' where "run_state (work b st) w = (Ok (Inl st'), w')"
  | (result) r w' where "run_state (work b st) w = (Ok (Inr r), w')"
  using work_goes [OF assms, of b w] by (metis prod.collapse)

end

lemma quiet_work: "is_work e \<Longrightarrow> quiet e"
  by (cases e) (auto simp: is_work_def quiet_def)

lemma emits_stage_step:
  assumes "configured L G P"
  shows "emits quiet (stage_step L T E M (Some (gorm_service L G)) P payload st)"
proof -
  have marks: "emits quiet (MarkProcessing (gorm_service L G) i)" "emits quiet (MarkCompleted (gorm_service L G) i)"
    "emits quiet (MarkFailed (gorm_service L G) i e)" "emits quiet (CreatePendingJob L (gorm_service L G) vid out)" for i e vid out
    by (auto intro!: emits_mono [OF emits_mark(1)] emits_mono [OF emits_mark(2)] emits_mono [OF emits_mark(3)]
        emits_mono [OF emits_CreatePendingJob] quiet_work simp: is_work_def)
  have media: "emits quiet (pipeline T E M p j)" for p j
    by (rule emits_mono [OF emits_pipeline]) (simp add: quiet_work is_work_def)
  show ?thesis
    using assms unfolding stage_step_def Let_def
    by (cases st) (auto simp: configured_def intro!: emit_rules marks media)
qed

lemma stage_step_goes:
  assumes p: "pr_JobService p = Some (gorm_service L G)" and cpu: "0 < rt_numcpu T" and fit: "fit st"
  shows "(\<exists>st'. val (stage_step L T E M (Some (gorm_service L G)) (Some p) b st) w = Ok (Inl st') \<and> fit st' \<and> stages_left st' < stages_left st) \<or>
      (\<exists>r. val (stage_step L T E M (Some (gorm_service L G)) (Some p) b st) w = Ok (Inr r) \<and> res_Payload r = b)"
proof (cases st)
  case Begin
  show ?thesis
  proof (cases "parseJobWorkerMessage b")
    case (Ok m)
    let ?c = "CreatePendingJob L (gorm_service L G) (jwm_VideoID m) (jwm_OutputBucketPath m)"
    show ?thesis
      using Ok Begin CreatePendingJob_panic_free [of L G "jwm_VideoID m" "jwm_OutputBucketPath m" w]
      by (cases "val ?c w") (auto simp: stage_step_def Let_def split_beta)
  qed (use Begin parse_not_panic [of b] in \<open>simp_all add: stage_step_def Let_def\<close>)
next
  case (Marking j)
  then show ?thesis
    using fit p updateStatus_gorm(3) [of L G "job_ID j" JobStatusProcessing "''''" w]
    by (cases "val (MarkProcessing (gorm_service L G) (job_ID j)) w") (simp_all add: run_Marking MarkProcessing_def run_wrap split_beta Let_def)
next
  case (Rendering j)
  then obtain v where "job_Video j = Some v" using fit by auto
  then have "val (pipeline T E M p j) w \<noteq> Panic" by (rule panic_freeD [OF pipeline_panic_free [OF cpu]])
  then show ?thesis using fit Rendering by (cases "val (pipeline T E M p j) w") (simp_all add: run_Rendering)
next
  case (Completing j)
  then show ?thesis
    using p updateStatus_gorm(3) [of L G "job_ID j" JobStatusCompleted "''''" w]
    by (cases "val (MarkCompleted (gorm_service L G) (job_ID j)) w")
       (simp_all add: stage_step_def MarkCompleted_def run_wrap split_beta Let_def)
next
  case (Failing j e)
  then show ?thesis
    using p updateStatus_gorm(3) [of L G "job_ID j" JobStatusFailed "err_text e" w]
    by (cases "val (MarkFailed (gorm_service L G) (job_ID j) (Some e)) w")
       (simp_all add: stage_step_def MarkFailed_def split_beta Let_def)
qed


section \<open>What the server needs of the handling of a request\<close>

text \<open>Of the handling of a request it needs that it is answered and settles nothing, and that it publishes
  a message, \<open>body\<close> of the request, exactly when it accepts a job.\<close>

locale handler_contract =
  fixes handle :: "request \<Rightarrow> ('w, (response_writer \<times> nat) res) io" and body :: "request \<Rightarrow> string"
  assumes handle_quiet: "emits unsettling (handle r)"
    and handle_answers: "well_answered r (val (handle r) w)"
    and handle_sends: "sent (log (post (handle r) w)) = sent (log w) @ (if job_accepted r (val (handle r) w) then [body r] else [])"
    and body_parses: "job_accepted r (val (handle r) w) \<Longrightarrow> \<exists>m. body r = marshal (jwm_members m) \<and> parseJobWorkerMessage (body r) = Ok m"
begin

lemma run_handleD:
  assumes "run_state (handle r) w = (a, w')"
  shows "settled (log w') = settled (log w)" "well_answered r a"
    "sent (log w') = sent (log w) @ (if job_accepted r a then [body r] else [])"
    "job_accepted r a \<Longrightarrow> \<exists>m. body r = marshal (jwm_members m) \<and> parseJobWorkerMessage (body r) = Ok m"
  using emits_settled [OF handle_quiet, of r w] handle_answers [of r w] handle_sends [of r w] body_parses [of r w] assms
  by simp_all

end

definition handle_of :: "'w config \<Rightarrow> request \<Rightarrow> ('w, (response_writer \<times> nat) res) io" where
  "handle_of K = Handler (cf_api K) (cf_server K) (cf_pages K)"

text \<open>A program that \<^verbatim>\<open>main\<close> has built keeps these contracts, whatever its database, its storage and its
  broker do.\<close>

definition built :: "'w config \<Rightarrow> 'w gorm \<Rightarrow> bool" where
  "built K G \<longleftrightarrow> cf_manager K = NewManager (cf_environ K) (Some (gorm_service (cf_lib K) G)) \<and>
     cf_server K = main_server (cf_lib K) G (cf_amqp K) (cf_driver K) (cf_get K) (cf_put K) (cf_sqlDB K)"

locale built_program =
  fixes G :: "'w gorm" and K :: "'w config"
  assumes cpu: "0 < rt_numcpu (cf_runtime K)"
    and is_built: "built K G"
begin

lemma pool_sel: "mg_JobService (cf_manager K) = Some (gorm_service (cf_lib K) G)"
    "mg_Processor (cf_manager K) = Some (NewProcessorFromEnv (cf_environ K) (Some (gorm_service (cf_lib K) G)))"
  using is_built by (simp_all add: built_def NewManager_def)

lemma processor_sel: "pr_JobService (NewProcessorFromEnv E S) = S"
  by (simp add: NewProcessorFromEnv_def)

end

sublocale built_program \<subseteq> stages: stage_contract "work_of K"
proof
  fix st b w
  show "(\<exists>st'. val (work_of K b st) w = Ok (Inl st') \<and> fit st' \<and> stages_left st' < stages_left st) \<or>
      (\<exists>r. val (work_of K b st) w = Ok (Inr r) \<and> res_Payload r = b)" if "fit st"
    unfolding work_of_def pool_sel by (rule stage_step_goes [OF processor_sel cpu that])
  show "emits quiet (work_of K b st)"
    unfolding work_of_def pool_sel by (rule emits_stage_step) (simp add: configured_def processor_sel)
qed

sublocale built_program \<subseteq> handler: handler_contract "handle_of K" "job_body (cf_api K)"
proof
  have server: "cf_server K = main_server (cf_lib K) G (cf_amqp K) (cf_driver K) (cf_get K) (cf_put K) (cf_sqlDB K)"
    using is_built by (simp add: built_def)
  fix r w
  show "emits unsettling (handle_of K r)" "well_answered r (val (handle_of K r) w)"
    by (simp_all add: handle_of_def server emits_Handler Handler_well_answered)
  show "sent (log (post (handle_of K r) w)) = sent (log w) @ (if job_accepted r (val (handle_of K r) w) then [job_body (cf_api K) r] else [])"
    "job_accepted r (val (handle_of K r) w) \<Longrightarrow>
       \<exists>m. job_body (cf_api K) r = marshal (jwm_members m) \<and> parseJobWorkerMessage (job_body (cf_api K) r) = Ok m"
    unfolding handle_of_def server using Handler_sent by blast+
qed

context built_program
begin

lemma some_worker: "0 < mg_Workers (cf_manager K)"
  using is_built
  by (simp add: built_def NewManager_def workerConcurrencyFromEnv_def defaultWorkerConcurrency_def Let_def
      split: option.split)

lemmas keeps_contracts = stages.stage_contract_axioms some_worker handler.handler_contract_axioms

end

lemma built_contract:
  assumes "0 < rt_numcpu (cf_runtime K)" "built K G"
  shows "stage_contract (work_of K)" "0 < mg_Workers (cf_manager K)" "handler_contract (handle_of K) (job_body (cf_api K))"
proof -
  have p: "built_program G K" using assms by (rule built_program.intro)
  show "stage_contract (work_of K)" "0 < mg_Workers (cf_manager K)" "handler_contract (handle_of K) (job_body (cf_api K))"
    by (rule built_program.keeps_contracts [OF p])+
qed


section \<open>A concrete program\<close>

text \<open>The configuration \<^verbatim>\<open>main\<close> builds, on the in-memory world with the cell of the publisher.\<close>

definition demo_manager :: "apiworld manager" where
  "demo_manager = NewManager demo_env (Some (gorm_service mem_lib mem_gorm))"

definition demo_config :: "apiworld config" where
  "demo_config = \<lparr>cf_lib = mem_lib, cf_runtime = mem_runtime, cf_environ = demo_env, cf_media = mem_media,
     cf_amqp = mem_amqp, cf_manager = demo_manager, cf_consumerName = ''consumer'', cf_driver = mem_driver,
     cf_sqlDB = 3, cf_get = aw_client, cf_put = put_aw, cf_api = demo_api, cf_pages = (\<lambda>t w. w),
     cf_server = main_server mem_lib mem_gorm mem_amqp mem_driver aw_client put_aw 3\<rparr>"

lemma demo_built: "built demo_config mem_gorm"
  by (simp add: built_def demo_config_def demo_manager_def)

interpretation demo_program: built_program mem_gorm demo_config
  using demo_built by unfold_locales (simp_all add: demo_config_def)

lemma demo_contracts: "0 < rt_numcpu (cf_runtime demo_config)" "built demo_config mem_gorm"
  by (rule demo_program.cpu, rule demo_built)

end
