(* ===== verification/Outside.thy ===== *)
theory Outside
  imports Program
begin

text \<open>
  What the program, as \<^verbatim>\<open>main\<close> built it, leaves alone: contracts that say which part of the world the outside
  calls do not touch, for the tables of the database and for the memory of the process.
\<close>

section \<open>The storage, the broker and the ping\<close>

text \<open>The outside calls that do not go through GORM have no access to what \<open>V\<close> reads.\<close>

locale outside_contract = media: media_contract "cf_runtime K" "cf_media K" V + amqp: amqp_contract "cf_amqp K" V
  for K :: "'w config" and V :: "'w \<Rightarrow> 'v" +
  assumes ping_outside: "V (snd (dv_ping (cf_driver K) (cf_sqlDB K) y x)) = V x"
begin

lemma keeps_acknowledge: "keeps V (acknowledge (message_of (cf_amqp K) q) r)"
  by (cases q) (auto simp: acknowledge_def message_of_def deliveryAck_def intro!: keep_rules amqp.amqp_frame)

lemma keeps_reconnect: "keeps V (reconnect (cf_amqp K) c)"
  unfolding reconnect_def by (auto intro!: keep_rules amqp.keeps_client)

lemma keeps_Nack: "keeps V (ack_Nack (deliveryAck (cf_amqp K) d) b)"
  by (auto simp: deliveryAck_def intro!: keep_rules amqp.amqp_frame)

lemmas keeps_Consume = amqp.keeps_client(8)

end

text \<open>Nor has the cell of the publisher: what \<open>V\<close> reads lies beside it.\<close>

locale beside_contract = outside_contract K V
  for K :: "'w config" and V :: "'w \<Rightarrow> 'v" +
  assumes cell_outside: "V (cf_put K c x) = V x"


section \<open>The memory of the process\<close>

text \<open>The publisher's struct is memory of the process: no outside call changes it, GORM's included.\<close>

locale private_contract = outside_contract K "cf_get K"
  for K :: "'w config" and G :: "'w gorm" +
  assumes gorm_private: "cf_get K (snd (gorm_create_video G v x)) = cf_get K x"
      "cf_get K (snd (gorm_first_video G i x)) = cf_get K x"
      "cf_get K (snd (gorm_create_job G j x)) = cf_get K x" "cf_get K (snd (gorm_first_job G i x)) = cf_get K x"
      "cf_get K (snd (gorm_save_job G j x)) = cf_get K x"
    and lib_private: "cf_get K (snd (lib_uuid (cf_lib K) x)) = cf_get K x" "cf_get K (snd (lib_now (cf_lib K) x)) = cf_get K x"
    and cell_private: "cf_get K (cf_put K c x) = c"

sublocale private_contract \<subseteq>
  cell: publisher_cell "cf_amqp K" "cf_get K" "cf_lib K" G "cf_driver K" "cf_sqlDB K" "cf_put K"
  by unfold_locales (simp_all add: gorm_private lib_private ping_outside cell_private)

context private_contract
begin

lemma keeps_repositories:
  "keeps (cf_get K) (VideoRepositoryDb_Find G i)" "keeps (cf_get K) (JobRepositoryDb_Find G i)"
  "keeps (cf_get K) (JobRepositoryDb_Insert G j)" "keeps (cf_get K) (JobRepositoryDb_Update G j)"
  by (rule keepsI, simp add: exec_simps Let_def gorm_private)+

lemma keeps_updateStatus: "keeps (cf_get K) (updateStatus (gorm_service (cf_lib K) G) i st msg)"
  unfolding updateStatus_def gorm_service_sel option.case repository_sel
  by (intro keep_rules keeps_repositories)

lemma keeps_NewJob: "keeps (cf_get K) (silently (NewJob (cf_lib K) out st v))"
  by (rule keepsI)
     (simp add: exec_simps NewJob_def prepare_def lib_private split_beta Job_Validate_def split: option.split)

lemma keeps_CreatePendingJob: "keeps (cf_get K) (CreatePendingJob (cf_lib K) (gorm_service (cf_lib K) G) vid out)"
  unfolding CreatePendingJob_def gorm_service_sel option.case prod.case repository_sel
  by (intro keep_rules keeps_repositories keeps_NewJob)

lemma keeps_work:
  assumes "built K G"
  shows "keeps (cf_get K) (work_of K payload st)"
proof -
  have m: "mg_JobService (cf_manager K) = Some (gorm_service (cf_lib K) G)"
      "mg_Processor (cf_manager K) = Some (NewProcessorFromEnv (cf_environ K) (Some (gorm_service (cf_lib K) G)))"
    using assms by (simp_all add: built_def NewManager_def)
  have p: "pr_JobService (NewProcessorFromEnv E S) = S" for E S
    by (simp add: NewProcessorFromEnv_def)
  show ?thesis
    unfolding work_of_def stage_step_def Let_def m deref_simps p mark_defs
    by (cases st; simp only: stage.case)
       (intro keep_rules keeps_CreatePendingJob keeps_updateStatus keeps_pipeline [OF media.media_contract_axioms])+
qed

lemma tracks_handle: "built K G \<Longrightarrow> tracks (cf_get K) (handle_of K r)"
  using cell.tracks_Handler by (simp add: built_def handle_of_def)

end


section \<open>The concrete program\<close>

interpretation demo_beside: beside_contract demo_config mem_job
  using mm.media_contract_axioms mq.amqp_contract_axioms mem_beside.ping_frame mem_job_put_aw
  by (simp add: beside_contract_def outside_contract_def outside_contract_axioms_def beside_contract_axioms_def
      demo_config_def)

interpretation aw_media: media_contract mem_runtime mem_media aw_client
  by unfold_locales (simp_all add: mem_runtime_def mem_media_def mm_open_def mm_act_def Let_def)

lemma mem_private:
  assumes "cf_lib K = mem_lib" "cf_runtime K = mem_runtime" "cf_media K = mem_media" "cf_amqp K = mem_amqp"
    "cf_driver K = mem_driver" "cf_get K = aw_client" "cf_put K = put_aw"
  shows "private_contract K mem_gorm"
proof -
  have outside: "outside_contract K (cf_get K)"
    using aw_media.media_contract_axioms aw_mq.amqp_contract_axioms aw_cell.ping_frame
    by (simp add: outside_contract_def outside_contract_axioms_def assms)
  have "private_contract_axioms K mem_gorm"
    unfolding private_contract_axioms_def assms
    by (intro conjI allI)
       (auto simp: mem_gorm_def mem_put_def mem_lib_def faulty_def put_aw_def Let_def split: option.split list.split)
  with outside show ?thesis by (simp add: private_contract_def)
qed

interpretation demo_private: private_contract demo_config mem_gorm
  by (rule mem_private) (simp_all add: demo_config_def)

end
