(* ===== verification/Lifecycle.thy ===== *)
theory Lifecycle
  imports Program
begin

text \<open>
  What the goroutines of the manager do together: the invariants of the reachable states, the
  accounting of deliveries, and the drain that follows a shutdown.
\<close>

section \<open>Invariants\<close>

definition coherent :: "'w config \<Rightarrow> 'w system \<Rightarrow> bool" where
  "coherent K s \<longleftrightarrow> \<not> sy_panic s \<and>
     (sy_cancelled s \<longleftrightarrow> ShuttingDown \<le> sy_main s) \<and>
     (\<forall>e. sy_consumer s = CReturned e \<longrightarrow> sy_cancelled s \<and> e = ErrContextCanceled) \<and>
     (Joined \<le> sy_main s \<longrightarrow> sy_consumer s = CReturned ErrContextCanceled) \<and>
     (sy_closed s \<longleftrightarrow> Closing \<le> sy_main s) \<and>
     (sy_results_closed s \<longleftrightarrow> Draining \<le> sy_main s) \<and>
     (WorkersDone \<le> sy_main s \<longrightarrow> list_all (\<lambda>v. v = WExit) (sy_workers s)) \<and>
     (\<forall>i<length (sy_workers s). sy_workers s ! i = WExit \<longrightarrow> sy_closed s \<and> sy_buf s = []) \<and>
     (sy_logger_done s \<longrightarrow> sy_results_closed s) \<and>
     (sy_main s = Finished \<longrightarrow> sy_logger_done s) \<and>
     (\<forall>i<length (sy_workers s). \<forall>q st. sy_workers s ! i = WWork q st \<longrightarrow> fit st) \<and>
     length (sy_workers s) = nat (mg_Workers (cf_manager K)) \<and>
     length (sy_buf s) \<le> nat (mg_Workers (cf_manager K))"

lemma phase_simps [simp]:
  "ShuttingDown \<le> Serving \<longleftrightarrow> False" "Joined \<le> Serving \<longleftrightarrow> False" "Joined \<le> ShuttingDown \<longleftrightarrow> False"
  "Closing \<le> Serving \<longleftrightarrow> False" "Closing \<le> ShuttingDown \<longleftrightarrow> False" "Closing \<le> Joined \<longleftrightarrow> False"
  "WorkersDone \<le> Serving \<longleftrightarrow> False" "WorkersDone \<le> ShuttingDown \<longleftrightarrow> False" "WorkersDone \<le> Joined \<longleftrightarrow> False"
  "WorkersDone \<le> Closing \<longleftrightarrow> False" "Draining \<le> Serving \<longleftrightarrow> False" "Draining \<le> ShuttingDown \<longleftrightarrow> False"
  "Draining \<le> Joined \<longleftrightarrow> False" "Draining \<le> Closing \<longleftrightarrow> False" "Draining \<le> WorkersDone \<longleftrightarrow> False"
  "Serving \<le> p" "p \<le> Finished"
  "ShuttingDown \<le> Joined" "ShuttingDown \<le> Closing" "ShuttingDown \<le> WorkersDone" "ShuttingDown \<le> Draining"
  "Joined \<le> Closing" "Joined \<le> WorkersDone" "Joined \<le> Draining"
  "Closing \<le> WorkersDone" "Closing \<le> Draining" "WorkersDone \<le> Draining"
  by (simp_all add: phase_order) (cases p; simp)+

lemma send_simps [simp]:
  "sy_world (send q s) = sy_world s" "sy_client (send q s) = sy_client s" "sy_backoff (send q s) = sy_backoff s"
  "sy_consumer (send q s) = sy_consumer s" "sy_cancelled (send q s) = sy_cancelled s" "sy_main (send q s) = sy_main s"
  "sy_closed (send q s) = sy_closed s" "sy_workers (send q s) = sy_workers s"
  "sy_results_closed (send q s) = sy_results_closed s" "sy_logger_done (send q s) = sy_logger_done s"
  "sy_received (send q s) = sy_received s" "sy_logged (send q s) = sy_logged s"
  "sy_requeued (send q s) = sy_requeued s" "sy_waits (send q s) = sy_waits s" "sy_reconnects (send q s) = sy_reconnects s"
  "sy_requests (send q s) = sy_requests s" "sy_asked (send q s) = sy_asked s" "sy_answered (send q s) = sy_answered s"
  "sy_panic (send q s) = (sy_closed s \<or> sy_panic s)"
  "sy_buf (send q s) = (if sy_closed s then sy_buf s else sy_buf s @ [q])"
  "sy_accepted (send q s) = (if sy_closed s then sy_accepted s else sy_accepted s @ [q])"
  by (simp_all add: send_def)

lemma Consume_no_panic: "val (Consume A c n b) w \<noteq> Panic"
  by (simp add: Consume_def exec_simps split_beta split: option.split)

lemma Declare_no_panic: "val (Declare A c) w \<noteq> Panic"
  by (cases "qc_Channel c") (auto simp: Declare_def Let_def queue_declare_def exec_simps split_beta split: res.split)

lemma reconnect_no_panic: "snd (val (reconnect A q) w) \<noteq> Panic"
  using reconnectLocked_log(2) [of A q w] Declare_no_panic [of A]
  unfolding reconnect_def Reconnect_def reconnectLocked_def
  by (auto simp: split_beta split: res.splits)

lemma acknowledge_no_panic: "val (acknowledge (message_of A q) r) w \<noteq> Panic"
proof (cases q)
  case (Delivered d b)
  then show ?thesis
    using delivery.acknowledge_settles(2) [of "message_of A q" A d r w] by (simp add: message_of_def)
qed (simp add: message_of_def acknowledge_def)

lemma coherent_started: "coherent K (started K w c)"
  by (auto simp: coherent_def started_def)


lemma list_all_nth: "list_all P xs \<Longrightarrow> i < length xs \<Longrightarrow> P (xs ! i)"
  by (simp add: list_all_length)

lemma coherent_consumer:
  assumes "coherent K s" "consumer_step K s s'"
  shows "coherent K s'"
  using assms(2)
proof cases
  case (consume r w)
  then have "r \<noteq> Panic" using Consume_no_panic by (metis fst_conv)
  then show ?thesis using consume assms(1) by (cases r) (auto simp: coherent_def)
next
  case (reconnected q r w)
  then have "r \<noteq> Panic" using reconnect_no_panic by (metis fst_conv snd_conv)
  then show ?thesis using reconnected assms(1) by (auto simp: coherent_def)
next
  case (hand h d b)
  have "\<not> sy_closed s"
    using hand(2) assms(1) by (auto simp: coherent_def phase_order)
  then show ?thesis using hand assms(1) by (auto simp: coherent_def can_send_def)
qed (use assms(1) in \<open>auto simp: coherent_def\<close>)

lemma coherent_worker:
  assumes "stage_contract (work_of K)" "coherent K s" "worker_step K i s s'" "i < length (sy_workers s)"
  shows "coherent K s'"
  using assms(3)
proof cases
  case (recv q qs)
  then show ?thesis using assms(2,4) by (auto simp: coherent_def nth_list_update dest: list_all_nth)
next
  case exit
  then show ?thesis using assms(2,4) by (auto simp: coherent_def nth_list_update list_all_length)
next
  case (work q st st' w)
  have "fit st" using work(2) assms(2,4) by (auto simp: coherent_def)
  then have "fit st'" using stage_contract.run_workD(1) [OF assms(1) _ work(3)] by blast
  then show ?thesis using work assms(2,4) by (auto simp: coherent_def nth_list_update dest: list_all_nth)
next
  case (worked q st r w)
  then show ?thesis using assms(2,4) by (auto simp: coherent_def nth_list_update dest: list_all_nth)
next
  case (work_panic q st w)
  have "fit st" using work_panic(2) assms(2,4) by (auto simp: coherent_def)
  then show ?thesis using stage_contract.run_workD(3) [OF assms(1) _ work_panic(3)] by blast
next
  case (settle q r u w)
  then have "u \<noteq> Panic" using acknowledge_no_panic by (metis fst_conv)
  then show ?thesis using settle assms(2,4) by (auto simp: coherent_def nth_list_update dest: list_all_nth)
next
  case (result q r)
  then show ?thesis using assms(2,4) by (auto simp: coherent_def nth_list_update dest: list_all_nth)
next
  case (result_panic q r)
  then have "WorkersDone \<le> sy_main s"
    using assms(2) by (auto simp: coherent_def phase_order)
  then show ?thesis using result_panic assms(2,4) by (auto simp: coherent_def dest: list_all_nth)
qed

lemma coherent_main:
  assumes "coherent K s" "main_step s s'"
  shows "coherent K s'"
  using assms(2) by (elim main_stepE stop_stepE) (use assms(1) in \<open>auto simp: coherent_def\<close>)

lemma coherent_step:
  assumes "stage_contract (work_of K)" "coherent K s" "system_step K s s'"
  shows "coherent K s'"
  using assms(3)
proof cases
  case by_consumer
  then show ?thesis using coherent_consumer assms(2) by blast
next
  case (by_worker i)
  then show ?thesis using coherent_worker assms(1,2) by blast
next
  case by_main
  then show ?thesis using coherent_main assms(2) by blast
next
  case by_logger
  then show ?thesis using assms(2) by (auto simp: coherent_def)
next
  case by_http
  from by_http(2) show ?thesis by (elim http_stepE) (use assms(2) in \<open>auto simp: coherent_def\<close>)
next
  case (by_Enqueue payload)
  then show ?thesis using assms(2) by (auto simp: coherent_def Enqueue_def can_send_def)
qed

lemma coherent_reachable:
  assumes "stage_contract (work_of K)" "reachable K (started K w c) s"
  shows "coherent K s"
  using assms(2)
proof induction
  case start
  show ?case by (rule coherent_started)
next
  case (more s s')
  then show ?case using coherent_step [OF assms(1)] by blast
qed



section \<open>The accounts of deliveries\<close>

lemma emits_reconnect: "emits quiet (reconnect A c)"
  unfolding reconnect_def by (auto intro!: emit_rules split: prod.splits)

text \<open>Which deliveries a message, the consumer or a worker stands for, and what has been settled.\<close>

fun delivs :: "queued \<Rightarrow> (handle \<times> string) multiset" where
  "delivs (Delivered d b) = {#(d, b)#}"
| "delivs (Local b) = {#}"

fun in_hand :: "consumer \<Rightarrow> (handle \<times> string) multiset" where
  "in_hand (CHand h d b) = {#(d, b)#}"
| "in_hand _ = {#}"

fun holding :: "wstate \<Rightarrow> queued multiset" where
  "holding (WWork q st) = {#q#}"
| "holding (WAck q r) = {#q#}"
| "holding (WReturn q r) = {#q#}"
| "holding _ = {#}"

fun settled_by :: "queued \<times> job_worker_result \<Rightarrow> settlement multiset" where
  "settled_by (Delivered d b, r) = {#settlement_of d r#}"
| "settled_by (Local b, r) = {#}"

fun returning :: "wstate \<Rightarrow> settlement multiset" where
  "returning (WReturn q r) = settled_by (q, r)"
| "returning _ = {#}"

fun result_for :: "wstate \<Rightarrow> bool" where
  "result_for (WAck q r) \<longleftrightarrow> res_Payload r = payload_of q"
| "result_for (WReturn q r) \<longleftrightarrow> res_Payload r = payload_of q"
| "result_for _ \<longleftrightarrow> True"

definition accounted :: "'w world \<Rightarrow> 'w system \<Rightarrow> bool" where
  "accounted w0 s \<longleftrightarrow>
     mset (sy_received s) =
       in_hand (sy_consumer s) + (\<Sum>q\<leftarrow>sy_accepted s. delivs q) + mset (sy_requeued s) \<and>
     mset (sy_accepted s) = mset (sy_buf s) + (\<Sum>v\<leftarrow>sy_workers s. holding v) + mset (map fst (sy_logged s)) \<and>
     mset (settled (log (sy_world s))) = mset (settled (log w0)) + (\<Sum>x\<leftarrow>sy_logged s. settled_by x) +
       (\<Sum>v\<leftarrow>sy_workers s. returning v) + {#Nacked (fst d) False True. d \<in># mset (sy_requeued s)#} \<and>
     (\<forall>(q, r)\<in>set (sy_logged s). res_Payload r = payload_of q) \<and>
     (\<forall>v\<in>set (sy_workers s). result_for v)"

lemma sum_list_replicate_empty [simp]: "sum_list (replicate n {#}) = {#}"
  by (induction n) auto

lemma accounted_started: "accounted w (started K w c)"
  by (auto simp: accounted_def started_def)

lemma acknowledge_settled:
  "mset (settled (log (post (acknowledge (message_of A q) r) w))) = mset (settled (log w)) + settled_by (q, r)"
proof (cases q)
  case (Delivered d b)
  obtain es where "log (post (acknowledge (message_of A q) r) w) = log w @ es" "settled es = [settlement_of d r]"
    using delivery.acknowledge_settles(1) [of "message_of A q" A d r w] Delivered
    by (auto simp: message_of_def settlement_of_def)
  then show ?thesis using Delivered by simp
qed (simp add: message_of_def acknowledge_def)

lemma Nack_settled: "settled (log (post (ack_Nack (deliveryAck A d) q) w)) = settled (log w) @ [Nacked d False q]"
  using delivery.nack_log [of A d q w] by auto

text \<open>What a sum over the workers becomes when one of them changes.\<close>

lemma sum_worker_update:
  fixes f :: "wstate \<Rightarrow> 'b multiset"
  assumes "i < length vs" "vs ! i = u"
  shows "(\<Sum>v\<leftarrow>vs[i := u']. f v) + f u = (\<Sum>v\<leftarrow>vs. f v) + f u'"
  using sum_list_update_add [OF assms(1), of f u'] assms(2) by simp


lemma accounted_consumer:
  assumes "accounted w0 s" "coherent K s" "consumer_step K s s'"
  shows "accounted w0 s'"
  using assms(3)
proof cases
  case (consume r w)
  then have "settled (log w) = settled (log (sy_world s))"
    using emits_settled [OF emits_unsettling [OF emits_client_calls(3)]] by (metis snd_conv)
  then show ?thesis using consume assms(1) by (cases r) (auto simp: accounted_def)
next
  case (reconnected q r w)
  then have "settled (log w) = settled (log (sy_world s))"
    using emits_settled [OF emits_unsettling [OF emits_reconnect]] by (metis snd_conv)
  then show ?thesis using reconnected assms(1) by (auto simp: accounted_def)
next
  case (hand h d b)
  have "\<not> sy_closed s"
    using hand(2) assms(2) by (auto simp: coherent_def phase_order)
  then show ?thesis using hand assms(1) by (auto simp: accounted_def)
next
  case (hand_done h d b r w)
  then have "settled (log w) = settled (log (sy_world s)) @ [Nacked d False True]"
    using Nack_settled [of "cf_amqp K" d True "sy_world s"] by simp
  then show ?thesis using hand_done assms(1) by (auto simp: accounted_def)
qed (use assms(1) in \<open>auto simp: accounted_def\<close>)

lemma accounted_worker:
  assumes "stage_contract (work_of K)" "accounted w0 s" "coherent K s" "worker_step K i s s'"
    "i < length (sy_workers s)"
  shows "accounted w0 s'"
proof -
  note sums = sum_worker_update [OF assms(5), where f = holding] sum_worker_update [OF assms(5), where f = returning]
  have res: "\<forall>v\<in>set (sy_workers s). result_for v" using assms(2) by (simp add: accounted_def)
  have upd: "\<forall>v\<in>set ((sy_workers s)[i := u]). result_for v" if "result_for u" for u
    using that res set_update_subset_insert [of "sy_workers s" i u] by blast
  from assms(4) show ?thesis
  proof cases
    case (recv q qs)
    then show ?thesis
      using assms(2) sums [OF recv(2), of "WWork q Begin"] upd [of "WWork q Begin"] by (simp add: accounted_def)
  next
    case exit
    then show ?thesis
      using assms(2) sums [OF exit(2), of WExit] upd [of WExit] by (simp add: accounted_def)
  next
    case (work q st st' w)
    then show ?thesis
      using assms(2) stage_contract.run_work_log(1) [OF assms(1) work(3)] sums [OF work(2), of "WWork q st'"]
        upd [of "WWork q st'"]
      by (simp add: accounted_def)
  next
    case (worked q st r w)
    have "fit st" using worked(2) assms(3,5) by (auto simp: coherent_def)
    then have "res_Payload r = payload_of q" using stage_contract.run_workD(2) [OF assms(1) _ worked(3)] by blast
    then show ?thesis
      using worked(1,2) assms(2) stage_contract.run_work_log(1) [OF assms(1) worked(3)] sums [OF worked(2), of "WAck q r"]
        upd [of "WAck q r"]
      by (simp add: accounted_def)
  next
    case (work_panic q st w)
    then show ?thesis using assms(2) stage_contract.run_work_log(1) [OF assms(1) work_panic(3)]
      by (simp add: accounted_def)
  next
    case (settle q r u w)
    have "mset (settled (log w)) = mset (settled (log (sy_world s))) + settled_by (q, r)"
      using acknowledge_settled [of "cf_amqp K" q r "sy_world s"] settle(3) by simp
    moreover have "res_Payload r = payload_of q"
      using res settle(2) assms(5) by (metis nth_mem result_for.simps(1))
    ultimately show ?thesis
      using settle assms(2) sums [OF settle(2), of "WReturn q r"] upd [of "WReturn q r"]
      by (simp add: accounted_def)
  next
    case (result q r)
    have "res_Payload r = payload_of q"
      using res result(2) assms(5) by (metis nth_mem result_for.simps(2))
    then show ?thesis
      using result assms(2) sums [OF result(2), of WIdle] upd [of WIdle]
      by (auto simp: accounted_def add.commute)
  next
    case (result_panic q r)
    then show ?thesis using assms(2) by (simp add: accounted_def)
  qed
qed

lemma accounted_http:
  assumes "handler_contract (handle_of K) (job_body (cf_api K))" "accounted w0 s" "http_step K s s'"
  shows "accounted w0 s'"
  using assms(3)
proof cases
  case (answer i a w)
  then have "settled (log w) = settled (log (sy_world s))"
    using handler_contract.run_handleD(1) [OF assms(1)] by (simp add: handle_of_def)
  then show ?thesis using answer assms(2) by (simp add: accounted_def)
qed (use assms(2) in \<open>simp add: accounted_def\<close>)

lemma accounted_step:
  assumes "stage_contract (work_of K)" "accounted w0 s" "coherent K s" "system_step K s s'"
    "handler_contract (handle_of K) (job_body (cf_api K))"
  shows "accounted w0 s'"
  using assms(4)
proof cases
  case by_consumer
  show ?thesis by (rule accounted_consumer [OF assms(2,3) by_consumer(2)])
next
  case (by_worker i)
  show ?thesis by (rule accounted_worker [OF assms(1-3) by_worker(3,2)])
next
  case by_main
  from by_main(2) show ?thesis
    by (elim main_stepE stop_stepE) (use assms(2) in \<open>simp_all add: accounted_def\<close>)
next
  case by_logger
  then show ?thesis using assms(2) by (simp add: accounted_def)
next
  case by_http
  show ?thesis by (rule accounted_http [OF assms(5,2) by_http(2)])
next
  case (by_Enqueue payload)
  then have "\<not> sy_closed s" using assms(3) by (auto simp: coherent_def)
  then show ?thesis using by_Enqueue assms(2) by (simp add: accounted_def Enqueue_def)
qed

lemma accounted_reachable:
  assumes "stage_contract (work_of K)" "reachable K (started K w c) s" "handler_contract (handle_of K) (job_body (cf_api K))"
  shows "accounted w s"
  using assms(2)
proof induction
  case start
  show ?case by (rule accounted_started)
next
  case (more s s')
  show ?case
    by (rule accounted_step [OF assms(1) more(3) coherent_reachable [OF assms(1) more(1)] more(2) assms(3)])
qed



section \<open>The drain\<close>

text \<open>\<open>inevitably R P s\<close>: every run from \<open>s\<close> comes to a state with \<open>P\<close>; no run stops or goes on forever
  before it.\<close>

inductive inevitably :: "('s \<Rightarrow> 's \<Rightarrow> bool) \<Rightarrow> ('s \<Rightarrow> bool) \<Rightarrow> 's \<Rightarrow> bool" for R P where
  now: "P s \<Longrightarrow> inevitably R P s"
| later: "\<exists>s'. R s s' \<Longrightarrow> \<forall>s'. R s s' \<longrightarrow> inevitably R P s' \<Longrightarrow> inevitably R P s"

lemma inevitably_measure:
  fixes m :: "'s \<Rightarrow> nat"
  assumes "I s" "\<And>s. I s \<Longrightarrow> \<not> P s \<Longrightarrow> \<exists>s'. R s s'"
    "\<And>s s'. I s \<Longrightarrow> R s s' \<Longrightarrow> I s' \<and> m s' < m s"
  shows "inevitably R P s"
  using assms(1)
proof (induction s rule: measure_induct_rule [of m])
  case (less s)
  then show ?case
    using assms(2) [of s] assms(3) [of s] by (cases "P s") (auto intro: inevitably.intros)
qed

text \<open>What is left to do once the consumer is gone.\<close>

fun work_left :: "wstate \<Rightarrow> nat" where
  "work_left WIdle = 1"
| "work_left (WWork q st) = 3 + stages_left st"
| "work_left (WAck q r) = 3"
| "work_left (WReturn q r) = 2"
| "work_left WExit = 0"

definition to_do :: "'w system \<Rightarrow> nat" where
  "to_do s = (6 - phase_no (sy_main s)) + (if sy_logger_done s then 0 else 1) + 7 * length (sy_buf s) +
     length (sy_requests s) + (\<Sum>v\<leftarrow>sy_workers s. work_left v)"

lemma to_do_step:
  assumes "coherent K s" "coherent K s'" "Joined \<le> sy_main s" "system_step K s s'" "stage_contract (work_of K)"
  shows "to_do s' < to_do s"
  using assms(4)
proof cases
  case by_consumer
  then show ?thesis using assms(1,3) by (auto simp: coherent_def elim: consumer_stepE)
next
  case (by_worker i)
  have sum: "(\<Sum>v\<leftarrow>(sy_workers s)[i := u]. work_left v) + work_left (sy_workers s ! i) =
      (\<Sum>v\<leftarrow>sy_workers s. work_left v) + work_left u" for u
    using by_worker(2) by (rule sum_list_update_add)
  from by_worker(3) show ?thesis
  proof cases
    case (recv q qs)
    then show ?thesis using sum [of "WWork q Begin"] by (simp add: to_do_def)
  next
    case exit
    then show ?thesis using sum [of WExit] by (simp add: to_do_def)
  next
    case (work q st st' w)
    have "fit st" using work(2) assms(1) by_worker(2) by (auto simp: coherent_def)
    then have "stages_left st' < stages_left st" using stage_contract.run_workD(1) [OF assms(5) _ work(3)] by blast
    then show ?thesis using work sum [of "WWork q st'"] by (simp add: to_do_def)
  next
    case (worked q st r w)
    then show ?thesis using sum [of "WAck q r"] by (cases st) (simp_all add: to_do_def)
  next
    case (settle q r u w)
    then show ?thesis using sum [of "WReturn q r"] by (simp add: to_do_def)
  next
    case (result q r)
    then show ?thesis using sum [of WIdle] by (simp add: to_do_def)
  qed (use assms(2) in \<open>simp_all add: coherent_def\<close>)
next
  case by_main
  from by_main(2) show ?thesis
    by (elim main_stepE stop_stepE) (use assms(3) in \<open>simp_all add: to_do_def\<close>)
next
  case by_logger
  then show ?thesis by (simp add: to_do_def)
next
  case by_http
  from by_http(2) show ?thesis by (elim http_stepE) (use assms(3) in \<open>auto simp: to_do_def\<close>)
next
  case (by_Enqueue payload)
  then show ?thesis using assms(3) by simp
qed

lemma Joined_step:
  assumes "Joined \<le> sy_main s" "system_step K s s'"
  shows "Joined \<le> sy_main s'"
  using assms(2)
proof cases
  case by_consumer
  then show ?thesis using assms(1) by (auto elim: consumer_stepE)
next
  case (by_worker i)
  then show ?thesis using assms(1) by (auto elim: worker_stepE)
next
  case by_main
  then show ?thesis using assms(1) by (auto elim!: main_stepE stop_stepE)
next
  case by_http
  then show ?thesis using assms(1) by (auto elim!: http_stepE)
qed (use assms(1) in \<open>auto simp: Enqueue_def\<close>)

lemma worker_can_step:
  assumes "stage_contract (work_of K)" "coherent K s" "i < length (sy_workers s)" "sy_workers s ! i \<noteq> WExit"
    "sy_main s = Closing" "\<not> sy_logger_done s"
  shows "\<exists>s'. worker_step K i s s'"
proof (cases "sy_workers s ! i")
  case WIdle
  then show ?thesis
    using assms(2,5) worker_step.recv [of s i _ _ K] worker_step.exit [of s i K]
    by (cases "sy_buf s") (auto simp: coherent_def)
next
  case (WWork q st)
  then have "fit st" using assms(2,3) by (auto simp: coherent_def)
  then show ?thesis
    using stage_contract.run_work [OF assms(1), where b = "payload_of q" and w = "sy_world s" and st = st]
      worker_step.work [OF WWork] worker_step.worked [OF WWork] by metis
next
  case (WAck q r)
  then show ?thesis using worker_step.settle [OF WAck] by (metis prod.collapse)
next
  case (WReturn q r)
  then show ?thesis using worker_step.result [OF WReturn] assms(2,5,6) by (auto simp: coherent_def)
qed (use assms(4) in simp)

lemma drain_can_step:
  assumes "stage_contract (work_of K)" "coherent K s" "Joined \<le> sy_main s" "sy_main s \<noteq> Finished"
  shows "\<exists>s'. system_step K s s'"
proof -
  have np: "\<not> sy_panic s" using assms(2) by (simp add: coherent_def)
  show ?thesis
  proof (cases "sy_main s")
    case Closing
    show ?thesis
    proof (cases "list_all (\<lambda>v. v = WExit) (sy_workers s)")
      case True
      then show ?thesis using np Closing main_stop(2) system_step.by_main by blast
    next
      case False
      then obtain i where i: "i < length (sy_workers s)" "sy_workers s ! i \<noteq> WExit"
        by (auto simp: list_all_length)
      have "\<not> sy_logger_done s" using assms(2) Closing by (auto simp: coherent_def)
      then show ?thesis
        using worker_can_step [OF assms(1,2) i Closing] np i system_step.by_worker by blast
    qed
  next
    case Draining
    then show ?thesis
      using np assms(2) main_stop(4) [of s] system_step.by_main [of s] system_step.by_logger [of s K]
      by (auto simp: coherent_def)
  qed (use np assms(3,4) main_stop(1,3) system_step.by_main in
      \<open>auto, blast+\<close>)
qed

lemma http_can_step: "sy_requests s \<noteq> [] \<Longrightarrow> \<exists>s'. http_step K s s'"
  using http_step.answer [of 0 s K] by (metis length_greater_0_conv prod.collapse)

text \<open>Before the consumer is gone the shutdown makes progress too.\<close>

lemma cancelled_consumer_can_step:
  assumes "sy_cancelled s" "\<And>e. sy_consumer s \<noteq> CReturned e"
  shows "\<exists>s'. consumer_step K s s'"
proof (cases "sy_consumer s")
  case CConsume
  then show ?thesis using consumer_step.consume by (metis prod.collapse)
next
  case (CHand h d b)
  then show ?thesis using consumer_step.hand_done [OF CHand assms(1)] by (metis prod.collapse)
next
  case CReconnect
  then show ?thesis using consumer_step.reconnected [OF CReconnect] by (metis prod.collapse)
qed (use assms consumer_step.top_cancelled consumer_step.select_done consumer_step.broken_cancelled
      consumer_step.wait_done in blast)+

lemma system_can_step:
  assumes "stage_contract (work_of K)" "coherent K s" "sy_main s \<noteq> Finished"
  shows "\<exists>s'. system_step K s s'"
proof (cases "Joined \<le> sy_main s")
  case True
  then show ?thesis using drain_can_step assms by blast
next
  case False
  have np: "\<not> sy_panic s" using assms(2) by (simp add: coherent_def)
  show ?thesis
  proof (cases "sy_main s = Serving")
    case True
    then show ?thesis using np main_step.shutdown system_step.by_main by blast
  next
    case f: False
    then have sd: "sy_main s = ShuttingDown" using False by (cases "sy_main s") simp_all
    then have "sy_cancelled s" using assms(2) by (simp add: coherent_def)
    then show ?thesis
      using np sd main_step.join system_step.by_main cancelled_consumer_can_step system_step.by_consumer by metis
  qed
qed



section \<open>The pauses\<close>

text \<open>How many of the last reconnects failed in a row.\<close>

definition failures :: "bool list \<Rightarrow> nat" where
  "failures rs = length (takeWhile Not (rev rs))"

lemma failures_simps [simp]:
  "failures [] = 0" "failures (rs @ [True]) = 0" "failures (rs @ [False]) = Suc (failures rs)"
  by (simp_all add: failures_def)

definition paced :: "'w system \<Rightarrow> bool" where
  "paced s \<longleftrightarrow> sy_backoff s = backoff_after (failures (sy_reconnects s)) \<and>
     length (sy_waits s) = length (sy_reconnects s) + (if sy_consumer s = CReconnect then 1 else 0) \<and>
     (\<forall>i<length (sy_waits s). sy_waits s ! i = backoff_after (failures (take i (sy_reconnects s))))"

lemma backoff_after_simps: "backoff_after 0 = minReconnectBackoff" "backoff_after (Suc k) = nextBackoff (backoff_after k)"
  by (simp_all add: backoff_after_def)

lemma paced_started: "paced (started K w c)"
  by (simp add: paced_def started_def backoff_after_simps)

lemma paced_consumer:
  assumes "paced s" "consumer_step K s s'"
  shows "paced s'"
  using assms(2)
proof cases
  case wait_over
  then show ?thesis using assms(1) by (auto simp: paced_def nth_append less_Suc_eq)
next
  case (reconnected q r w)
  then show ?thesis
    using assms(1) by (cases "is_ok r") (auto simp: paced_def backoff_after_simps)
next
  case (consume r w)
  then show ?thesis using assms(1) by (cases r) (simp_all add: paced_def)
qed (use assms(1) in \<open>simp_all add: paced_def\<close>)

lemma paced_step:
  assumes "paced s" "system_step K s s'"
  shows "paced s'"
  using assms(2)
proof cases
  case by_consumer
  then show ?thesis using paced_consumer assms(1) by blast
next
  case (by_worker i)
  from by_worker(3) show ?thesis by (elim worker_stepE) (use assms(1) in \<open>simp_all add: paced_def\<close>)
next
  case by_main
  from by_main(2) show ?thesis by (elim main_stepE stop_stepE) (use assms(1) in \<open>simp_all add: paced_def\<close>)
next
  case by_http
  from by_http(2) show ?thesis by (elim http_stepE) (use assms(1) in \<open>simp_all add: paced_def\<close>)
qed (use assms(1) in \<open>simp_all add: paced_def Enqueue_def\<close>)

lemma paced_reachable: "reachable K (started K w c) s \<Longrightarrow> paced s"
  by (induction rule: reachable.induct) (auto intro: paced_started paced_step)


section \<open>A concrete run\<close>

text \<open>One delivery reaches the message channel, then the program is told to stop.\<close>

lemma reachable_consumer:
  "reachable K s0 s \<Longrightarrow> \<not> sy_panic s \<Longrightarrow> consumer_step K s s' \<Longrightarrow> reachable K s0 s'"
  by (rule reachable.more) (auto intro: system_step.by_consumer)

lemma reachable_main:
  "reachable K s0 s \<Longrightarrow> \<not> sy_panic s \<Longrightarrow> main_step s s' \<Longrightarrow> reachable K s0 s'"
  by (rule reachable.more) (auto intro: system_step.by_main)

definition demo_start :: "apiworld system" where
  "demo_start = started demo_config (beside (failing [])) connected"

lemma demo_workers: "mg_Workers (cf_manager demo_config) = 1"
  by (simp add: demo_config_def demo_manager_def NewManager_def workerConcurrencyFromEnv_def
      defaultWorkerConcurrency_def demo_env_def)

lemma demo_consume:
  "\<exists>h w. run_state (Consume (cf_amqp demo_config) connected (cf_consumerName demo_config) False) (beside (failing [])) = (Ok h, w)
     \<and> log w = log (beside (failing [])) @ [AMQP (EvConsume 8 ''videos'' ''consumer'' False None)]"
  by (simp add: Consume_def connected_def demo_client_def demo_config_def mem_amqp_def exec_simps beside_def memworld.defs failing_def
      mm_open_def demo_ext_def Let_def)

lemma demo_joined:
  "\<exists>s. reachable demo_config demo_start s \<and> sy_main s = Joined \<and> sy_received s = [(5, ''{}'')] \<and>
     sy_buf s = [Delivered 5 ''{}''] \<and> sy_requeued s = [] \<and> sy_requests s = []"
proof -
  obtain h w where c: "run_state (Consume (cf_amqp demo_config) connected (cf_consumerName demo_config) False) (beside (failing [])) = (Ok h, w)"
    using demo_consume by blast
  let ?s0 = demo_start
  note d = demo_start_def started_def
  have s0: "sy_consumer ?s0 = CTop" "\<not> sy_cancelled ?s0" "\<not> sy_panic ?s0" "sy_client ?s0 = connected"
      "sy_world ?s0 = beside (failing [])" "sy_main ?s0 = Serving" "sy_received ?s0 = []" "sy_buf ?s0 = []"
      "\<not> sy_closed ?s0" "sy_requeued ?s0 = []" "sy_requests ?s0 = []"
    by (simp_all add: d)
  let ?s1 = "?s0\<lparr>sy_consumer := CConsume\<rparr>"
  let ?s2 = "?s1\<lparr>sy_world := w, sy_panic := False, sy_consumer := CSelect h\<rparr>"
  let ?s3 = "?s2\<lparr>sy_consumer := CHand h 5 ''{}'', sy_received := [(5, ''{}'')]\<rparr>"
  let ?s4 = "send (Delivered 5 ''{}'') ?s3\<lparr>sy_consumer := CSelect h\<rparr>"
  let ?s5 = "?s4\<lparr>sy_main := ShuttingDown, sy_cancelled := True\<rparr>"
  let ?s6 = "?s5\<lparr>sy_consumer := CBroken (Some ErrContextCanceled)\<rparr>"
  let ?s7 = "?s6\<lparr>sy_consumer := CReturned ErrContextCanceled\<rparr>"
  let ?s8 = "?s7\<lparr>sy_main := Joined\<rparr>"
  have r1: "reachable demo_config ?s0 ?s1"
    by (rule reachable_consumer [OF reachable.start]) (use s0 consumer_step.top in simp_all)
  have r2: "reachable demo_config ?s0 ?s2"
    using consumer_step.consume [of ?s1 demo_config "Ok h" w] c s0
    by (intro reachable_consumer [OF r1]) simp_all
  have r3: "reachable demo_config ?s0 ?s3"
    using consumer_step.select_delivery [of ?s2 h demo_config 5 "''{}''"] s0
    by (intro reachable_consumer [OF r2]) simp_all
  have r4: "reachable demo_config ?s0 ?s4"
    using consumer_step.hand [of ?s3 h 5 "''{}''" demo_config] s0
    by (intro reachable_consumer [OF r3]) (simp_all add: can_send_def demo_workers)
  have r5: "reachable demo_config ?s0 ?s5"
    using main_step.shutdown [of ?s4] s0 by (intro reachable_main [OF r4]) simp_all
  have r6: "reachable demo_config ?s0 ?s6"
    using consumer_step.select_done [of ?s5 h demo_config] s0 by (intro reachable_consumer [OF r5]) simp_all
  have r7: "reachable demo_config ?s0 ?s7"
    using consumer_step.broken_cancelled [of ?s6 _ demo_config] s0 by (intro reachable_consumer [OF r6]) simp_all
  have r8: "reachable demo_config ?s0 ?s8"
    using main_step.join [of ?s7] s0 by (intro reachable_main [OF r7]) simp_all
  show ?thesis using r8 s0 by (intro exI [of _ ?s8]) simp
qed


lemma coherent_results_closed:
  assumes "coherent K s" "0 < mg_Workers (cf_manager K)" "sy_results_closed s"
  shows "list_all (\<lambda>v. v = WExit) (sy_workers s)" "sy_buf s = []"
proof -
  show gone: "list_all (\<lambda>v. v = WExit) (sy_workers s)"
    using assms(1,3) by (auto simp: coherent_def phase_order)
  have "0 < length (sy_workers s)" using assms(1,2) by (simp add: coherent_def)
  moreover from this have "sy_workers s ! 0 = WExit" by (rule list_all_nth [OF gone])
  ultimately show "sy_buf s = []" using assms(1) by (auto simp: coherent_def)
qed

lemma accounted_Finished:
  assumes "coherent K s" "accounted w s" "0 < mg_Workers (cf_manager K)" "sy_main s = Finished"
  shows "mset (map fst (sy_logged s)) = mset (sy_accepted s) \<and>
    mset (sy_received s) = (\<Sum>q\<leftarrow>sy_accepted s. delivs q) + mset (sy_requeued s) \<and>
    mset (settled (log (sy_world s))) = mset (settled (log w)) + (\<Sum>x\<leftarrow>sy_logged s. settled_by x) +
      {#Nacked (fst d) False True. d \<in># mset (sy_requeued s)#}"
proof -
  have c: "sy_consumer s = CReturned ErrContextCanceled" "sy_results_closed s"
    using assms(1,4) by (simp_all add: coherent_def)
  have gone: "(\<Sum>v\<leftarrow>sy_workers s. f v) = {#}" if "f WExit = {#}" for f :: "wstate \<Rightarrow> 'b multiset"
  proof -
    have "map f (sy_workers s) = replicate (length (sy_workers s)) {#}"
      using coherent_results_closed(1) [OF assms(1,3) c(2)] that
      by (intro nth_equalityI) (simp_all add: list_all_length)
    then show ?thesis by simp
  qed
  show ?thesis
    using assms(2) c coherent_results_closed(2) [OF assms(1,3) c(2)] gone [of holding] gone [of returning]
    by (simp add: accounted_def)
qed

lemma drain_inevitable:
  assumes work: "stage_contract (work_of K)" and pos: "0 < mg_Workers (cf_manager K)"
    and handle: "handler_contract (handle_of K) (job_body (cf_api K))"
    and start: "coherent K s" "accounted w s" "Joined \<le> sy_main s"
  shows "inevitably (system_step K) (\<lambda>t. sy_main t = Finished \<and>
      mset (map fst (sy_logged t)) = mset (sy_accepted t) \<and>
      mset (sy_received t) = (\<Sum>q\<leftarrow>sy_accepted t. delivs q) + mset (sy_requeued t) \<and>
      mset (settled (log (sy_world t))) = mset (settled (log w)) + (\<Sum>x\<leftarrow>sy_logged t. settled_by x) +
        {#Nacked (fst d) False True. d \<in># mset (sy_requeued t)#}) s"
proof (rule inevitably_measure [where m = to_do and
      I = "\<lambda>t. coherent K t \<and> accounted w t \<and> Joined \<le> sy_main t"])
  show "coherent K s \<and> accounted w s \<and> Joined \<le> sy_main s" using start by blast
  fix t
  assume I: "coherent K t \<and> accounted w t \<and> Joined \<le> sy_main t"
  show "\<exists>t'. system_step K t t'" if "\<not> (sy_main t = Finished \<and>
      mset (map fst (sy_logged t)) = mset (sy_accepted t) \<and>
      mset (sy_received t) = (\<Sum>q\<leftarrow>sy_accepted t. delivs q) + mset (sy_requeued t) \<and>
      mset (settled (log (sy_world t))) = mset (settled (log w)) + (\<Sum>x\<leftarrow>sy_logged t. settled_by x) +
        {#Nacked (fst d) False True. d \<in># mset (sy_requeued t)#})"
    using that accounted_Finished [OF _ _ pos, of t w] drain_can_step [OF work, of t] I by metis
  fix t'
  assume st: "system_step K t t'"
  have "coherent K t'" using coherent_step [OF work _ st] I by blast
  then show "(coherent K t' \<and> accounted w t' \<and> Joined \<le> sy_main t') \<and> to_do t' < to_do t"
    using accounted_step [OF work _ _ st handle] Joined_step [OF _ st] to_do_step [OF _ _ _ st work] I by blast
qed

text \<open>What is inevitable is reachable, and so is the end of the program, from its start.\<close>

text \<open>A run after the join is as long as there is something to do.\<close>

lemma drain_length:
  assumes "stage_contract (work_of K)" "coherent K s" "Joined \<le> sy_main s" "(system_step K ^^ n) s s'"
  shows "coherent K s' \<and> Joined \<le> sy_main s' \<and> n + to_do s' \<le> to_do s"
  using assms(4)
proof (induction n arbitrary: s')
  case 0
  then show ?case using assms(2,3) by simp
next
  case (Suc n)
  then obtain t where t: "(system_step K ^^ n) s t" "system_step K t s'" by auto
  note IH = Suc.IH [OF t(1)]
  have coh: "coherent K s'" using coherent_step [OF assms(1) _ t(2)] IH by blast
  then show ?case using to_do_step [OF _ coh _ t(2) assms(1)] Joined_step [OF _ t(2)] IH by fastforce
qed

lemma stages_left_bound: "stages_left st \<le> 4"
  by (cases st) simp_all

lemma work_left_sum: "(\<Sum>v\<leftarrow>vs. work_left v) \<le> 7 * length vs"
proof (induction vs)
  case (Cons v vs)
  have "work_left v \<le> 7" by (cases v) (auto simp: stages_left_bound)
  then show ?case using Cons by simp
qed simp

lemma to_do_Joined:
  assumes "coherent K s" "Joined \<le> sy_main s"
  shows "to_do s \<le> 5 + 14 * nat (mg_Workers (cf_manager K)) + length (sy_requests s)"
proof -
  have "length (sy_buf s) \<le> nat (mg_Workers (cf_manager K))" "length (sy_workers s) = nat (mg_Workers (cf_manager K))"
    "6 - phase_no (sy_main s) \<le> 4"
    using assms by (auto simp: coherent_def less_eq_phase_def)
  moreover have "(if sy_logger_done s then 0 else 1) \<le> (1::nat)" by simp
  ultimately show ?thesis using work_left_sum [of "sy_workers s"] unfolding to_do_def by linarith
qed

lemma inevitably_reachable:
  "inevitably (system_step K) P s \<Longrightarrow> reachable K s0 s \<Longrightarrow> \<exists>t. reachable K s0 t \<and> P t"
proof (induction rule: inevitably.induct)
  case (later s)
  then obtain s' where s': "system_step K s s'" by blast
  from later(2) s' reachable.more [OF later(3) s'] show ?case by blast
qed blast

lemma Finished_reachable:
  assumes "stage_contract (work_of K)" "0 < mg_Workers (cf_manager K)" "handler_contract (handle_of K) (job_body (cf_api K))"
  shows "\<exists>s. reachable K (started K w c) s \<and> sy_main s = Finished"
proof -
  let ?s0 = "started K w c"
  let ?s1 = "?s0\<lparr>sy_main := ShuttingDown, sy_cancelled := True\<rparr>"
  let ?s2 = "?s1\<lparr>sy_consumer := CReturned ErrContextCanceled\<rparr>"
  let ?s3 = "?s2\<lparr>sy_main := Joined\<rparr>"
  have s0: "sy_main ?s0 = Serving" "sy_consumer ?s0 = CTop" "\<not> sy_panic ?s0" by (simp_all add: started_def)
  have r1: "reachable K ?s0 ?s1"
    by (rule reachable_main [OF reachable.start]) (use s0 main_step.shutdown in simp_all)
  have r2: "reachable K ?s0 ?s2"
    using consumer_step.top_cancelled [of ?s1 K] s0 by (intro reachable_consumer [OF r1]) simp_all
  have r3: "reachable K ?s0 ?s3"
    using main_step.join [of ?s2] s0 by (intro reachable_main [OF r2]) simp_all
  show ?thesis
    using inevitably_reachable [OF drain_inevitable [OF assms coherent_reachable [OF assms(1) r3]
        accounted_reachable [OF assms(1) r3 assms(3)]] r3] by auto
qed


section \<open>Properties\<close>



text \<open>
  C2: No delivery is lost or settled twice. In every reachable state the deliveries received from the
  broker are those put into the message channel, those given back to the queue, and the one in the
  consumer's hand; the messages put into the channel are those still in it, those the workers hold
  and those whose result is logged; and the settlements made are one for each message whose result
  is logged or on its way to the logger, acknowledged when its result has no error and rejected
  otherwise, and one requeueing rejection for each delivery given back.
\<close>

theorem deliveries_accounted:
  assumes cpu: "0 < rt_numcpu (cf_runtime K)"
    and built: "built K G" and run: "reachable K (started K w c) s"
  shows "mset (sy_received s) =
      in_hand (sy_consumer s) + (\<Sum>q\<leftarrow>sy_accepted s. delivs q) + mset (sy_requeued s) \<and>
    mset (sy_accepted s) = mset (sy_buf s) + (\<Sum>v\<leftarrow>sy_workers s. holding v) + mset (map fst (sy_logged s)) \<and>
    mset (settled (log (sy_world s))) = mset (settled (log w)) + (\<Sum>x\<leftarrow>sy_logged s. settled_by x) +
      (\<Sum>v\<leftarrow>sy_workers s. returning v) + {#Nacked (fst d) False True. d \<in># mset (sy_requeued s)#} \<and>
    (\<forall>(q, r)\<in>set (sy_logged s). res_Payload r = payload_of q)"
  using accounted_reachable [OF built_contract(1) [OF cpu built] run built_contract(3) [OF cpu built]]
  by (simp add: accounted_def)

theorem deliveries_accounted_witness:
  "\<exists>s. reachable demo_config demo_start s \<and> sy_main s = Joined \<and>
     {#(5, ''{}'')#} = (\<Sum>q\<leftarrow>sy_accepted s. delivs q)"
proof -
  obtain s where s: "reachable demo_config demo_start s" "sy_main s = Joined" "sy_received s = [(5, ''{}'')]"
    "sy_requeued s = []" using demo_joined by blast
  have "in_hand (sy_consumer s) = {#}"
    using coherent_reachable [OF built_contract(1) [OF demo_contracts] s(1) [unfolded demo_start_def]] s(2)
    by (simp add: coherent_def)
  then show ?thesis
    using deliveries_accounted [OF demo_contracts s(1) [unfolded demo_start_def]] s by auto
qed

text \<open>
  C3: The shutdown drains the program. Once \<^verbatim>\<open>main\<close> has seen the consumer return, every run comes to the
  end of the stop function, whatever the schedule; then every message that was put into the channel
  has been processed and its result logged, and every delivery received has been settled exactly
  once: acknowledged or dead-lettered as its result says, or given back to the queue.
\<close>

theorem shutdown_drains:
  assumes cpu: "0 < rt_numcpu (cf_runtime K)"
    and built: "built K G" and run: "reachable K (started K w c) s" and joined: "Joined \<le> sy_main s"
  shows "inevitably (system_step K) (\<lambda>t. sy_main t = Finished \<and>
      mset (map fst (sy_logged t)) = mset (sy_accepted t) \<and>
      mset (sy_received t) = (\<Sum>q\<leftarrow>sy_accepted t. delivs q) + mset (sy_requeued t) \<and>
      mset (settled (log (sy_world t))) = mset (settled (log w)) + (\<Sum>x\<leftarrow>sy_logged t. settled_by x) +
        {#Nacked (fst d) False True. d \<in># mset (sy_requeued t)#}) s"
proof -
  note P = built_contract [OF cpu built]
  show ?thesis
    by (rule drain_inevitable [OF P coherent_reachable [OF P(1) run] accounted_reachable [OF P(1) run P(3)] joined])
qed

theorem shutdown_drains_witness:
  "\<exists>s. reachable demo_config demo_start s \<and> sy_buf s = [Delivered 5 ''{}''] \<and>
     inevitably (system_step demo_config) (\<lambda>t. sy_main t = Finished \<and>
       mset (map fst (sy_logged t)) = mset (sy_accepted t)) s"
proof -
  obtain s where s: "reachable demo_config demo_start s" "sy_main s = Joined" "sy_buf s = [Delivered 5 ''{}'']"
    using demo_joined by blast
  have mono: "inevitably R Q s" if "inevitably R P s" "\<And>t. P t \<Longrightarrow> Q t" for R and P Q :: "apiworld system \<Rightarrow> bool" and s
    using that(1) by induction (auto intro: inevitably.intros that(2))
  have "inevitably (system_step demo_config) (\<lambda>t. sy_main t = Finished \<and>
       mset (map fst (sy_logged t)) = mset (sy_accepted t)) s"
    by (rule mono [OF shutdown_drains [OF demo_contracts s(1) [unfolded demo_start_def]]]) (use s in simp_all)
  then show ?thesis using s by blast
qed



text \<open>
  C30: The pauses between reconnects back off exactly as configured: the pause before a reconnect is one
  second doubled once for every reconnect that failed since the last success, and at most thirty
  seconds; the doubling never overflows.
\<close>

theorem reconnect_backoff:
  assumes "reachable K (started K w c) s" "i < length (sy_waits s)"
  shows "sint (sy_waits s ! i) = min (2 ^ failures (take i (sy_reconnects s)) * 1000000000) 30000000000"
  using paced_reachable [OF assms(1)] assms(2) backoff_after_range by (simp add: paced_def)

text \<open>A broker that refuses every connection.\<close>

lemma demo_waits:
  "\<exists>s. reachable demo_config (started demo_config (beside (failing [True])) demo_client) s \<and> length (sy_waits s) = 1"
proof -
  let ?s0 = "started demo_config (beside (failing [True])) demo_client"
  have c: "run_state (Consume (cf_amqp demo_config) demo_client (cf_consumerName demo_config) False) (beside (failing [True])) =
      (Err (ErrText ''rabbitmq channel is not initialized''), beside (failing [True]))"
    by (simp add: Consume_def demo_client_def)
  have s0: "sy_consumer ?s0 = CTop" "\<not> sy_cancelled ?s0" "\<not> sy_panic ?s0" "sy_client ?s0 = demo_client"
      "sy_world ?s0 = beside (failing [True])" "sy_waits ?s0 = []"
    by (simp_all add: started_def)
  let ?s1 = "?s0\<lparr>sy_consumer := CConsume\<rparr>"
  let ?s2 = "?s1\<lparr>sy_world := beside (failing [True]), sy_panic := False,
     sy_consumer := CBroken (Some (ErrText ''rabbitmq channel is not initialized''))\<rparr>"
  let ?s3 = "?s2\<lparr>sy_consumer := CWait\<rparr>"
  let ?s4 = "?s3\<lparr>sy_consumer := CReconnect, sy_waits := [sy_backoff ?s3]\<rparr>"
  have r1: "reachable demo_config ?s0 ?s1"
    by (rule reachable_consumer [OF reachable.start]) (use s0 consumer_step.top in simp_all)
  have r2: "reachable demo_config ?s0 ?s2"
    using consumer_step.consume [of ?s1 demo_config "Err (ErrText ''rabbitmq channel is not initialized'')" "beside (failing [True])"] c s0
    by (intro reachable_consumer [OF r1]) simp_all
  have r3: "reachable demo_config ?s0 ?s3"
    using consumer_step.broken [of ?s2 _ demo_config] s0 by (intro reachable_consumer [OF r2]) simp_all
  have r4: "reachable demo_config ?s0 ?s4"
    using consumer_step.wait_over [of ?s3 demo_config] s0 by (intro reachable_consumer [OF r3]) simp_all
  show ?thesis using r4 by (intro exI [of _ ?s4]) simp
qed

theorem reconnect_backoff_witness:
  "\<exists>s. reachable demo_config (started demo_config (beside (failing [True])) demo_client) s \<and> sint (sy_waits s ! 0) = 1000000000"
proof -
  obtain s where s: "reachable demo_config (started demo_config (beside (failing [True])) demo_client) s" "length (sy_waits s) = 1"
    using demo_waits by blast
  then show ?thesis using reconnect_backoff [OF s(1), of 0] by (intro exI [of _ s]) simp
qed

end
