(* ===== verification/Bootstrap.thy ===== *)
theory Bootstrap
  imports Outside Lifecycle
begin

text \<open>
  \<^verbatim>\<open>cmd/main.go\<close>: configuration, the start of the program and the clean-up when \<^verbatim>\<open>main\<close> returns. The time in
  between, until the stop function has run, is the transition system of \<open>Manager\<close>; the readiness check
  is in \<open>Http_Server\<close>. \<open>G\<close> is GORM over the connection that was opened; the pointer to the publisher is
  a cell of the world, read by \<open>get\<close> and written by \<open>put\<close>.
\<close>

section \<open>Configuration\<close>

text \<open>\<^verbatim>\<open>init\<close>: a flag that cannot be parsed counts as false.\<close>

definition main_init :: "environ \<Rightarrow> database" where
  "main_init E =
     (let flag = (\<lambda>v. case ParseBool v of Some b \<Rightarrow> b | None \<Rightarrow> False) in
      NewDb\<lparr>db_AutoMigrateDb := flag (E ''AUTO_MIGRATE_DB''), db_Debug := flag (E ''DEBUG''),
        db_Dsn := E ''DSN'', db_Env := E ''ENV''\<rparr>)"

definition requiredEnv :: "environ \<Rightarrow> string \<Rightarrow> string exits" where
  "requiredEnv E key =
     (if E key = '''' then Fatal (''required environment variable is missing: '' @ key) else Returns (E key))"

definition httpAddr :: "environ \<Rightarrow> string" where
  "httpAddr E = (if E ''HTTP_ADDR'' \<noteq> '''' then E ''HTTP_ADDR'' else '':8080'')"


section \<open>Start\<close>

text \<open>What \<^verbatim>\<open>main\<close> has built when it starts the workers.\<close>

record 'w running =
  ru_sqlDB :: handle
  ru_manager :: "'w manager"
  ru_q :: client
  ru_pub :: client
  ru_consumerName :: string

definition fatal_error :: "string \<Rightarrow> err \<Rightarrow> 'a exits" where
  "fatal_error msg e = Fatal (msg @ '': '' @ err_text e)"

text \<open>\<open>must msg m f\<close> is \<^verbatim>\<open>x, err := m; if err != nil { log.Fatalf(msg + ": %v", err) }\<close> followed by \<open>f x\<close>.\<close>

definition must :: "string \<Rightarrow> ('s, 'a res) state \<Rightarrow> ('a \<Rightarrow> ('s, 'b exits) state) \<Rightarrow> ('s, 'b exits) state" where
  "must msg m f = do {
     r \<leftarrow> m;
     case r of Ok x \<Rightarrow> f x | Err e \<Rightarrow> ret (fatal_error msg e) | Panic \<Rightarrow> ret Crashes
   }"

text \<open>A method of a client that updates it.\<close>

definition updating :: "('s, client \<times> unit res) state \<Rightarrow> ('s, client res) state" where
  "updating m = do { (c, r) \<leftarrow> m; ret (case r of Ok _ \<Rightarrow> Ok c | Err e \<Rightarrow> Err e | Panic \<Rightarrow> Panic) }"

definition startup ::
  "'w driver \<Rightarrow> (handle \<Rightarrow> 'w gorm) \<Rightarrow> 'w lib \<Rightarrow> 'w amqp \<Rightarrow> environ \<Rightarrow> database \<Rightarrow> ('w, 'w running exits) io" where
  "startup D G L A E db =
     (case requiredEnv E ''RABBITMQ_CONSUMER'' of
        Fatal m \<Rightarrow> ret (Fatal m)
      | Crashes \<Rightarrow> ret Crashes
      | Returns consumerName \<Rightarrow>
          if E ''DSN'' = '''' then ret (Fatal ''required environment variable is missing: DSN'')
          else
            must ''database connection error'' (do { (d, r) \<leftarrow> Database_Connect D db; ret r }) (\<lambda>conn.
            must ''database handle error'' (call_unit (dv_sql_db D (gd_pool conn)) (\<lambda>r. Boot (EvSqlDB (gd_pool conn) r))) (\<lambda>_.
            let jobService = gorm_service L (G (gd_pool conn)); manager = NewManager E (Some jobService) in
            must ''queue configuration error'' (ret (NewClientFromEnv E)) (\<lambda>q0.
            must ''rabbitmq connection error'' (updating (Connect A (q0\<lparr>qc_Prefetch := mg_Workers manager\<rparr>))) (\<lambda>q.
            must ''queue declare error'' (Declare A q) (\<lambda>declaredQueue.
            must ''publisher configuration error'' (ret (NewClientFromEnv E)) (\<lambda>pub0.
            must ''publisher connection error'' (updating (Connect A pub0)) (\<lambda>pub.
            ret (Returns \<lparr>ru_sqlDB = gd_pool conn, ru_manager = manager, ru_q = q, ru_pub = pub,
              ru_consumerName = consumerName\<rparr>)))))))))"

text \<open>The deferred calls that follow the stop function when \<^verbatim>\<open>main\<close> returns, last deferred first; their
  errors are only logged.\<close>

definition cleanup :: "'w driver \<Rightarrow> 'w amqp \<Rightarrow> ('w \<Rightarrow> client) \<Rightarrow> (client \<Rightarrow> 'w \<Rightarrow> 'w) \<Rightarrow> handle \<Rightarrow> client \<Rightarrow> ('w, unit) io" where
  "cleanup D A get put sqlDB q = do {
     _ \<leftarrow> via get put (Close A);
     _ \<leftarrow> Close A q;
     _ \<leftarrow> perform (dv_close D sqlDB) (\<lambda>r. Boot (EvCloseSqlDB sqlDB r));
     ret ()
   }"

text \<open>The configuration of the transition system that runs between the two, and the world it starts in: the
  server is built and the struct of the publisher lies in its cell.\<close>

definition running_config :: "'w lib \<Rightarrow> 'w runtime \<Rightarrow> environ \<Rightarrow> 'w media \<Rightarrow> 'w amqp \<Rightarrow> 'w driver \<Rightarrow> (handle \<Rightarrow> 'w gorm) \<Rightarrow>
    ('w \<Rightarrow> client) \<Rightarrow> (client \<Rightarrow> 'w \<Rightarrow> 'w) \<Rightarrow> api_env \<Rightarrow> (endpoint target \<Rightarrow> status_recorder \<Rightarrow> status_recorder) \<Rightarrow>
    'w running \<Rightarrow> 'w config" where
  "running_config L T E M A D G get put Q pages b =
     \<lparr>cf_lib = L, cf_runtime = T, cf_environ = E, cf_media = M, cf_amqp = A, cf_manager = ru_manager b,
      cf_consumerName = ru_consumerName b, cf_driver = D, cf_sqlDB = ru_sqlDB b, cf_get = get, cf_put = put,
      cf_api = Q, cf_pages = pages, cf_server = main_server L (G (ru_sqlDB b)) A D get put (ru_sqlDB b)\<rparr>"

definition launched :: "(client \<Rightarrow> 'w \<Rightarrow> 'w) \<Rightarrow> 'w running \<Rightarrow> 'w world \<Rightarrow> 'w world" where
  "launched put b w = w\<lparr>ext := put (ru_pub b) (ext w)\<rparr>"


section \<open>What a start opens\<close>

lemma run_must [exec_simps]:
  "run_state (must msg m f) s =
     (case val m s of Ok x \<Rightarrow> run_state (f x) (post m s) | Err e \<Rightarrow> (fatal_error msg e, post m s) | Panic \<Rightarrow> (Crashes, post m s))"
  by (simp add: must_def split_beta split: res.split)

text \<open>What a program that holds \<open>R\<close> has opened, when it returns: what it closed and what \<open>main\<close> then owns.\<close>

definition owned :: "'w running \<Rightarrow> resource multiset" where
  "owned b = {#SqlPool (ru_sqlDB b)#} + held (ru_q b) + held (ru_pub b)"

definition carries :: "resource multiset \<Rightarrow> ('w, 'w running exits) io \<Rightarrow> bool" where
  "carries R m \<longleftrightarrow> (\<forall>w. \<exists>es. log (post m w) = log w @ es \<and>
     (\<forall>b. val m w = Returns b \<longrightarrow> sum_list (map acquired es) + R = sum_list (map released es) + owned b))"

text \<open>\<open>opens m S\<close>: when \<open>m\<close> succeeds with \<open>x\<close> it has opened \<open>S x\<close> more than it closed.\<close>

definition opens :: "('w, 'a res) io \<Rightarrow> ('a \<Rightarrow> resource multiset) \<Rightarrow> bool" where
  "opens m S \<longleftrightarrow> (\<forall>w. \<exists>es. log (post m w) = log w @ es \<and>
     (\<forall>x. val m w = Ok x \<longrightarrow> sum_list (map acquired es) = sum_list (map released es) + S x))"

lemma carries_ret: "(\<And>b. x = Returns b \<Longrightarrow> R = owned b) \<Longrightarrow> carries R (ret x)"
  by (auto simp: carries_def)

lemma carries_must:
  assumes "opens m S" "\<And>x w. val m w = Ok x \<Longrightarrow> carries (S x + R) (f x)"
  shows "carries R (must msg m f)"
  unfolding carries_def
proof
  fix w
  obtain es where es: "log (post m w) = log w @ es"
    "\<And>x. val m w = Ok x \<Longrightarrow> sum_list (map acquired es) = sum_list (map released es) + S x"
    using assms(1) unfolding opens_def by blast
  show "\<exists>es. log (post (must msg m f) w) = log w @ es \<and>
     (\<forall>b. val (must msg m f) w = Returns b \<longrightarrow> sum_list (map acquired es) + R = sum_list (map released es) + owned b)"
  proof (cases "val m w")
    case (Ok x)
    obtain fs where fs: "log (post (f x) (post m w)) = log (post m w) @ fs"
      "\<And>b. val (f x) (post m w) = Returns b \<Longrightarrow>
         sum_list (map acquired fs) + (S x + R) = sum_list (map released fs) + owned b"
      using assms(2) [OF Ok] unfolding carries_def by blast
    have "sum_list (map acquired (es @ fs)) + R = sum_list (map released (es @ fs)) + owned b"
      if "val (f x) (post m w) = Returns b" for b
      using fs(2) [OF that] es(2) [OF Ok] by (simp add: union_ac)
    then show ?thesis using es(1) fs(1) Ok by (intro exI [of _ "es @ fs"]) (simp add: exec_simps)
  next
    case (Err e)
    then show ?thesis using es(1) by (intro exI [of _ es]) (simp add: exec_simps fatal_error_def)
  next
    case Panic
    then show ?thesis using es(1) by (intro exI [of _ es]) (simp add: exec_simps)
  qed
qed

lemma carries_if: "(b \<Longrightarrow> carries R m) \<Longrightarrow> (\<not> b \<Longrightarrow> carries R n) \<Longrightarrow> carries R (if b then m else n)"
  by simp

lemma carries_case_exits:
  "(\<And>s. r = Fatal s \<Longrightarrow> carries R (f s)) \<Longrightarrow> (\<And>x. r = Returns x \<Longrightarrow> carries R (g x)) \<Longrightarrow> (r = Crashes \<Longrightarrow> carries R h) \<Longrightarrow>
    carries R (case r of Fatal s \<Rightarrow> f s | Returns x \<Rightarrow> g x | Crashes \<Rightarrow> h)"
  by (simp split: exits.split)

lemma opens_owes: "owes {#} m \<Longrightarrow> opens m (\<lambda>_. {#})"
  unfolding owes_def opens_def by (metis add.right_neutral)

lemma opens_Connect:
  assumes "qc_Connection c = None" "qc_Channel c = None"
  shows "opens (updating (Connect A c)) held"
proof -
  have h: "held c = {#}" using assms by (simp add: held_def)
  show ?thesis
    using accounts_connectLocked [OF assms, of A] h
    unfolding opens_def accounts_def updating_def Connect_def
    by (auto simp: split_beta split: res.splits)
qed

lemma opens_Database: "opens (do { (d, r) \<leftarrow> Database_Connect D db; ret r }) (\<lambda>g. {#SqlPool (gd_pool g)#})"
  unfolding opens_def
proof
  fix w
  let ?c = "Database_Connect D db"
  obtain es where es: "log (post ?c w) = log w @ es"
    "\<And>g. snd (val ?c w) = Ok g \<Longrightarrow> es =
        (if db_Env db = ''test'' then Boot (EvOpenSqlite (db_DsnTest db) (Inr (gd_pool g)))
               else Boot (EvOpenPostgres (db_Dsn db) (Inr (gd_pool g)))) #
              (if db_AutoMigrateDb db then [Boot (EvMigrate (gd_pool g) None)] else [])"
    using Database_Connect_run [of D db w] by fastforce
  have "sum_list (map acquired es) = sum_list (map released es) + {#SqlPool (gd_pool g)#}" if "snd (val ?c w) = Ok g" for g
    unfolding es(2) [OF that] by simp
  then show "\<exists>es. log (post (do { (d, r) \<leftarrow> ?c; ret r }) w) = log w @ es \<and>
     (\<forall>g. val (do { (d, r) \<leftarrow> ?c; ret r }) w = Ok g \<longrightarrow>
       sum_list (map acquired es) = sum_list (map released es) + {#SqlPool (gd_pool g)#})"
    using es(1) by (intro exI [of _ es]) (simp add: split_beta)
qed

lemma owes_Declare: "owes {#} (Declare A c)"
  unfolding Declare_def queue_declare_def Let_def
  by (auto intro!: balance_rules split: option.split)

lemma NewClientFromEnv_closed:
  "NewClientFromEnv E = Ok c \<Longrightarrow> qc_Connection c = None \<and> qc_Channel c = None"
  by (auto simp: NewClientFromEnv_def NewClient_def split: if_splits)

lemma carries_startup: "carries {#} (startup D G L A E db)"
proof -
  have conf: "opens (ret (NewClientFromEnv E)) (\<lambda>_. {#})" by (intro opens_owes owes_ret)
  have unit: "opens (call_unit (dv_sql_db D h) (\<lambda>r. Boot (EvSqlDB h r))) (\<lambda>_. {#})" for h
    by (intro opens_owes balance_rules) simp
  show ?thesis
    unfolding startup_def Let_def
    by (intro carries_case_exits carries_if carries_must [OF opens_Database] carries_must [OF unit]
        carries_must [OF conf] carries_must [OF opens_Connect] carries_must [OF opens_owes [OF owes_Declare]] carries_ret)
       (auto simp: owned_def dest: NewClientFromEnv_closed)
qed



section \<open>The connections while the program runs\<close>

text \<open>What the consumer's client and the publisher's, which \<open>get\<close> reads, own together.\<close>

definition connections :: "('w \<Rightarrow> client) \<Rightarrow> 'w world \<Rightarrow> client \<Rightarrow> 'w world \<Rightarrow> client \<Rightarrow> bool" where
  "connections get w c w' c' \<longleftrightarrow> (\<exists>es. log w' = log w @ es \<and>
     sum_list (map acquired es) + (held c + held (get (ext w))) =
       sum_list (map released es) + (held c' + held (get (ext w'))))"

lemma connections_refl: "connections get w c w c"
  by (simp add: connections_def)

lemma connections_trans:
  assumes "connections get w c w1 c1" "connections get w1 c1 w2 c2"
  shows "connections get w c w2 c2"
proof -
  let ?h = "\<lambda>w c. held c + held (get (ext w))"
  obtain es fs where *: "log w1 = log w @ es" "sum_list (map acquired es) + ?h w c = sum_list (map released es) + ?h w1 c1"
    "log w2 = log w1 @ fs" "sum_list (map acquired fs) + ?h w1 c1 = sum_list (map released fs) + ?h w2 c2"
    using assms by (auto simp: connections_def)
  have "sum_list (map acquired (es @ fs)) + ?h w c = sum_list (map acquired fs) + (sum_list (map acquired es) + ?h w c)"
    by (simp add: union_ac)
  also have "\<dots> = sum_list (map released es) + (sum_list (map acquired fs) + ?h w1 c1)"
    unfolding *(2) by (simp add: union_ac)
  also have "\<dots> = sum_list (map released (es @ fs)) + ?h w2 c2"
    unfolding *(4) by (simp add: union_ac)
  finally show ?thesis
    unfolding connections_def using *(1,3) by (intro exI [of _ "es @ fs"]) simp
qed

lemma connections_owes: "owes {#} m \<Longrightarrow> keeps get m \<Longrightarrow> run_state m w = (r, w') \<Longrightarrow> connections get w c w' c"
  unfolding owes_def connections_def by (metis add.right_neutral keepsD snd_conv)

lemma connections_accounts:
  assumes "accounts c m" "keeps get m" "run_state m w = ((c', r), w')"
  shows "connections get w c w' c'"
proof -
  obtain es where es: "log w' = log w @ es" "sum_list (map acquired es) + held c = sum_list (map released es) + held c'"
    using assms(1,3) unfolding accounts_def by (metis fst_conv snd_conv)
  moreover have "get (ext w') = get (ext w)" using keepsD [OF assms(2), of w] assms(3) by simp
  ultimately show ?thesis
    unfolding connections_def by (intro exI [of _ es]) (simp add: add.assoc [symmetric])
qed

lemma connections_tracks: "tracks get m \<Longrightarrow> run_state m w = (r, w') \<Longrightarrow> connections get w c w' c"
  unfolding tracks_def connections_def by (metis snd_conv union_assoc union_commute)

lemma owes_Consume: "owes {#} (Consume A c n g)"
  unfolding Consume_def by (auto intro!: balance_rules split: option.split)

lemma accounts_reconnect_all: "accounts c (reconnect A c)"
  unfolding reconnect_def Reconnect_def
  by (rule accounts_bind [OF accounts_reconnect])
     (simp only: prod.case, intro accounts_case_res accounts_before [OF owes_Declare] accounts_ret)

lemma owes_acknowledge: "owes {#} (acknowledge (message_of A q) r)"
  by (cases q) (auto simp: acknowledge_def message_of_def deliveryAck_def intro!: balance_rules)

lemma owes_Nack: "owes {#} (ack_Nack (deliveryAck A d) q)"
  by (simp add: deliveryAck_def balance_rules)

lemma owes_mark:
  "owes {#} (MarkProcessing (gorm_service L G) i)" "owes {#} (MarkCompleted (gorm_service L G) i)"
  "owes {#} (MarkFailed (gorm_service L G) i e)"
  by (rule emits_db_owes, rule emits_mark)+

lemma owes_work:
  assumes "built K G"
  shows "owes {#} (work_of K b st)"
proof -
  have m: "mg_JobService (cf_manager K) = Some (gorm_service (cf_lib K) G)"
      "mg_Processor (cf_manager K) = Some (NewProcessorFromEnv (cf_environ K) (Some (gorm_service (cf_lib K) G)))"
    using assms by (simp_all add: built_def NewManager_def)
  have p: "pr_JobService (NewProcessorFromEnv E S) = S" for E S
    by (simp add: NewProcessorFromEnv_def)
  show ?thesis
    unfolding work_of_def stage_step_def Let_def m deref_simps p
    by (cases st; simp only: stage.case)
       (intro owes_case_res owes_ret owes_bind0 owes_if owes_wrap emits_db_owes [OF emits_CreatePendingJob] owes_mark
         owes_pipeline)+
qed

context private_contract
begin

lemma connections_step:
  assumes "built K G" "system_step K s s'"
  shows "connections (cf_get K) (sy_world s) (sy_client s) (sy_world s') (sy_client s')"
  using assms(2)
proof cases
  case by_consumer
  from by_consumer(2) show ?thesis
    by cases (simp_all add: connections_refl connections_owes [OF owes_Consume keeps_Consume]
        connections_owes [OF owes_Nack keeps_Nack] connections_accounts [OF accounts_reconnect_all keeps_reconnect])
next
  case (by_worker i)
  note work = connections_owes [OF owes_work [OF assms(1)] keeps_work [OF assms(1)]]
  from by_worker(3) show ?thesis
    by cases (simp_all add: connections_refl work connections_owes [OF owes_acknowledge keeps_acknowledge])
next
  case by_main
  from by_main(2) show ?thesis by (elim main_stepE stop_stepE) (simp_all add: connections_refl)
next
  case by_http
  from by_http(2) show ?thesis
    by cases (simp_all add: connections_refl connections_tracks [OF tracks_handle [OF assms(1)], unfolded handle_of_def])
qed (simp_all add: connections_refl Enqueue_def)

lemma connections_reachable:
  assumes "built K G" "reachable K (started K w c) s"
  shows "connections (cf_get K) w c (sy_world s) (sy_client s)"
  using assms(2)
proof induction
  case start
  show ?case by (simp add: started_def connections_refl)
next
  case (more s s')
  show ?case by (rule connections_trans [OF more(3) connections_step [OF assms(1) more(2)]])
qed

end

lemma cleanup_log:
  "\<exists>es. log (post (cleanup D A get put sqlDB q) w) = log w @ es \<and>
     sum_list (map acquired es) + ({#SqlPool sqlDB#} + held q + held (get (ext w))) = sum_list (map released es)"
proof -
  have none: "held (c\<lparr>qc_Channel := None, qc_Connection := None\<rparr>) = {#}" for c by (simp add: held_def)
  have close: "\<exists>es. log (post (Close A c) w) = log w @ es \<and>
      sum_list (map acquired es) + held c = sum_list (map released es)" for c w
    using accounts_closeLocked [of c A, unfolded accounts_def, rule_format, of w]
    unfolding Close_def closeLocked_client none by simp
  let ?w1 = "post (via get put (Close A)) w"
  have "log ?w1 = log (post (Close A (get (ext w))) w)" by (simp add: run_via Let_def)
  then obtain es where es: "log ?w1 = log w @ es"
    "sum_list (map acquired es) + held (get (ext w)) = sum_list (map released es)" using close by metis
  obtain fs where fs: "log (post (Close A q) ?w1) = log ?w1 @ fs"
    "sum_list (map acquired fs) + held q = sum_list (map released fs)" using close by blast
  let ?w2 = "post (Close A q) ?w1"
  have "log (post (cleanup D A get put sqlDB q) w) =
      log w @ es @ fs @ [Boot (EvCloseSqlDB sqlDB (fst (dv_close D sqlDB (ext ?w2))))]"
    using es(1) fs(1) by (simp add: cleanup_def exec_simps split_beta del: run_via)
  then show ?thesis
    using es(2) fs(2) by (intro exI) (rule conjI, assumption, simp add: union_ac flip: es(2) fs(2))
qed



section \<open>A concrete start\<close>

definition boot_env :: environ where
  "boot_env = demo_env(''RABBITMQ_CONSUMER'' := ''worker'', ''DSN'' := ''host=db'', ''RABBITMQ_QUEUE'' := ''videos'',
     ''RABBITMQ_URL'' := ''amqp://broker'')"

definition boot_db :: database where
  "boot_db = main_init boot_env"

lemma startup_built:
  assumes "run_state (startup D G L A E db) w = (Returns b, w1)" "K = running_config L T E M A D G get put Q pages b"
  shows "built K (G (ru_sqlDB b))"
proof -
  have "ru_manager b = NewManager E (Some (gorm_service L (G (ru_sqlDB b))))"
    using arg_cong [OF assms(1), of fst] unfolding startup_def Let_def
    by (auto simp: run_must split_beta fatal_error_def split: exits.splits if_splits res.splits)
  then show ?thesis by (simp add: built_def assms(2) running_config_def)
qed

lemma boot_starts:
  "\<exists>b w1. run_state (startup mem_driver (\<lambda>_. mem_gorm) mem_lib mem_amqp boot_env boot_db) api_world = (Returns b, w1)"
  by (simp add: startup_def requiredEnv_def boot_env_def demo_env_def boot_db_def main_init_def NewDb_def ParseBool_def
      exec_simps Database_Connect_def mem_driver_def mm_open_def mm_act_def api_world_def memworld.defs demo_ext_def Let_def
      NewClientFromEnv_def NewClient_def updating_def Connect_def connectLocked_def mem_amqp_def Declare_def
      queue_declare_def workerConcurrencyFromEnv_def defaultWorkerConcurrency_def NewManager_def)


section \<open>Properties\<close>

text \<open>
  A program without its consumer name or its data source ends with a message before it has made any
  outside call, so it leaks nothing.
\<close>

theorem missing_config_is_fatal:
  assumes "E ''RABBITMQ_CONSUMER'' = '''' \<or> E ''DSN'' = ''''"
  shows "\<exists>key \<in> {''RABBITMQ_CONSUMER'', ''DSN''}. E key = '''' \<and>
    run_state (startup D G L A E db) w = (Fatal (''required environment variable is missing: '' @ key), w)"
  using assms by (auto simp: startup_def requiredEnv_def)

theorem missing_config_is_fatal_witness:
  "run_state (startup mem_driver (\<lambda>_. mem_gorm) mem_lib mem_amqp (boot_env(''DSN'' := '''')) boot_db) demo_world =
     (Fatal ''required environment variable is missing: DSN'', demo_world)"
  using missing_config_is_fatal [of "boot_env(''DSN'' := '''')" mem_driver "\<lambda>_. mem_gorm" mem_lib mem_amqp boot_db demo_world]
  by (simp add: boot_env_def)

text \<open>
  C39: The queue's name and address are not part of that check: without them the program ends too, but
  only after it has opened the database, which it leaves open.
\<close>

theorem queue_config_checked_late:
  assumes "E ''RABBITMQ_CONSUMER'' \<noteq> ''''" "E ''DSN'' \<noteq> ''''" "E ''RABBITMQ_QUEUE'' = '''' \<or> E ''RABBITMQ_URL'' = ''''"
    "snd (val (Database_Connect D db) w) = Ok g"
    "fst (dv_sql_db D (gd_pool g) (ext (post (Database_Connect D db) w))) = None"
  shows "(\<exists>key \<in> {''RABBITMQ_QUEUE'', ''RABBITMQ_URL''}. val (startup D G L A E db) w =
      Fatal (''queue configuration error: '' @ key @ '' is required'')) \<and>
    sum_list (map acquired (events (startup D G L A E db) w)) = {#SqlPool (gd_pool g)#} \<and>
    sum_list (map released (events (startup D G L A E db) w)) = {#}"
proof -
  let ?c = "Database_Connect D db"
  let ?e = "Boot (EvSqlDB (gd_pool g) None)"
  have "\<exists>key \<in> {''RABBITMQ_QUEUE'', ''RABBITMQ_URL''}. NewClientFromEnv E = Err (ErrText (key @ '' is required''))"
    using assms(3) by (auto simp: NewClientFromEnv_def)
  then obtain key where key: "NewClientFromEnv E = Err (ErrText (key @ '' is required''))"
    "key \<in> {''RABBITMQ_QUEUE'', ''RABBITMQ_URL''}" by blast
  obtain es where es: "log (post ?c w) = log w @ es"
    "es = (if db_Env db = ''test'' then Boot (EvOpenSqlite (db_DsnTest db) (Inr (gd_pool g)))
               else Boot (EvOpenPostgres (db_Dsn db) (Inr (gd_pool g)))) #
              (if db_AutoMigrateDb db then [Boot (EvMigrate (gd_pool g) None)] else [])"
    using Database_Connect_run [of D db w] assms(4) by auto
  have run: "val (startup D G L A E db) w = Fatal (''queue configuration error: '' @ key @ '' is required'')"
    "log (post (startup D G L A E db) w) = log w @ es @ [?e]"
    using assms(1,2,4,5) key(1) es(1)
    by (simp_all add: startup_def requiredEnv_def Let_def exec_simps split_beta fatal_error_def)
  show ?thesis
    using run(1) key(2) es(2) by (auto simp: events_eqI [OF run(2)])
qed

theorem queue_config_checked_late_witness:
  "\<exists>key \<in> {''RABBITMQ_QUEUE'', ''RABBITMQ_URL''}.
     val (startup mem_driver (\<lambda>_. mem_gorm) mem_lib mem_amqp (boot_env(''RABBITMQ_QUEUE'' := '''')) boot_db) demo_world =
       Fatal (''queue configuration error: '' @ key @ '' is required'')"
proof -
  have c: "snd (val (Database_Connect mem_driver boot_db) demo_world) = Ok \<lparr>gd_pool = 0, gd_logs = False\<rparr>"
    "fst (dv_sql_db mem_driver 0 (ext (post (Database_Connect mem_driver boot_db) demo_world))) = None"
    by (simp_all add: Database_Connect_def exec_simps mem_driver_def mm_open_def mm_act_def demo_world_def demo_ext_def
        boot_db_def main_init_def boot_env_def demo_env_def NewDb_def ParseBool_def Let_def)
  have "(boot_env(''RABBITMQ_QUEUE'' := '''')) ''RABBITMQ_CONSUMER'' \<noteq> ''''"
    "(boot_env(''RABBITMQ_QUEUE'' := '''')) ''DSN'' \<noteq> ''''" by (simp_all add: boot_env_def)
  moreover have "(boot_env(''RABBITMQ_QUEUE'' := '''')) ''RABBITMQ_QUEUE'' = '''' \<or>
      (boot_env(''RABBITMQ_QUEUE'' := '''')) ''RABBITMQ_URL'' = ''''" by simp
  moreover have "fst (dv_sql_db mem_driver (gd_pool \<lparr>gd_pool = 0, gd_logs = False\<rparr>)
      (ext (post (Database_Connect mem_driver boot_db) demo_world))) = None" using c(2) by simp
  ultimately show ?thesis
    using queue_config_checked_late [OF _ _ _ c(1), of "boot_env(''RABBITMQ_QUEUE'' := '''')" "\<lambda>_. mem_gorm" mem_lib mem_amqp]
    by blast
qed

text \<open>
  C37: The whole program releases what it opens. When the start succeeds, the goroutines run in any way
  until the stop function has returned, and \<^verbatim>\<open>main\<close> then runs its deferred calls, every database
  pool, connection and channel opened on the way, and every client, reader, writer and file of the
  jobs, has been closed exactly as often as it was opened.
\<close>

theorem program_releases_everything:
  assumes start: "run_state (startup D G L A E db) w = (Returns b, w1)"
    and K: "K = running_config L T E M A D G get put Q pages b"
    and memory: "private_contract K (G (ru_sqlDB b))"
    and run: "reachable K (started K (launched put b w1) (ru_q b)) s"
  shows "\<exists>es. log (post (cleanup D A get put (ru_sqlDB b) (sy_client s)) (sy_world s)) = log w @ es \<and>
    sum_list (map acquired es) = sum_list (map released es)"
proof -
  let ?w2 = "launched put b w1"
  have K_sel: "cf_get K = get" "cf_put K = put" by (simp_all add: K running_config_def)
  have pub: "get (ext ?w2) = ru_pub b" "log ?w2 = log w1"
    using private_contract.cell_private [OF memory] by (simp_all add: launched_def K_sel)
  obtain es where es: "log w1 = log w @ es" "sum_list (map acquired es) = sum_list (map released es) + owned b"
    using carries_startup [of D G L A E db] start unfolding carries_def by (metis add.right_neutral fst_conv snd_conv)
  from private_contract.connections_reachable [OF memory startup_built [OF start K] run]
  obtain fs where fs: "log (sy_world s) = log w1 @ fs"
    "sum_list (map acquired fs) + (held (ru_q b) + held (ru_pub b)) =
       sum_list (map released fs) + (held (sy_client s) + held (get (ext (sy_world s))))"
    by (auto simp: connections_def pub K_sel)
  obtain gs where gs: "log (post (cleanup D A get put (ru_sqlDB b) (sy_client s)) (sy_world s)) = log (sy_world s) @ gs"
    "sum_list (map acquired gs) + ({#SqlPool (ru_sqlDB b)#} + held (sy_client s) + held (get (ext (sy_world s)))) =
       sum_list (map released gs)"
    using cleanup_log by blast
  have "sum_list (map acquired (es @ fs @ gs)) = sum_list (map released es) +
      (sum_list (map acquired fs) + (held (ru_q b) + held (ru_pub b))) + sum_list (map acquired gs) + {#SqlPool (ru_sqlDB b)#}"
    using es(2) by (simp add: owned_def union_ac)
  also have "\<dots> = sum_list (map released es) + sum_list (map released fs) +
      (sum_list (map acquired gs) + ({#SqlPool (ru_sqlDB b)#} + held (sy_client s) + held (get (ext (sy_world s)))))"
    unfolding fs(2) by (simp add: union_ac)
  also have "\<dots> = sum_list (map released (es @ fs @ gs))"
    unfolding gs(2) by (simp add: union_ac)
  finally show ?thesis using es(1) fs(1) gs(1) by (intro exI [of _ "es @ fs @ gs"]) simp
qed

text \<open>The whole program on the in-memory world, up to the end of its stop function.\<close>

lemma boot_runs:
  "\<exists>b w1 K s. run_state (startup mem_driver (\<lambda>_. mem_gorm) mem_lib mem_amqp boot_env boot_db) api_world = (Returns b, w1) \<and>
     K = running_config mem_lib mem_runtime boot_env mem_media mem_amqp mem_driver (\<lambda>_. mem_gorm) aw_client put_aw demo_api (\<lambda>t w. w) b \<and>
     private_contract K mem_gorm \<and> reachable K (started K (launched put_aw b w1) (ru_q b)) s \<and> sy_main s = Finished"
proof -
  obtain b w1 where b: "run_state (startup mem_driver (\<lambda>_. mem_gorm) mem_lib mem_amqp boot_env boot_db) api_world = (Returns b, w1)"
    using boot_starts by blast
  define K where K: "K = running_config mem_lib mem_runtime boot_env mem_media mem_amqp mem_driver (\<lambda>_. mem_gorm)
      aw_client put_aw demo_api (\<lambda>t w. w) b"
  have p: "private_contract K mem_gorm" by (rule mem_private) (simp_all add: K running_config_def)
  have c: "0 < rt_numcpu (cf_runtime K)" "built K mem_gorm"
    using startup_built [OF b K] by (simp_all add: K running_config_def demo_cpu)
  obtain s where "reachable K (started K (launched put_aw b w1) (ru_q b)) s" "sy_main s = Finished"
    using Finished_reachable [OF built_contract [OF c]] by blast
  then show ?thesis using b K p by blast
qed

theorem program_releases_everything_witness:
  "\<exists>b w1 (s :: apiworld system) es. run_state (startup mem_driver (\<lambda>_. mem_gorm) mem_lib mem_amqp boot_env boot_db) api_world = (Returns b, w1) \<and>
     sy_main s = Finished \<and>
     log (post (cleanup mem_driver mem_amqp aw_client put_aw (ru_sqlDB b) (sy_client s)) (sy_world s)) = log api_world @ es \<and>
     sum_list (map acquired es) = sum_list (map released es)"
proof -
  obtain b w1 K s where b: "run_state (startup mem_driver (\<lambda>_. mem_gorm) mem_lib mem_amqp boot_env boot_db) api_world = (Returns b, w1)"
    and K: "K = running_config mem_lib mem_runtime boot_env mem_media mem_amqp mem_driver (\<lambda>_. mem_gorm) aw_client put_aw demo_api (\<lambda>t w. w) b"
    and p: "private_contract K mem_gorm" and s: "reachable K (started K (launched put_aw b w1) (ru_q b)) s" "sy_main s = Finished"
    using boot_runs by blast
  from program_releases_everything [OF b K p s(1)] s(2) b show ?thesis by blast
qed




end
