(* ===== verification/Job_Table.thy ===== *)
theory Job_Table
  imports Worker
begin

text \<open>
  The jobs table as an abstract data type: the operations of the job service are those of the abstract
  table, whatever the outcome of the calls, and one payload adds at most one row.
\<close>

section \<open>The abstract table\<close>

text \<open>What the program decides about a job: its output path, its status, its video and its error. The time
  stamps are the database's.\<close>

definition job_view :: "job_row \<Rightarrow> string \<times> string \<times> string \<times> string" where
  "job_view r = (job_OutputBucketPath r, job_Status r, job_VideoID r, job_Error r)"

definition table_view :: "(string \<Rightarrow> job_row option) \<Rightarrow> string \<Rightarrow> (string \<times> string \<times> string \<times> string) option" where
  "table_view t i = map_option job_view (t i)"

text \<open>The abstract operations: a new pending job, and a change of status.\<close>

definition add_pending :: "string \<Rightarrow> string \<Rightarrow> string \<Rightarrow>
    (string \<Rightarrow> (string \<times> string \<times> string \<times> string) option) \<Rightarrow>
    (string \<Rightarrow> (string \<times> string \<times> string \<times> string) option)" where
  "add_pending i out vid t = t(i \<mapsto> (out, JobStatusPending, vid, ''''))"

definition set_status :: "string \<Rightarrow> string \<Rightarrow> string \<Rightarrow>
    (string \<Rightarrow> (string \<times> string \<times> string \<times> string) option) \<Rightarrow>
    (string \<Rightarrow> (string \<times> string \<times> string \<times> string) option)" where
  "set_status i st msg t = t(i := map_option (\<lambda>(out, _, vid, _). (out, st, vid, msg)) (t i))"

lemma table_view_upd: "table_view (t(i \<mapsto> r)) = (table_view t)(i \<mapsto> job_view r)"
  by (auto simp: table_view_def)

text \<open>A well-formed row: it is stored under its own id, its status is one of the four the program knows, and
  only a failed job has an error.\<close>

definition proper_row :: "string \<Rightarrow> job_row \<Rightarrow> bool" where
  "proper_row i r \<longleftrightarrow> job_ID r = i \<and>
     job_Status r \<in> {JobStatusPending, JobStatusProcessing, JobStatusCompleted, JobStatusFailed} \<and>
     (job_Error r \<noteq> '''' \<longrightarrow> job_Status r = JobStatusFailed)"

definition restatus :: "string \<Rightarrow> string \<Rightarrow> job_row \<Rightarrow> job_row \<Rightarrow> bool" where
  "restatus st msg r r' \<longleftrightarrow> job_ID r' = job_ID r \<and> job_OutputBucketPath r' = job_OutputBucketPath r \<and>
     job_VideoID r' = job_VideoID r \<and> job_Status r' = st \<and> job_Error r' = msg"

lemma restatus_view: "restatus st msg r r' \<Longrightarrow> t i = Some r \<Longrightarrow>
    table_view (t(i \<mapsto> r')) = set_status i st msg (table_view t)"
  by (rule ext) (simp add: table_view_def set_status_def restatus_def job_view_def)


section \<open>One operation of the service\<close>

text \<open>Whatever the outcome, the table is as before or the operation has been done.\<close>

context job_repository_contract
begin

lemma updateStatus_any:
  assumes "svc_jobs S = Some R"
  shows "jobs (ext (post (updateStatus S i st msg) w)) = jobs (ext w) \<or>
    (\<exists>r r'. jobs (ext w) i = Some r \<and> job_ID r = i \<and> restatus st msg r r' \<and>
       jobs (ext (post (updateStatus S i st msg) w)) = (jobs (ext w))(i \<mapsto> r'))"
proof (cases "val (jr_Find R i) w")
  case (Ok j0)
  let ?j = "j0\<lparr>job_Status := st, job_Error := msg\<rparr>"
  let ?w1 = "post (jr_Find R i) w"
  note found = Find_Ok [OF Ok]
  have post: "post (updateStatus S i st msg) w = post (jr_Update R ?j) ?w1"
    using assms Ok by (simp add: updateStatus_def run_attempt split_beta)
  have "jobs (ext (post (jr_Update R ?j) ?w1)) = jobs (ext w) \<or>
      (\<exists>j'. same_job ?j j' \<and> jobs (ext (post (jr_Update R ?j) ?w1)) = (jobs (ext w))(i \<mapsto> row_of j'))"
    using Update_Ok [of ?j ?w1] Update_Err [of ?j ?w1] no_panic(2) [of ?j ?w1] found
    by (cases "val (jr_Update R ?j) ?w1") (auto simp: Find_reads)
  moreover have "restatus st msg (row_of j0) (row_of j')" if "same_job ?j j'" for j'
    using that found by (auto simp: same_job_def restatus_def split: option.splits)
  ultimately show ?thesis using post found by auto
qed (use assms no_panic(1) [of i w] in \<open>simp_all add: updateStatus_def run_attempt split_beta Find_reads\<close>)

end

context job_service_contract
begin

lemma CreatePendingJob_any:
  assumes S: "svc_jobs S = Some R" "svc_videos S = Some V"
  shows "jobs (ext (post (CreatePendingJob L S vid out) w)) = jobs (ext w) \<or>
    (\<exists>r. jobs (ext w) (job_ID r) = None \<and> videos (ext w) vid \<noteq> None \<and>
       job_view r = (out, JobStatusPending, vid, '''') \<and>
       jobs (ext (post (CreatePendingJob L S vid out) w)) = (jobs (ext w))(job_ID r \<mapsto> r))"
proof (cases "val (vr_Find V vid) w")
  case (Ok v)
  let ?w1 = "post (vr_Find V vid) w"
  let ?new = "NewJob L out JobStatusPending (Some v)"
  let ?w2 = "post (silently ?new) ?w1"
  have mid: "jobs (ext ?w2) = jobs (ext w)"
    by (simp add: run_silently NewJob_frame vr.vFind_reads)
  note video = vr.vFind_Ok [OF Ok]
  show ?thesis
  proof (cases "val ?new (ext ?w1)")
    case j: (Ok j)
    note new = NewJob_Ok [OF j]
    have post: "post (CreatePendingJob L S vid out) w = post (jr_Insert R j) ?w2"
      using S Ok j by (simp add: CreatePendingJob_def run_attempt run_silently split_beta)
    have "jobs (ext (post (jr_Insert R j) ?w2)) = jobs (ext w) \<or>
        jobs (ext w) (job_ID j) = None \<and>
        (\<exists>j'. same_job j j' \<and> jobs (ext (post (jr_Insert R j) ?w2)) = (jobs (ext w))(job_ID j \<mapsto> row_of j'))"
      using jr.Insert_Ok [of j ?w2] jr.Insert_Err [of j ?w2] jr.no_panic(3) [of j ?w2] mid
      by (cases "val (jr_Insert R j) ?w2") auto
    moreover have "job_ID (row_of j') = job_ID j" "job_view (row_of j') = (out, JobStatusPending, vid, '''')"
      if "same_job j j'" for j'
      using that new video by (simp_all add: same_job_def job_view_def)
    moreover have "videos (ext w) vid \<noteq> None" using video by simp
    ultimately show ?thesis unfolding post by metis
  qed (use S Ok NewJob_no_panic mid in \<open>simp_all add: CreatePendingJob_def run_attempt run_silently split_beta\<close>)
qed (use S vr.v_no_panic(1) [of vid w] in \<open>simp_all add: CreatePendingJob_def run_attempt split_beta vr.vFind_reads\<close>)

end

section \<open>One payload\<close>

text \<open>What may happen to a row: its id, output path and video stay, and it stays well formed.\<close>

definition row_kept :: "job_row \<Rightarrow> job_row \<Rightarrow> bool" where
  "row_kept r r' \<longleftrightarrow> job_ID r' = job_ID r \<and> job_OutputBucketPath r' = job_OutputBucketPath r \<and>
     job_VideoID r' = job_VideoID r \<and> (proper_row (job_ID r) r \<longrightarrow> proper_row (job_ID r) r')"

lemma row_kept_trans: "row_kept r r' \<Longrightarrow> row_kept r' r'' \<Longrightarrow> row_kept r r''"
  by (simp add: row_kept_def)

lemma row_kept_restatus:
  assumes "restatus st msg r r'"
    "st \<in> {JobStatusPending, JobStatusProcessing, JobStatusCompleted, JobStatusFailed}" "msg \<noteq> '''' \<longrightarrow> st = JobStatusFailed"
  shows "row_kept r r'"
  using assms by (auto simp: restatus_def row_kept_def proper_row_def)

lemma row_unchanged: "t i = Some r \<Longrightarrow> \<exists>r'. t = t(i \<mapsto> r') \<and> row_kept r r'"
  by (intro exI [of _ r]) (auto simp: row_kept_def fun_eq_iff)

text \<open>\<open>touches jobs i m\<close>: of the table, \<open>m\<close> changes the row \<open>i\<close> at most, and keeps it.\<close>

definition touches :: "('w \<Rightarrow> string \<Rightarrow> job_row option) \<Rightarrow> string \<Rightarrow> ('w world \<Rightarrow> 'w world) \<Rightarrow> bool" where
  "touches jobs i f \<longleftrightarrow> (\<forall>w r. jobs (ext w) i = Some r \<longrightarrow>
     (\<exists>r'. jobs (ext (f w)) = (jobs (ext w))(i \<mapsto> r') \<and> row_kept r r'))"

lemma touches_comp:
  fixes jobs :: "'w \<Rightarrow> string \<Rightarrow> job_row option"
  assumes "touches jobs i f" "touches jobs i g"
  shows "touches jobs i (\<lambda>w. g (f w))"
  unfolding touches_def
proof (intro allI impI)
  fix w :: "'w world" and r
  assume "jobs (ext w) i = Some r"
  then obtain r' where r': "jobs (ext (f w)) = (jobs (ext w))(i \<mapsto> r')" "row_kept r r'"
    using assms(1) unfolding touches_def by blast
  moreover from this(1) have "jobs (ext (f w)) i = Some r'" by simp
  then obtain r'' where "jobs (ext (g (f w))) = (jobs (ext (f w)))(i \<mapsto> r'')" "row_kept r' r''"
    using assms(2) unfolding touches_def by blast
  ultimately show "\<exists>r''. jobs (ext (g (f w))) = (jobs (ext w))(i \<mapsto> r'') \<and> row_kept r r''"
    by (intro exI [of _ r'']) (auto intro: row_kept_trans)
qed

lemma touches_keeps: "keeps jobs m \<Longrightarrow> touches jobs i (post m)"
  by (simp add: touches_def keepsD row_unchanged)

lemma touches_if: "(\<And>w. f w = g w \<or> f w = h w) \<Longrightarrow> touches jobs i g \<Longrightarrow> touches jobs i h \<Longrightarrow> touches jobs i f"
  unfolding touches_def by metis

lemma touches_updateStatus:
  fixes jobs :: "'w \<Rightarrow> string \<Rightarrow> job_row option"
  assumes "store_contract G jobs videos L"
    "st \<in> {JobStatusPending, JobStatusProcessing, JobStatusCompleted, JobStatusFailed}" "msg \<noteq> '''' \<longrightarrow> st = JobStatusFailed"
  shows "touches jobs i (post (updateStatus (gorm_service L G) i st msg))"
  unfolding touches_def
proof (intro allI impI)
  fix w :: "'w world" and r
  assume r: "jobs (ext w) i = Some r"
  note any = job_repository_contract.updateStatus_any [OF store_contract.is_job_repository [OF assms(1)], of
      "gorm_service L G" i st msg w]
  show "\<exists>r'. jobs (ext (post (updateStatus (gorm_service L G) i st msg) w)) = (jobs (ext w))(i \<mapsto> r') \<and> row_kept r r'"
    using any r row_kept_restatus [OF _ assms(2,3), of r] row_unchanged [of "jobs (ext w)" i r] by fastforce
qed


lemma touches_mark:
  assumes "store_contract G jobs videos L"
  shows "touches jobs i (post (MarkProcessing (gorm_service L G) i))" "touches jobs i (post (MarkCompleted (gorm_service L G) i))"
    "touches jobs i (post (MarkFailed (gorm_service L G) i e))"
  unfolding mark_defs by (rule touches_updateStatus [OF assms], simp_all)+

lemma touches_process:
  assumes store: "store_contract G jobs videos L" and media: "media_contract T M jobs"
    and S: "pr_JobService p = Some (gorm_service L G)"
  shows "touches jobs (job_ID job) (post (process T E M p job))"
proof (rule touches_if)
  let ?m = "post (MarkProcessing (gorm_service L G) (job_ID job))"
  show "post (process T E M p job) w = post (pipeline T E M p job) (?m w) \<or> post (process T E M p job) w = ?m w" for w
    using process_world(2) [OF S, of T E M job w] by (auto split: res.splits)
  show "touches jobs (job_ID job) (\<lambda>w. post (pipeline T E M p job) (?m w))"
    by (rule touches_comp [OF touches_mark(1) [OF store] touches_keeps [OF keeps_pipeline [OF media]]])
qed (rule touches_mark [OF store])

lemma touches_Run:
  fixes jobs :: "'w \<Rightarrow> string \<Rightarrow> job_row option"
  assumes store: "store_contract G jobs videos L" and media: "media_contract T M jobs"
    and S: "pr_JobService p = Some (gorm_service L G)" and v: "job_Video job \<noteq> None"
  shows "touches jobs (job_ID job) (post (Processor_Run T E M p (Some job)))"
  unfolding touches_def
proof (intro allI impI)
  fix w :: "'w world" and r
  assume r: "jobs (ext w) (job_ID job) = Some r"
  let ?S = "gorm_service L G" and ?i = "job_ID job" and ?P = "post (process T E M p job)"
  note proc = touches_process [OF store media S]
  have "\<exists>f. post (Processor_Run T E M p (Some job)) w = f w \<and> touches jobs ?i f"
    using post_Run [OF S v, of T E M w] proc
      touches_comp [OF proc touches_mark(2) [OF store]] touches_comp [OF proc touches_mark(3) [OF store]]
    by (cases "val (process T E M p job) w") (auto intro: exI [of _ "\<lambda>w. post (MarkFailed ?S ?i e) (?P w)" for e])
  then show "\<exists>r'. jobs (ext (post (Processor_Run T E M p (Some job)) w)) = (jobs (ext w))(?i \<mapsto> r') \<and> row_kept r r'"
    using r unfolding touches_def by metis
qed


text \<open>The row of a message, new in the table.\<close>

definition new_row :: "('w \<Rightarrow> string \<Rightarrow> job_row option) \<Rightarrow> ('w \<Rightarrow> string \<Rightarrow> video option) \<Rightarrow> 'w world \<Rightarrow>
    JobWorkerMessage \<Rightarrow> job_row \<Rightarrow> bool" where
  "new_row jobs videos w m r \<longleftrightarrow> jobs (ext w) (job_ID r) = None \<and> videos (ext w) (jwm_VideoID m) \<noteq> None \<and>
     proper_row (job_ID r) r \<and> job_VideoID r = jwm_VideoID m \<and> job_OutputBucketPath r = jwm_OutputBucketPath m"

lemma pending_proper: "job_view r = (out, JobStatusPending, vid, '''') \<Longrightarrow>
    proper_row (job_ID r) r \<and> job_VideoID r = vid \<and> job_OutputBucketPath r = out"
  by (simp add: job_view_def proper_row_def)

lemma payload_any:
  fixes jobs :: "'w \<Rightarrow> string \<Rightarrow> job_row option" and payload :: string and E :: environ
  assumes store: "store_contract G jobs videos L" and media: "media_contract T M jobs" and conf: "configured L G P"
  defines "work \<equiv> processPayload L T E M payload (Some (gorm_service L G)) P"
  shows "jobs (ext (post work w)) = jobs (ext w) \<or>
    (\<exists>m r. parseJobWorkerMessage payload = Ok m \<and> new_row jobs videos w m r \<and>
       jobs (ext (post work w)) = (jobs (ext w))(job_ID r \<mapsto> r))"
proof (cases "parseJobWorkerMessage payload")
  case (Ok m)
  let ?c = "CreatePendingJob L (gorm_service L G) (jwm_VideoID m) (jwm_OutputBucketPath m)"
  let ?t = "jobs (ext w)" and ?w1 = "post ?c w"
  note service = store_contract.is_service [OF store]
  have new: "jobs (ext ?w1) = ?t \<or> (\<exists>r. new_row jobs videos w m r \<and> jobs (ext ?w1) = ?t(job_ID r \<mapsto> r))"
    using job_service_contract.CreatePendingJob_any [OF service, of "gorm_service L G" "jwm_VideoID m"
        "jwm_OutputBucketPath m" w] pending_proper
    by (auto simp: new_row_def)
  consider (idle) "post work w = ?w1" | (run) j p where "val ?c w = Ok j" "P = Some p"
      "post work w = post (Processor_Run T E M p (Some j)) ?w1"
  proof (cases "val ?c w")
    case j: (Ok j)
    show ?thesis
    proof (cases "Enabled P")
      case True
      then obtain p where "P = Some p" by (cases P) (simp_all add: Enabled_def)
      then show ?thesis
        using run(1) [OF j] Ok j True by (simp add: work_def processPayload_def Let_def split_beta split: res.splits)
    qed (use idle Ok j in \<open>simp add: work_def processPayload_def Let_def split_beta\<close>)
  qed (use idle Ok in \<open>simp_all add: work_def processPayload_def Let_def split_beta\<close>)
  then show ?thesis
  proof cases
    case idle
    then show ?thesis using new Ok by auto
  next
    case (run j p)
    note made = job_service_contract.CreatePendingJob_Ok [OF service gorm_service_sel(1) gorm_service_sel(2) run(1)]
    have "touches jobs (job_ID j) (post (Processor_Run T E M p (Some j)))"
      using touches_Run [OF store media, where p = p and job = j and E = E] conf run(2) made(7) by (auto simp: configured_def)
    then obtain r' where r': "jobs (ext (post work w)) = (jobs (ext ?w1))(job_ID j \<mapsto> r')" "row_kept (row_of j) r'"
      using made(2) unfolding run(3) touches_def by (metis fun_upd_same)
    have "proper_row (job_ID j) (row_of j)"
      using made(3-6) by (simp add: proper_row_def)
    then have "new_row jobs videos w m r'"
      using r'(2) made(1,5,6,7) by (auto simp: new_row_def row_kept_def)
    moreover have "jobs (ext (post work w)) = ?t(job_ID r' \<mapsto> r')"
      using r' made(2) by (simp add: row_kept_def)
    ultimately show ?thesis using Ok by blast
  qed
qed (simp_all add: work_def processPayload_def Let_def parse_not_panic)


section \<open>Properties\<close>

text \<open>
  C27: A new job, as an operation of the abstract table. \<^verbatim>\<open>CreatePendingJob\<close> succeeds only for a video that
  exists, and then it has added one pending row under an id that was free, with the video and the
  output path it was given, and changed nothing else. When it fails the table is as before, or the
  row has been added and the database's answer was lost. For an unknown video it fails and
  changes nothing.
\<close>

theorem create_pending_job:
  assumes store: "store_contract G jobs videos L"
  shows "(case val (CreatePendingJob L (gorm_service L G) vid out) w of
      Ok j \<Rightarrow> jobs (ext w) (job_ID j) = None \<and> videos (ext w) vid \<noteq> None \<and>
        table_view (jobs (ext (post (CreatePendingJob L (gorm_service L G) vid out) w))) =
          add_pending (job_ID j) out vid (table_view (jobs (ext w)))
    | Err e \<Rightarrow> jobs (ext (post (CreatePendingJob L (gorm_service L G) vid out) w)) = jobs (ext w) \<or>
        (\<exists>i. jobs (ext w) i = None \<and> table_view (jobs (ext (post (CreatePendingJob L (gorm_service L G) vid out) w))) =
          add_pending i out vid (table_view (jobs (ext w))))
    | Panic \<Rightarrow> False) \<and>
    (videos (ext w) vid = None \<longrightarrow> (\<exists>e. val (CreatePendingJob L (gorm_service L G) vid out) w = Err e) \<and>
      jobs (ext (post (CreatePendingJob L (gorm_service L G) vid out) w)) = jobs (ext w))"
proof -
  let ?S = "gorm_service L G"
  note service = store_contract.is_service [OF store]
  note unknown = job_service_contract.CreatePendingJob_unknown_video [OF service gorm_service_sel(1) gorm_service_sel(2)]
  show ?thesis
  proof (cases "val (CreatePendingJob L ?S vid out) w")
    case (Ok j)
    note made = job_service_contract.CreatePendingJob_Ok [OF service gorm_service_sel(1) gorm_service_sel(2) Ok]
    have "job_view (row_of j) = (out, JobStatusPending, vid, '''')" using made(3-6) by (simp add: job_view_def)
    then show ?thesis using Ok made(1,2,7) by (auto simp: table_view_upd add_pending_def)
  next
    case (Err e)
    then show ?thesis
      using job_service_contract.CreatePendingJob_any [OF service gorm_service_sel(1) gorm_service_sel(2), of vid out w]
        unknown [of w vid out] by (auto simp: table_view_upd add_pending_def)
  qed (use CreatePendingJob_panic_free [of L G vid out w] in simp)
qed

theorem create_pending_job_witness:
  "table_view (mem_job (ext (post (CreatePendingJob mem_lib (gorm_service mem_lib mem_gorm) demo_id ''out'') demo_world))) =
     add_pending demo_job_id ''out'' demo_id (table_view (mem_job (ext demo_world)))"
  using create_pending_job [OF mem.store_contract_axioms, where vid = demo_id and out = "''out''" and w = demo_world] demo_create by simp

text \<open>
  C28: A change of status, as an operation of the abstract table. When \<^verbatim>\<open>updateStatus\<close> succeeds the table has
  the new status and error in the row of the job, which was there, and nothing else has changed;
  when it fails the table is as before, or the change has been made and the answer was lost. For
  an unknown job it fails and changes nothing.
\<close>

theorem status_update_refines:
  assumes store: "store_contract G jobs videos L"
  shows "(case val (updateStatus (gorm_service L G) i st msg) w of
      Ok j \<Rightarrow> jobs (ext w) i \<noteq> None \<and> table_view (jobs (ext (post (updateStatus (gorm_service L G) i st msg) w))) =
        set_status i st msg (table_view (jobs (ext w)))
    | Err e \<Rightarrow> table_view (jobs (ext (post (updateStatus (gorm_service L G) i st msg) w))) \<in>
        {table_view (jobs (ext w)), set_status i st msg (table_view (jobs (ext w)))}
    | Panic \<Rightarrow> False) \<and>
    (jobs (ext w) i = None \<longrightarrow> (\<exists>e. val (updateStatus (gorm_service L G) i st msg) w = Err e) \<and>
      jobs (ext (post (updateStatus (gorm_service L G) i st msg) w)) = jobs (ext w))"
proof -
  let ?S = "gorm_service L G"
  note R = store_contract.is_job_repository [OF store]
  note missing = job_repository_contract.updateStatus_missing [OF R gorm_service_sel(1), of w i L st msg]
    and any = job_repository_contract.updateStatus_any [OF R gorm_service_sel(1), of L i st msg w]
  show ?thesis
  proof (cases "val (updateStatus ?S i st msg) w")
    case (Ok j)
    note upd = job_repository_contract.updateStatus_Ok [OF R gorm_service_sel(1) Ok]
    obtain r where r: "jobs (ext w) i = Some r" "job_OutputBucketPath j = job_OutputBucketPath r" "job_VideoID j = job_VideoID r"
      using upd(5) by blast
    then have "job_view (row_of j) = (job_OutputBucketPath r, st, job_VideoID r, msg)"
      using upd(3,4) by (simp add: job_view_def)
    then show ?thesis using Ok upd(1) r missing by (auto simp: table_view_def set_status_def job_view_def fun_eq_iff)
  next
    case (Err e)
    then show ?thesis using any missing by (auto dest: restatus_view)
  qed (use updateStatus_gorm(3) [of L G i st msg w] in simp)
qed

theorem status_update_refines_witness:
  "\<exists>e. val (MarkCompleted (gorm_service mem_lib mem_gorm) ''none'') demo_world = Err e"
  using status_update_refines [OF mem.store_contract_axioms, where i = "''none''" and st = JobStatusCompleted and msg = "''''" and w = demo_world]
  by (simp add: MarkCompleted_def mem_job_def demo_defs)


text \<open>
  C24: One payload, as an operation of the table. Processing a payload, with or without the media pipeline,
  whatever fails on the way, leaves the table as it was or has added exactly one row, under an id
  that was free: a well-formed row with the video and the output path of the message, for a video
  that exists. A payload that cannot be parsed leaves the table as it was.
\<close>

theorem payload_adds_one_row:
  assumes store: "store_contract G jobs videos L" and media: "media_contract T M jobs" and conf: "configured L G P"
  shows "jobs (ext (post (processPayload L T E M payload (Some (gorm_service L G)) P) w)) = jobs (ext w) \<or>
    (\<exists>m r. parseJobWorkerMessage payload = Ok m \<and> jobs (ext w) (job_ID r) = None \<and>
       videos (ext w) (jwm_VideoID m) \<noteq> None \<and> proper_row (job_ID r) r \<and>
       job_VideoID r = jwm_VideoID m \<and> job_OutputBucketPath r = jwm_OutputBucketPath m \<and>
       jobs (ext (post (processPayload L T E M payload (Some (gorm_service L G)) P) w)) = (jobs (ext w))(job_ID r \<mapsto> r))"
  using payload_any [OF assms, of E payload w] by (auto simp: new_row_def)

theorem payload_adds_one_row_witness:
  "\<exists>r. mem_job (ext (post (processPayload mem_lib mem_runtime demo_env mem_media demo_payload
       (Some (gorm_service mem_lib mem_gorm)) None) demo_world)) = (mem_job (ext demo_world))(job_ID r \<mapsto> r) \<and>
     job_VideoID r = demo_id \<and> job_OutputBucketPath r = ''out''"
proof -
  let ?w = "post (processPayload mem_lib mem_runtime demo_env mem_media demo_payload
       (Some (gorm_service mem_lib mem_gorm)) None) demo_world"
  have "?w = post (CreatePendingJob mem_lib (gorm_service mem_lib mem_gorm) demo_id ''out'') demo_world"
    by (simp add: processPayload_def Let_def demo_payload_parse split_beta Enabled_def demo_create)
  then have "mem_job (ext ?w) demo_job_id \<noteq> None" "mem_job (ext demo_world) demo_job_id = None"
    using demo_created(4) by (auto simp: mem_job_def demo_defs)
  then have "mem_job (ext ?w) \<noteq> mem_job (ext demo_world)" by auto
  then show ?thesis
    using payload_adds_one_row [OF mem.store_contract_axioms mm.media_contract_axioms, of None demo_env
        demo_payload demo_world] demo_payload_parse
    by (auto simp: configured_def)
qed

end
