(* ===== verification/Job_Life.thy ===== *)
theory Job_Life
  imports Job_Table Outside Lifecycle
begin

text \<open>
  The jobs table over the whole life of the program, with the stages of the workers interleaved in any
  way: a job is in the hands of one worker at a time, its status follows the state machine of the
  program, and what a worker has reported stays true.
\<close>

section \<open>What a stage does to the table\<close>

type_synonym job_table = "string \<Rightarrow> job_row option"

text \<open>A change of the status and the error of a row that is there.\<close>

definition rewrites_row :: "string \<Rightarrow> string \<Rightarrow> job_table \<Rightarrow> job_table \<Rightarrow> bool" where
  "rewrites_row i st t t' \<longleftrightarrow> (\<exists>msg r r'. t i = Some r \<and> job_ID r = i \<and> (msg \<noteq> '''' \<longrightarrow> st = JobStatusFailed) \<and>
     restatus st msg r r' \<and> t' = t(i \<mapsto> r'))"

text \<open>The row of a new job for a message.\<close>

definition pending_row :: "JobWorkerMessage \<Rightarrow> job_row \<Rightarrow> bool" where
  "pending_row m r \<longleftrightarrow> job_view r = (jwm_OutputBucketPath m, JobStatusPending, jwm_VideoID m, '''')"

text \<open>A result that reports its job as completed.\<close>

definition completed :: "job_worker_result \<Rightarrow> bool" where
  "completed r \<longleftrightarrow> (\<exists>j. res_Job r = Some j \<and> job_Status j = JobStatusCompleted)"

text \<open>The stages as steps on the table.\<close>

inductive stage_moves :: "string \<Rightarrow> job_table \<Rightarrow> stage \<Rightarrow> stage + job_worker_result \<Rightarrow> job_table \<Rightarrow> bool" for b t where
  refused: "\<not> completed r \<Longrightarrow> stage_moves b t Begin (Inr r) t"
| queued: "parseJobWorkerMessage b = Ok m \<Longrightarrow> pending_row m row \<Longrightarrow> t (job_ID row) = None \<Longrightarrow> \<not> completed r \<Longrightarrow>
    stage_moves b t Begin (Inr r) (t(job_ID row \<mapsto> row))"
| begun: "parseJobWorkerMessage b = Ok m \<Longrightarrow> pending_row m (row_of j) \<Longrightarrow> t (job_ID j) = None \<Longrightarrow>
    stage_moves b t Begin (Inl (Marking j)) (t(job_ID j \<mapsto> row_of j))"
| marked: "rewrites_row (job_ID j) JobStatusProcessing t t' \<Longrightarrow> stage_moves b t (Marking j) (Inl (Rendering j)) t'"
| unmarked: "t' = t \<or> rewrites_row (job_ID j) JobStatusProcessing t t' \<Longrightarrow> stage_moves b t (Marking j) (Inl (Failing j e)) t'"
| rendered: "stage_moves b t (Rendering j) (Inl (Completing j)) t"
| unrendered: "stage_moves b t (Rendering j) (Inl (Failing j e)) t"
| complete: "rewrites_row (job_ID j) JobStatusCompleted t t' \<Longrightarrow> res_Job r = Some (j\<lparr>job_Status := JobStatusCompleted\<rparr>) \<Longrightarrow>
    stage_moves b t (Completing j) (Inr r) t'"
| incomplete: "t' = t \<or> rewrites_row (job_ID j) JobStatusCompleted t t' \<Longrightarrow> res_Job r = Some j \<Longrightarrow>
    stage_moves b t (Completing j) (Inr r) t'"
| fail: "t' = t \<or> rewrites_row (job_ID j) JobStatusFailed t t' \<Longrightarrow> res_Job r = Some j \<Longrightarrow>
    stage_moves b t (Failing j e) (Inr r) t'"

lemma update_moves:
  assumes store: "store_contract G jobs videos L" and msg: "msg \<noteq> '''' \<longrightarrow> st = JobStatusFailed"
    and run: "run_state (updateStatus (gorm_service L G) i st msg) w = (x, w')"
  shows "jobs (ext w') = jobs (ext w) \<or> rewrites_row i st (jobs (ext w)) (jobs (ext w'))"
    "x = Ok j \<Longrightarrow> rewrites_row i st (jobs (ext w)) (jobs (ext w'))"
proof -
  note R = store_contract.is_job_repository [OF store]
  show "jobs (ext w') = jobs (ext w) \<or> rewrites_row i st (jobs (ext w)) (jobs (ext w'))"
    using job_repository_contract.updateStatus_any [OF R gorm_service_sel(1), of L i st msg w] run msg
    unfolding rewrites_row_def by (metis snd_conv)
  assume "x = Ok j"
  then have "val (updateStatus (gorm_service L G) i st msg) w = Ok j" "w' = post (updateStatus (gorm_service L G) i st msg) w"
    using run by simp_all
  note upd = job_repository_contract.updateStatus_Ok [OF R gorm_service_sel(1) this(1)]
  have "rewrites_row i st (jobs (ext w)) (jobs (ext w'))" if "jobs (ext w') = jobs (ext w)"
  proof -
    have "jobs (ext w) i = Some (row_of j)" using that upd(1) \<open>w' = _\<close> by (metis fun_upd_same)
    then show ?thesis
      using that upd(2-4) msg unfolding rewrites_row_def restatus_def
      by (intro exI [of _ msg] exI [of _ "row_of j"]) auto
  qed
  with \<open>jobs (ext w') = _ \<or> _\<close> show "rewrites_row i st (jobs (ext w)) (jobs (ext w'))" by blast
qed

text \<open>The locale of a built program whose other parts lie beside the jobs table.\<close>

locale separate_program = built_program G K + store_contract G jobs videos "cf_lib K" + beside_contract K jobs
  for G :: "'w gorm" and jobs :: "'w \<Rightarrow> string \<Rightarrow> job_row option"
    and videos :: "'w \<Rightarrow> string \<Rightarrow> video option" and K :: "'w config"
begin

lemma created_moves:
  assumes "run_state (CreatePendingJob (cf_lib K) (gorm_service (cf_lib K) G) (jwm_VideoID m) (jwm_OutputBucketPath m)) w = (x, w')"
  shows "x = Ok j \<Longrightarrow> pending_row m (row_of j) \<and> jobs (ext w) (job_ID j) = None \<and> jobs (ext w') = (jobs (ext w))(job_ID j \<mapsto> row_of j) \<and>
      job_Status j = JobStatusPending \<and> job_Video j \<noteq> None"
    "jobs (ext w') = jobs (ext w) \<or>
      (\<exists>row. pending_row m row \<and> jobs (ext w) (job_ID row) = None \<and> jobs (ext w') = (jobs (ext w))(job_ID row \<mapsto> row))"
proof -
  note service = store_contract.is_service [OF store_contract_axioms]
  let ?c = "CreatePendingJob (cf_lib K) (gorm_service (cf_lib K) G) (jwm_VideoID m) (jwm_OutputBucketPath m)"
  have c: "val ?c w = x" "post ?c w = w'" using assms by simp_all
  show "x = Ok j \<Longrightarrow> pending_row m (row_of j) \<and> jobs (ext w) (job_ID j) = None \<and> jobs (ext w') = (jobs (ext w))(job_ID j \<mapsto> row_of j) \<and>
      job_Status j = JobStatusPending \<and> job_Video j \<noteq> None"
    using job_service_contract.CreatePendingJob_Ok [OF service gorm_service_sel(1) gorm_service_sel(2), of "jwm_VideoID m" "jwm_OutputBucketPath m" w j]
    unfolding c by (auto simp: pending_row_def job_view_def)
  show "jobs (ext w') = jobs (ext w) \<or>
      (\<exists>row. pending_row m row \<and> jobs (ext w) (job_ID row) = None \<and> jobs (ext w') = (jobs (ext w))(job_ID row \<mapsto> row))"
    using job_service_contract.CreatePendingJob_any [OF service gorm_service_sel(1) gorm_service_sel(2), of "jwm_VideoID m" "jwm_OutputBucketPath m" w]
    unfolding c by (auto simp: pending_row_def)
qed

lemma begin_moves:
  assumes "run_state (work_of K b Begin) w = (Ok x, w')"
  shows "stage_moves b (jobs (ext w)) Begin x (jobs (ext w'))"
proof (cases "parseJobWorkerMessage b")
  case (Ok m)
  let ?c = "CreatePendingJob (cf_lib K) (gorm_service (cf_lib K) G) (jwm_VideoID m) (jwm_OutputBucketPath m)"
  obtain c w1 where c: "run_state ?c w = (c, w1)" by fastforce
  note moves = created_moves [OF c]
  have pending: "JobStatusPending \<noteq> JobStatusCompleted" by (simp add: JobStatusPending_def JobStatusCompleted_def)
  show ?thesis
  proof (cases c)
    case j: (Ok j)
    then show ?thesis
      using assms Ok c moves(1) [OF j] pending
      by (auto simp: work_of_def stage_step_def pool_sel Let_def completed_def split: if_splits
          intro: stage_moves.begun stage_moves.queued [where row = "row_of j", simplified])
  next
    case (Err e)
    then obtain r where r: "x = Inr r" "\<not> completed r" "w' = w1"
      using assms Ok c by (auto simp: work_of_def stage_step_def pool_sel Let_def completed_def)
    then show ?thesis
      using moves(2) stage_moves.refused [of r] stage_moves.queued [OF Ok] by auto
  next
    case Panic
    then show ?thesis using assms Ok c by (simp add: work_of_def stage_step_def pool_sel Let_def)
  qed
qed (use assms in \<open>auto simp: work_of_def stage_step_def Let_def completed_def intro: stage_moves.refused\<close>)

lemma work_moves:
  assumes "run_state (work_of K b st) w = (Ok x, w')"
  shows "stage_moves b (jobs (ext w)) st x (jobs (ext w'))"
proof (cases st)
  case Begin
  then show ?thesis using begin_moves assms by blast
next
  case (Marking j)
  note update = update_moves [OF store_contract_axioms, of "''''" JobStatusProcessing "job_ID j" w]
  show ?thesis
    using assms Marking update
    by (auto simp: work_of_def pool_sel run_Marking processor_sel Let_def run_wrap MarkProcessing_def split_beta prod_eq_iff
        split: res.splits intro: stage_moves.intros)
next
  case (Rendering j)
  let ?p = "NewProcessorFromEnv (cf_environ K) (Some (gorm_service (cf_lib K) G))"
  have "jobs (ext (post (pipeline (cf_runtime K) (cf_environ K) (cf_media K) ?p j) w)) = jobs (ext w)"
    by (rule keepsD [OF keeps_pipeline [OF media.media_contract_axioms]])
  then show ?thesis
    using assms Rendering
    by (auto simp: work_of_def pool_sel run_Rendering split: res.splits intro: stage_moves.intros)
next
  case (Completing j)
  note update = update_moves [OF store_contract_axioms, of "''''" JobStatusCompleted "job_ID j" w]
  show ?thesis
    using assms Completing update
    by (auto simp: work_of_def pool_sel stage_step_def processor_sel Let_def run_wrap MarkCompleted_def split_beta prod_eq_iff
        split: res.splits intro: stage_moves.intros)
next
  case (Failing j e)
  note update = update_moves [OF store_contract_axioms, of "err_text e" JobStatusFailed "job_ID j" w]
  show ?thesis
    using assms Failing update
    by (auto simp: work_of_def pool_sel stage_step_def processor_sel Let_def MarkFailed_def split_beta prod_eq_iff
        split: res.splits intro: stage_moves.intros)
qed

end


section \<open>The jobs in the hands of the workers\<close>

text \<open>Which job a worker has in hand, which status its row may then have, and what the row says of the
  message.\<close>

fun job_of :: "stage \<Rightarrow> job option" where
  "job_of Begin = None"
| "job_of (Marking j) = Some j"
| "job_of (Rendering j) = Some j"
| "job_of (Completing j) = Some j"
| "job_of (Failing j e) = Some j"

fun statuses :: "stage \<Rightarrow> string set" where
  "statuses Begin = {}"
| "statuses (Marking j) = {JobStatusPending}"
| "statuses (Rendering j) = {JobStatusProcessing}"
| "statuses (Completing j) = {JobStatusProcessing}"
| "statuses (Failing j e) = {JobStatusPending, JobStatusProcessing}"

fun hand :: "wstate \<Rightarrow> string option" where
  "hand (WWork q st) = map_option job_ID (job_of st)"
| "hand _ = None"

definition for_message :: "string \<Rightarrow> job_row \<Rightarrow> bool" where
  "for_message b row \<longleftrightarrow> (\<exists>m. parseJobWorkerMessage b = Ok m \<and> job_VideoID row = jwm_VideoID m \<and>
     job_OutputBucketPath row = jwm_OutputBucketPath m)"

definition row_with :: "job_table \<Rightarrow> string \<Rightarrow> string set \<Rightarrow> string \<Rightarrow> bool" where
  "row_with t i S b \<longleftrightarrow> (\<exists>row. t i = Some row \<and> job_Status row \<in> S \<and> for_message b row \<and>
     (job_Error row \<noteq> '''' \<longrightarrow> job_Status row = JobStatusFailed))"

definition truthful :: "job_table \<Rightarrow> string \<Rightarrow> job_worker_result \<Rightarrow> bool" where
  "truthful t b r \<longleftrightarrow> (\<forall>j. res_Job r = Some j \<longrightarrow> job_Status j = JobStatusCompleted \<longrightarrow>
     row_with t (job_ID j) {JobStatusCompleted} b)"

fun holds :: "job_table \<Rightarrow> wstate \<Rightarrow> bool" where
  "holds t (WWork q st) \<longleftrightarrow> (\<forall>j. job_of st = Some j \<longrightarrow> job_Status j = JobStatusPending \<and>
     row_with t (job_ID j) (statuses st) (payload_of q))"
| "holds t (WAck q r) \<longleftrightarrow> truthful t (payload_of q) r"
| "holds t (WReturn q r) \<longleftrightarrow> truthful t (payload_of q) r"
| "holds t _ \<longleftrightarrow> True"

text \<open>Every worker and every logged result agrees with the table, and no two workers have the same job.\<close>

definition agreed :: "job_table \<Rightarrow> wstate list \<Rightarrow> (queued \<times> job_worker_result) list \<Rightarrow> bool" where
  "agreed t vs lg \<longleftrightarrow> (\<forall>v \<in> set vs. holds t v) \<and> (\<forall>(q, r) \<in> set lg. truthful t (payload_of q) r) \<and>
     (\<forall>i < length vs. \<forall>k < length vs. i \<noteq> k \<longrightarrow> hand (vs ! i) = None \<or> hand (vs ! i) \<noteq> hand (vs ! k))"

text \<open>A stage leaves alone every row but that of its own job.\<close>

definition same_rows :: "job_table \<Rightarrow> job_table \<Rightarrow> (string \<Rightarrow> bool) \<Rightarrow> bool" where
  "same_rows t t' P \<longleftrightarrow> (\<forall>i row. t i = Some row \<longrightarrow> P i \<longrightarrow> t' i = Some row)"

lemma stage_moves_frame: "stage_moves b t st x t' \<Longrightarrow> same_rows t t' (\<lambda>i. map_option job_ID (job_of st) \<noteq> Some i)"
  by (erule stage_moves.cases) (auto simp: same_rows_def rewrites_row_def)

lemma same_rows_with: "same_rows t t' P \<Longrightarrow> row_with t i S b \<Longrightarrow> P i \<Longrightarrow> row_with t' i S b"
  unfolding same_rows_def row_with_def by blast

lemmas status_defs = JobStatusPending_def JobStatusProcessing_def JobStatusCompleted_def JobStatusFailed_def

lemma statuses_open [simp]: "JobStatusCompleted \<notin> statuses s" "JobStatusFailed \<notin> statuses s"
  by (cases s; auto simp: status_defs)+

text \<open>So a completed row is safe from it, and so is the job of another worker.\<close>

lemma truthful_kept:
  assumes "same_rows t t' (\<lambda>i. h \<noteq> Some i)" "\<And>i. h = Some i \<Longrightarrow> row_with t i (statuses st) b'" "truthful t b r"
  shows "truthful t' b r"
  unfolding truthful_def
proof (intro allI impI)
  fix j
  assume "res_Job r = Some j" "job_Status j = JobStatusCompleted"
  then have fin: "row_with t (job_ID j) {JobStatusCompleted} b" using assms(3) by (simp add: truthful_def)
  have "h \<noteq> Some (job_ID j)"
    using assms(2) [of "job_ID j"] fin by (auto simp: row_with_def)
  then show "row_with t' (job_ID j) {JobStatusCompleted} b" using same_rows_with [OF assms(1) fin] by simp
qed

lemma holds_kept:
  assumes "same_rows t t' (\<lambda>i. h \<noteq> Some i)" "\<And>i. h = Some i \<Longrightarrow> row_with t i (statuses st) b'" "hand v = None \<or> hand v \<noteq> h" "holds t v"
  shows "holds t' v"
proof (cases v)
  case (WWork q s)
  then show ?thesis using assms(3,4) same_rows_with [OF assms(1)] by auto
qed (use assms(4) truthful_kept [OF assms(1,2)] in auto)

text \<open>The worker after the stage.\<close>

fun after :: "queued \<Rightarrow> stage + job_worker_result \<Rightarrow> wstate" where
  "after q (Inl st) = WWork q st"
| "after q (Inr r) = WAck q r"

lemma rewritten_with:
  "rewrites_row i st t t' \<Longrightarrow> row_with t i S b \<Longrightarrow> row_with t' i {st} b"
  by (auto simp: rewrites_row_def row_with_def restatus_def for_message_def)

lemma pending_for_message: "parseJobWorkerMessage b = Ok m \<Longrightarrow> pending_row m r \<Longrightarrow>
    job_Status r = JobStatusPending \<and> job_Error r = '''' \<and> for_message b r"
  by (simp add: pending_row_def job_view_def for_message_def)

lemma stage_moves_holds:
  assumes "stage_moves (payload_of q) t st x t'" "holds t (WWork q st)"
  shows "holds t' (after q x)"
  using assms(1)
proof cases
  case (begun m j)
  then show ?thesis
    using pending_for_message [OF begun(4,5)] by (auto simp: row_with_def pending_row_def job_view_def)
next
  case (marked j)
  then show ?thesis using assms(2) by (auto dest: rewritten_with [OF marked(3)])
next
  case (unmarked j e)
  have "row_with t (job_ID j) {JobStatusPending} (payload_of q)" using assms(2) unmarked(1) by simp
  then show ?thesis
    using assms(2) unmarked rewritten_with [of "job_ID j" JobStatusProcessing t t'] by (auto simp: row_with_def)
next
  case (complete j r)
  then show ?thesis using assms(2) by (auto simp: truthful_def dest: rewritten_with [OF complete(3)])
next
  case (rendered j)
  then show ?thesis using assms(2) by simp
next
  case (unrendered j e)
  then show ?thesis using assms(2) by (auto simp: row_with_def)
qed (use assms(2) in \<open>auto simp: truthful_def completed_def status_defs\<close>)

lemma stage_moves_hand:
  assumes "stage_moves (payload_of q) t st x t'"
  obtains "hand (after q x) = None" | "hand (after q x) = map_option job_ID (job_of st)" "hand (after q x) \<noteq> None"
  | i where "hand (after q x) = Some i" "t i = None"
  using assms by (cases; auto)

lemma holds_hand: "holds t v \<Longrightarrow> hand v = Some i \<Longrightarrow> t i \<noteq> None"
  by (cases v) (auto simp: row_with_def)

text \<open>One stage of one worker keeps the agreement of all.\<close>

lemma agreed_stage:
  assumes agreed: "agreed t vs lg" and i: "i < length vs" "vs ! i = WWork q st" and moves: "stage_moves (payload_of q) t st x t'"
  shows "agreed t' (vs[i := after q x]) lg"
proof -
  let ?h = "map_option job_ID (job_of st)"
  have own: "holds t (WWork q st)" using agreed i by (metis agreed_def nth_mem)
  then have row: "row_with t k (statuses st) (payload_of q)" if "?h = Some k" for k using that by auto
  note frame = stage_moves_frame [OF moves]
  have apart: "hand (vs ! k) = None \<or> hand (vs ! k) \<noteq> ?h" if "k < length vs" "k \<noteq> i" for k
    using agreed i that unfolding agreed_def by (metis hand.simps(1))
  have held: "holds t (vs ! k)" if "k < length vs" for k using agreed that by (simp add: agreed_def)
  have "holds t' (vs[i := after q x] ! k)" if "k < length vs" for k
    using that i stage_moves_holds [OF moves own] holds_kept [OF frame row apart held] by (cases "k = i") auto
  then have all: "\<forall>v \<in> set (vs[i := after q x]). holds t' v" by (auto simp: in_set_conv_nth)
  have fresh: "hand (vs ! k) \<noteq> Some j" if "k < length vs" "t j = None" for k j
    using holds_hand [OF held [OF that(1)]] that(2) by blast
  have new: "hand (after q x) = None \<or> hand (after q x) \<noteq> hand (vs ! k)" if "k < length vs" "k \<noteq> i" for k
    using moves by (rule stage_moves_hand) (use apart [OF that] fresh [OF that(1)] in metis)+
  have "hand (vs[i := after q x] ! j) = None \<or> hand (vs[i := after q x] ! j) \<noteq> hand (vs[i := after q x] ! k)"
    if "j < length vs" "k < length vs" "j \<noteq> k" for j k
    using that i new [of k] new [of j] agreed unfolding agreed_def by (cases "j = i"; cases "k = i") auto
  moreover have "\<forall>(q, r) \<in> set lg. truthful t' (payload_of q) r"
    using agreed truthful_kept [OF frame row] by (auto simp: agreed_def)
  ultimately show ?thesis using all by (simp add: agreed_def)
qed

text \<open>So does a worker that takes a message, leaves, or passes its result on.\<close>

lemma agreed_update:
  assumes "agreed t vs lg" "holds t v" "hand v = None" "i < length vs"
  shows "agreed t (vs[i := v]) lg"
  using assms unfolding agreed_def
  by (auto simp: nth_list_update dest!: set_update_subset_insert [THEN subsetD])

section \<open>The life of the program\<close>

text \<open>How the status of a job may change.\<close>

definition status_edges :: "(string \<times> string) set" where
  "status_edges = {(JobStatusPending, JobStatusProcessing), (JobStatusPending, JobStatusFailed),
     (JobStatusProcessing, JobStatusCompleted), (JobStatusProcessing, JobStatusFailed)}"

definition row_moves :: "job_row \<Rightarrow> job_row \<Rightarrow> bool" where
  "row_moves r r' \<longleftrightarrow> job_ID r' = job_ID r \<and> job_VideoID r' = job_VideoID r \<and>
     job_OutputBucketPath r' = job_OutputBucketPath r \<and> (job_Status r, job_Status r') \<in> status_edges \<and>
     (job_Error r' \<noteq> '''' \<longrightarrow> job_Status r' = JobStatusFailed)"

text \<open>One step: rows only appear, pending and under their own id, and only those in hand move.\<close>

definition table_step :: "(string \<Rightarrow> bool) \<Rightarrow> job_table \<Rightarrow> job_table \<Rightarrow> bool" where
  "table_step mine t t' \<longleftrightarrow>
     (\<forall>i r. t i = Some r \<longrightarrow> t' i = Some r \<or> mine i \<and> (\<exists>r'. t' i = Some r' \<and> row_moves r r')) \<and>
     (\<forall>i r. t i = None \<longrightarrow> t' i = Some r \<longrightarrow> job_ID r = i \<and> job_Status r = JobStatusPending \<and> job_Error r = '''')"

lemma table_step_refl: "table_step mine t t"
  by (simp add: table_step_def)

lemma rewrites_table_step:
  assumes "rewrites_row i st t t'" "row_with t i S b" "S \<times> {st} \<subseteq> status_edges" "mine i"
  shows "table_step mine t t'"
proof -
  obtain msg r r' where r: "t i = Some r" "msg \<noteq> '''' \<longrightarrow> st = JobStatusFailed" "restatus st msg r r'" "t' = t(i \<mapsto> r')"
    using assms(1) by (auto simp: rewrites_row_def)
  have "(job_Status r, st) \<in> status_edges" using assms(2,3) r(1) by (auto simp: row_with_def)
  then have "row_moves r r'" using r(2,3) by (simp add: row_moves_def restatus_def)
  then show ?thesis using r(1,4) assms(4) by (simp add: table_step_def)
qed

lemma proper_moves: "row_moves r r' \<Longrightarrow> proper_row i r \<Longrightarrow> proper_row i r'"
  by (auto simp: row_moves_def proper_row_def status_edges_def)

lemma new_table_step: "pending_row m r \<Longrightarrow> t (job_ID r) = None \<Longrightarrow> table_step mine t (t(job_ID r \<mapsto> r))"
  by (auto simp: table_step_def pending_row_def job_view_def)

lemma stage_table_step:
  assumes "stage_moves (payload_of q) t st x t'" "holds t (WWork q st)" "\<And>i. hand (WWork q st) = Some i \<Longrightarrow> mine i"
  shows "table_step mine t t'"
  using assms(1)
proof cases
  case (queued m row r)
  then show ?thesis by (simp add: new_table_step)
next
  case (begun m j)
  then show ?thesis using new_table_step [of m "row_of j" t mine] by simp
qed (use assms(2,3) in \<open>auto simp: table_step_refl status_edges_def intro: rewrites_table_step\<close>)

text \<open>The hands of all workers.\<close>

definition in_hand :: "'w system \<Rightarrow> string \<Rightarrow> bool" where
  "in_hand s i \<longleftrightarrow> (\<exists>v \<in> set (sy_workers s). hand v = Some i)"

sublocale separate_program \<subseteq>
  beside: server_beside "cf_amqp K" jobs "cf_lib K" G "cf_driver K" "cf_sqlDB K" "cf_put K"
  by unfold_locales
     (simp_all add: first_video_reads first_job_reads create_video_jobs uuid_frame ping_outside cell_outside)

context separate_program
begin

lemma keeps_handle: "keeps jobs (handle_of K r)"
  using is_built beside.keeps_Handler by (simp add: built_def handle_of_def)

lemma kept: "keeps jobs m \<Longrightarrow> run_state m w = (r, w') \<Longrightarrow> jobs (ext w') = jobs (ext w)"
  by (metis keepsD snd_conv)

text \<open>Only the stages of the workers reach the table.\<close>

lemma outside_worker:
  assumes "system_step K s s'" "\<And>i. i < length (sy_workers s) \<Longrightarrow> \<not> worker_step K i s s'"
  shows "jobs (ext (sy_world s')) = jobs (ext (sy_world s)) \<and> sy_workers s' = sy_workers s \<and> sy_logged s' = sy_logged s"
  using assms(1)
proof cases
  case by_consumer
  from by_consumer(2) show ?thesis
    by cases (auto dest!: kept [OF keeps_Consume] kept [OF keeps_Nack] kept [OF keeps_reconnect])
next
  case (by_worker i)
  then show ?thesis using assms(2) by blast
next
  case by_main
  from by_main(2) show ?thesis by (elim main_stepE stop_stepE) simp_all
next
  case by_http
  from by_http(2) show ?thesis
    by cases (auto dest!: kept [OF keeps_handle [unfolded handle_of_def]])
qed (simp_all add: Enqueue_def)

lemma no_work_panic:
  assumes "coherent K s" "i < length (sy_workers s)" "sy_workers s ! i = WWork q st"
    "run_state (work_of K (payload_of q) st) (sy_world s) = (Panic, w)"
  shows False
proof -
  have "fit st" using assms(1-3) by (auto simp: coherent_def)
  from stages.run_workD(3) [OF this assms(4)] show False by simp
qed

lemma worker_agreed:
  assumes "worker_step K i s s'" "i < length (sy_workers s)" "agreed (jobs (ext (sy_world s))) (sy_workers s) (sy_logged s)"
    "coherent K s"
  shows "agreed (jobs (ext (sy_world s'))) (sy_workers s') (sy_logged s')"
  using assms(1)
proof cases
  case (work q st st' w)
  then show ?thesis
    using agreed_stage [OF assms(3,2) work(2) work_moves [OF work(3)]] by simp
next
  case (worked q st r w)
  then show ?thesis
    using agreed_stage [OF assms(3,2) worked(2) work_moves [OF worked(3)]] by simp
next
  case (settle q r u w)
  have "jobs (ext w) = jobs (ext (sy_world s))" by (rule kept [OF keeps_acknowledge settle(3)])
  moreover have "truthful (jobs (ext (sy_world s))) (payload_of q) r"
    using assms(2,3) settle(2) unfolding agreed_def by (metis holds.simps(2) nth_mem)
  ultimately show ?thesis using settle(1) agreed_update [OF assms(3) _ _ assms(2), of "WReturn q r"] by simp
next
  case (result q r)
  have "truthful (jobs (ext (sy_world s))) (payload_of q) r"
    using assms(2,3) result(2) unfolding agreed_def by (metis holds.simps(3) nth_mem)
  then show ?thesis
    using result(1) agreed_update [OF assms(3) _ _ assms(2), of WIdle] by (auto simp: agreed_def)
next
  case (work_panic q st w)
  then show ?thesis using no_work_panic assms(2,4) by blast
qed (use assms(3) agreed_update [OF assms(3) _ _ assms(2)] in auto)

text \<open>What one step of the program does to the table, when all agree.\<close>

lemma step_table:
  assumes "system_step K s s'" "agreed (jobs (ext (sy_world s))) (sy_workers s) (sy_logged s)" "coherent K s"
  shows "agreed (jobs (ext (sy_world s'))) (sy_workers s') (sy_logged s') \<and>
    table_step (in_hand s) (jobs (ext (sy_world s))) (jobs (ext (sy_world s')))"
proof (cases "\<exists>i < length (sy_workers s). worker_step K i s s'")
  case True
  then obtain i where i: "i < length (sy_workers s)" "worker_step K i s s'" by blast
  have mine: "in_hand s k" if "sy_workers s ! i = v" "hand v = Some k" for v k
    using that i(1) by (auto simp: in_hand_def)
  have own: "holds (jobs (ext (sy_world s))) v" if "sy_workers s ! i = v" for v
    using that i(1) assms(2) unfolding agreed_def by (metis nth_mem)
  from i(2) have "table_step (in_hand s) (jobs (ext (sy_world s))) (jobs (ext (sy_world s')))"
  proof cases
    case (work q st st' w)
    then show ?thesis using stage_table_step [OF work_moves [OF work(3)] own mine] by simp
  next
    case (worked q st r w)
    then show ?thesis using stage_table_step [OF work_moves [OF worked(3)] own mine] by simp
  next
    case (work_panic q st w)
    then show ?thesis using no_work_panic assms(3) i(1) by blast
  next
    case (settle q r u w)
    then show ?thesis using kept [OF keeps_acknowledge settle(3)] by (simp add: table_step_refl)
  qed (simp_all add: table_step_refl)
  then show ?thesis using worker_agreed [OF i(2,1) assms(2,3)] by blast
next
  case False
  then show ?thesis using outside_worker [OF assms(1)] assms(2) by (simp add: table_step_refl)
qed

lemma agreed_reachable:
  assumes "reachable K (started K w c) s"
  shows "agreed (jobs (ext (sy_world s))) (sy_workers s) (sy_logged s)"
  using assms
proof induction
  case start
  then show ?case by (simp add: agreed_def started_def)
next
  case (more s s')
  then show ?case using step_table coherent_reachable [OF stages.stage_contract_axioms] by blast
qed

lemma reachable_table_step:
  assumes "reachable K (started K w c) s" "system_step K s s'"
  shows "table_step (in_hand s) (jobs (ext (sy_world s))) (jobs (ext (sy_world s')))"
  using step_table [OF assms(2) agreed_reachable [OF assms(1)] coherent_reachable [OF stages.stage_contract_axioms assms(1)]] by blast

text \<open>A worker takes only new jobs in hand.\<close>

lemma not_in_hand_step:
  assumes "system_step K s s'" "\<not> in_hand s i" "jobs (ext (sy_world s)) i = Some r"
  shows "\<not> in_hand s' i"
proof (cases "\<exists>k < length (sy_workers s). worker_step K k s s'")
  case True
  then obtain k where k: "k < length (sy_workers s)" "worker_step K k s s'" by blast
  have old: "hand (sy_workers s ! k) \<noteq> Some i" using assms(2) k(1) by (simp add: in_hand_def)
  have upd: "\<not> in_hand s' i" if "sy_workers s' = (sy_workers s)[k := v]" "hand v \<noteq> Some i" for v
    using that assms(2) by (auto simp: in_hand_def dest!: set_update_subset_insert [THEN subsetD])
  from k(2) show ?thesis
  proof cases
    case (work q st st' w)
    then show ?thesis using stage_moves_hand [OF work_moves [OF work(3)]] old assms(3) upd [of "after q (Inl st')"] by force
  next
    case (worked q st r w)
    then show ?thesis using upd [of "WAck q r"] by simp
  next
    case (settle q r u w)
    then show ?thesis using upd [of "WReturn q r"] by simp
  next
    case (recv q qs)
    then show ?thesis using upd [of "WWork q Begin"] by simp
  next
    case (result q r)
    then show ?thesis using upd [of WIdle] by simp
  next
    case exit
    then show ?thesis using upd [of WExit] by simp
  qed (use assms(2) in \<open>simp_all add: in_hand_def\<close>)
next
  case False
  then show ?thesis using outside_worker [OF assms(1)] assms(2) by (simp add: in_hand_def)
qed

lemma row_stays:
  assumes "reachable K s s'" "reachable K (started K w c) s" "\<not> in_hand s i" "jobs (ext (sy_world s)) i = Some r"
  shows "reachable K (started K w c) s' \<and> \<not> in_hand s' i \<and> jobs (ext (sy_world s')) i = Some r"
  using assms(1)
proof induction
  case start
  then show ?case using assms(2-4) by blast
next
  case (more s1 s2)
  then have "table_step (in_hand s1) (jobs (ext (sy_world s1))) (jobs (ext (sy_world s2)))"
    using reachable_table_step by blast
  then show ?case
    using more not_in_hand_step [OF more(2)] reachable.more [of K "started K w c" s1 s2] unfolding table_step_def by blast
qed

lemma finished_not_in_hand:
  assumes "reachable K (started K w c) s" "jobs (ext (sy_world s)) i = Some r" "job_Status r \<in> {JobStatusCompleted, JobStatusFailed}"
  shows "\<not> in_hand s i"
proof
  assume "in_hand s i"
  then obtain v where v: "v \<in> set (sy_workers s)" "hand v = Some i" by (auto simp: in_hand_def)
  obtain q st where st: "v = WWork q st" using v(2) by (cases v rule: wstate.exhaust) auto
  have "holds (jobs (ext (sy_world s))) v" using agreed_reachable [OF assms(1)] v(1) by (simp add: agreed_def)
  then show False using st v(2) assms(2,3) statuses_open [of st] by (auto simp: row_with_def)
qed

end


section \<open>What is acknowledged\<close>

text \<open>With a processor and errors that have a text, a result without an error is that of a completed job.\<close>

definition honest :: "job_worker_result \<Rightarrow> bool" where
  "honest r \<longleftrightarrow> (res_Error r = '''' \<longrightarrow> completed r)"

fun speaks :: "wstate \<Rightarrow> bool" where
  "speaks (WWork q st) \<longleftrightarrow> (\<forall>j e. st = Failing j e \<longrightarrow> err_text e \<noteq> '''')"
| "speaks (WAck q r) \<longleftrightarrow> honest r"
| "speaks (WReturn q r) \<longleftrightarrow> honest r"
| "speaks _ \<longleftrightarrow> True"

lemma worded_pipeline: "worded (pipeline T E M p job)"
  unfolding pipeline_def Let_def
  by (intro worded_deref worded_attempt worded_wrap worded_deferring worded_bind worded_ret)
     (auto split: res.splits)

context built_program
begin

lemma work_speaks:
  assumes "run_state (work_of K b st) w = (Ok x, w')" "speaking (cf_lib K) G" "Enabled (mg_Processor (cf_manager K))"
    "speaks (WWork q st)"
  shows "speaks (after q x)"
proof (cases st)
  case Begin
  have c: "val (CreatePendingJob (cf_lib K) (gorm_service (cf_lib K) G) vid out) w = Err e \<Longrightarrow> err_text e \<noteq> ''''" for vid out w e
    by (rule wordedD [OF worded_CreatePendingJob [OF assms(2)]])
  show ?thesis
    using assms(1,3) Begin c parse_Err_text [of b]
    by (auto simp: work_of_def stage_step_def pool_sel Let_def split_beta honest_def split: res.splits if_splits)
next
  case (Marking j)
  have "worded (wrap ''mark processing: '' (MarkProcessing S i))" for S :: "'w job_service" and i by (rule worded_wrap) simp
  then show ?thesis
    using assms(1) Marking by (auto simp: work_of_def pool_sel run_Marking processor_sel Let_def worded_def split: res.splits)
next
  case (Rendering j)
  then show ?thesis
    using assms(1) wordedD [OF worded_pipeline] by (fastforce simp: work_of_def pool_sel run_Rendering split: res.splits)
next
  case (Completing j)
  have "worded (wrap ''processing succeeded but could not mark completed: '' (MarkCompleted S i))" for S :: "'w job_service" and i
    by (rule worded_wrap) simp
  then show ?thesis
    using assms(1) Completing
    by (auto simp: work_of_def pool_sel stage_step_def processor_sel Let_def split_beta worded_def honest_def completed_def
        split: res.splits)
next
  case (Failing j e)
  then show ?thesis
    using assms(1,4)
    by (auto simp: work_of_def pool_sel stage_step_def processor_sel Let_def split_beta honest_def split: res.splits)
qed

lemma worker_speaks:
  assumes "worker_step K i s s'" "i < length (sy_workers s)" "speaking (cf_lib K) G" "Enabled (mg_Processor (cf_manager K))"
    "(\<forall>v \<in> set (sy_workers s). speaks v) \<and> (\<forall>(q, r) \<in> set (sy_logged s). honest r)"
  shows "(\<forall>v \<in> set (sy_workers s'). speaks v) \<and> (\<forall>(q, r) \<in> set (sy_logged s'). honest r)"
proof -
  have own: "speaks v" if "sy_workers s ! i = v" for v using that assms(2,5) by auto
  have upd: "\<forall>u \<in> set ((sy_workers s)[i := v]). speaks u" if "speaks v" for v
    using that assms(5) by (auto dest!: set_update_subset_insert [THEN subsetD])
  from assms(1) show ?thesis
  proof cases
    case (work q st st' w)
    then show ?thesis using work_speaks [OF work(3) assms(3,4) own [OF work(2)]] upd [of "WWork q st'"] assms(5) by simp
  next
    case (worked q st r w)
    then show ?thesis using work_speaks [OF worked(3) assms(3,4) own [OF worked(2)]] upd [of "WAck q r"] assms(5) by simp
  next
    case (settle q r u w)
    then show ?thesis using own [OF settle(2)] upd [of "WReturn q r"] assms(5) by simp
  next
    case (result q r)
    then show ?thesis using own [OF result(2)] upd [of WIdle] assms(5) by auto
  next
    case (recv q qs)
    then show ?thesis using upd [of "WWork q Begin"] assms(5) by simp
  next
    case exit
    then show ?thesis using upd [of WExit] assms(5) by simp
  qed (use assms(5) in simp_all)
qed

end


text \<open>The invariant of the whole program.\<close>

context separate_program
begin

lemma honest_reachable:
  assumes "reachable K (started K w c) s" "speaking (cf_lib K) G" "Enabled (mg_Processor (cf_manager K))"
  shows "(\<forall>v \<in> set (sy_workers s). speaks v) \<and> (\<forall>(q, r) \<in> set (sy_logged s). honest r)"
  using assms(1)
proof induction
  case start
  then show ?case by (simp add: started_def)
next
  case (more s s')
  show ?case
  proof (cases "\<exists>i < length (sy_workers s). worker_step K i s s'")
    case True
    then show ?thesis using worker_speaks [OF _ _ assms(2,3) more(3)] by blast
  next
    case False
    then show ?thesis using outside_worker [OF more(2)] more(3) by simp
  qed
qed

end

text \<open>The stages of a payload run in a row are one of the ways the program can take.\<close>

lemma run_stages_reachable:
  assumes "run_state (run_stages (work_of K (payload_of q)) n st) (sy_world s) = (Ok r, w)" "reachable K s0 s"
    "sy_workers s ! i = WWork q st" "i < length (sy_workers s)" "\<not> sy_panic s"
  shows "reachable K s0 (s\<lparr>sy_world := w, sy_workers := (sy_workers s)[i := WAck q r]\<rparr>)"
  using assms
proof (induction n arbitrary: st s)
  case 0
  then show ?case by simp
next
  case (Suc n)
  obtain x w1 where x: "run_state (work_of K (payload_of q) st) (sy_world s) = (x, w1)" by fastforce
  note step = reachable.more [OF Suc.prems(2) system_step.by_worker [OF Suc.prems(5,4)]]
  consider st' where "x = Ok (Inl st')" "run_state (run_stages (work_of K (payload_of q)) n st') w1 = (Ok r, w)"
    | "x = Ok (Inr r)" "w1 = w"
    using Suc.prems(1) x by (auto split: res.splits sum.splits)
  then show ?case
  proof cases
    case (1 st')
    let ?s = "s\<lparr>sy_world := w1, sy_workers := (sy_workers s)[i := WWork q st']\<rparr>"
    have "reachable K s0 ?s" using step worker_step.work [OF Suc.prems(3)] x 1(1) by blast
    from Suc.IH [OF _ this, of st'] 1(2) Suc.prems(4,5) show ?thesis by simp
  next
    case 2
    then show ?thesis using step worker_step.worked [OF Suc.prems(3)] x by blast
  qed
qed


section \<open>A concrete life\<close>

lemma separate_programI:
  assumes "store_contract G jobs videos (cf_lib K)" "0 < rt_numcpu (cf_runtime K)" "built K G" "beside_contract K jobs"
  shows "separate_program G jobs videos K"
  using assms by (simp add: separate_program_def built_program_def)

interpretation demo_separate: separate_program mem_gorm mem_job mem_video demo_config
  by (rule separate_programI)
     (simp_all add: demo_contracts demo_beside.beside_contract_axioms, simp_all add: demo_config_def mem.store_contract_axioms)

lemma demo_job_contracts:
  "store_contract mem_gorm mem_job mem_video (cf_lib demo_config)" "0 < rt_numcpu (cf_runtime demo_config)"
  "built demo_config mem_gorm" "beside_contract demo_config mem_job"
  by (simp_all add: demo_contracts demo_beside.beside_contract_axioms)
     (simp_all add: demo_config_def mem.store_contract_axioms)

text \<open>A life that starts with one job in the table and ends.\<close>

lemma demo_life:
  "\<exists>s. reachable demo_config (started demo_config (beside (demo_run_world [])) demo_client) s \<and> sy_main s = Finished"
  "mem_job (ext (beside (demo_run_world []))) i = Some r \<longleftrightarrow> i = demo_job_id \<and> r = row_of demo_job"
  by (rule Finished_reachable [OF built_contract [OF demo_contracts]]) (auto simp: demo_run_world_def mem_job_def)

text \<open>A life in which a payload is processed and its result logged.\<close>

definition demo_busy :: "apiworld system" where
  "demo_busy = (let s = started demo_config (beside demo_world) demo_client in
     s\<lparr>sy_accepted := [Local demo_payload], sy_workers := (sy_workers s)[0 := WWork (Local demo_payload) Begin]\<rparr>)"

lemma demo_busy:
  "reachable demo_config (started demo_config (beside demo_world) demo_client) demo_busy" "\<not> sy_panic demo_busy"
  "sy_workers demo_busy ! 0 = WWork (Local demo_payload) Begin" "0 < length (sy_workers demo_busy)"
  "sy_world demo_busy = beside demo_world"
proof -
  let ?s = "started demo_config (beside demo_world) demo_client"
  have n: "0 < length (sy_workers ?s)" "0 < nat (mg_Workers (cf_manager demo_config))"
    using demo_program.some_worker by (simp_all add: started_def)
  let ?e = "Enqueue demo_payload ?s"
  have e: "reachable demo_config ?s ?e"
    using n by (intro reachable.more [OF reachable.start] system_step.by_Enqueue) (simp_all add: started_def can_send_def)
  have sel: "sy_workers ?e ! 0 = WIdle" "sy_buf ?e = [Local demo_payload]" "\<not> sy_panic ?e" "0 < length (sy_workers ?e)"
    using n by (simp_all add: Enqueue_def started_def)
  have "demo_busy = ?e\<lparr>sy_buf := [], sy_workers := (sy_workers ?e)[0 := WWork (Local demo_payload) Begin]\<rparr>"
    by (simp add: demo_busy_def Enqueue_def send_def started_def)
  with reachable.more [OF e system_step.by_worker [OF sel(3,4) worker_step.recv [OF sel(1,2)]]]
  show "reachable demo_config ?s demo_busy" by simp
  show "\<not> sy_panic demo_busy" "sy_workers demo_busy ! 0 = WWork (Local demo_payload) Begin" "0 < length (sy_workers demo_busy)"
    "sy_world demo_busy = beside demo_world"
    using n by (simp_all add: demo_busy_def started_def)
qed

lemma demo_busy_create:
  "val (CreatePendingJob mem_lib (gorm_service mem_lib mem_gorm) demo_id ''out'') (beside demo_world) =
     Ok (demo_job\<lparr>job_OutputBucketPath := ''out'', job_CreatedAt := 100, job_UpdatedAt := 101\<rparr>)"
  "mem_faults (ext (post (CreatePendingJob mem_lib (gorm_service mem_lib mem_gorm) demo_id ''out'') (beside demo_world))) = []"
  "mm_faults (ext (post (CreatePendingJob mem_lib (gorm_service mem_lib mem_gorm) demo_id ''out'') (beside demo_world))) = []"
  "mm_tree (ext (post (CreatePendingJob mem_lib (gorm_service mem_lib mem_gorm) demo_id ''out'') (beside demo_world))) = Inr demo_tree"
  "\<exists>r. mem_job (ext (post (CreatePendingJob mem_lib (gorm_service mem_lib mem_gorm) demo_id ''out'') (beside demo_world))) demo_job_id = Some r"
  by (simp_all add: beside_def memworld.defs demo_create_defs mem_put_def)

lemma demo_enabled: "Enabled (mg_Processor (cf_manager demo_config))"
  by (simp add: demo_program.pool_sel Enabled_def NewProcessorFromEnv_def) (simp add: demo_config_def demo_env_def)

lemma demo_speaking: "speaking (cf_lib demo_config) (mem_gorm :: apiworld gorm)"
  by (auto simp: demo_config_def speaking_def mem_lib_def mem_gorm_def faulty_def mem_down_def Let_def split: if_splits)

lemma demo_logged:
  "\<exists>s r. reachable demo_config (started demo_config (beside demo_world) demo_client) s \<and>
     (Local demo_payload, r) \<in> set (sy_logged s) \<and> res_Error r = ''''"
proof -
  let ?P = "NewProcessorFromEnv demo_env (Some (gorm_service mem_lib mem_gorm)) :: apiworld processor"
  let ?j = "demo_job\<lparr>job_OutputBucketPath := ''out'', job_CreatedAt := 100, job_UpdatedAt := 101\<rparr>"
  let ?w1 = "post (CreatePendingJob mem_lib (gorm_service mem_lib mem_gorm) demo_id ''out'') (beside demo_world)"
  have en: "Enabled (Some ?P)" by (simp add: Enabled_def NewProcessorFromEnv_def demo_env_def)
  have "val (Processor_Run mem_runtime demo_env mem_media ?P (Some ?j)) ?w1 = Ok ()"
  proof -
    obtain r where "mem_job (ext ?w1) demo_job_id = Some r" using demo_busy_create(5) by blast
    then show ?thesis
      using demo_busy_create(2-4) by (intro mem_Run_Ok [where v = demo_video and r = r]) (simp_all add: NewProcessorFromEnv_def)
  qed
  then obtain r w where r: "run_state (processPayload mem_lib mem_runtime demo_env mem_media demo_payload
      (Some (gorm_service mem_lib mem_gorm)) (Some ?P)) (beside demo_world) = (Ok r, w)" "res_Error r = ''''"
    using en by (simp add: processPayload_def Let_def demo_payload_parse demo_busy_create(1) split_beta)
  have work: "work_of demo_config = stage_step mem_lib mem_runtime demo_env mem_media (Some (gorm_service mem_lib mem_gorm)) (Some ?P)"
    unfolding work_of_def demo_program.pool_sel by (simp add: demo_config_def)
  let ?s = "demo_busy\<lparr>sy_world := w, sy_workers := (sy_workers demo_busy)[0 := WAck (Local demo_payload) r]\<rparr>"
  have ack: "reachable demo_config (started demo_config (beside demo_world) demo_client) ?s"
  proof (rule run_stages_reachable [OF _ demo_busy(1,3,4,2)])
    show "run_state (run_stages (work_of demo_config (payload_of (Local demo_payload))) (stages_left Begin) Begin)
        (sy_world demo_busy) = (Ok r, w)"
      using r(1) by (simp only: work payload_of.simps run_stages_Begin demo_busy(5))
  qed
  let ?s2 = "?s\<lparr>sy_panic := False, sy_workers := (sy_workers ?s)[0 := WReturn (Local demo_payload) r]\<rparr>"
  have "run_state (acknowledge (message_of (cf_amqp demo_config) (Local demo_payload)) r) w = (Ok (), w)"
    by (simp add: acknowledge_def message_of_def)
  then have "worker_step demo_config 0 ?s ?s2"
    using worker_step.settle [of ?s 0 "Local demo_payload" r demo_config "Ok ()" w] demo_busy(2,4) by simp
  then have ret: "reachable demo_config (started demo_config (beside demo_world) demo_client) ?s2"
    using reachable.more [OF ack system_step.by_worker [where i = 0]] demo_busy(2,4) by simp
  let ?s3 = "?s2\<lparr>sy_logged := sy_logged ?s2 @ [(Local demo_payload, r)], sy_workers := (sy_workers ?s2)[0 := WIdle]\<rparr>"
  have "worker_step demo_config 0 ?s2 ?s3"
    using demo_busy(4) by (intro worker_step.result) (simp_all add: demo_busy_def started_def)
  then have "reachable demo_config (started demo_config (beside demo_world) demo_client) ?s3"
    using reachable.more [OF ret system_step.by_worker [where i = 0]] demo_busy(2,4) by simp
  then show ?thesis using r(2) by (intro exI [of _ ?s3] exI [of _ r]) simp
qed

section \<open>Properties\<close>

text \<open>
  C7: The status of a job follows its state machine under every interleaving of the workers. In each step
  of the running program a row is either left alone or in the hands of one worker, and then its
  status goes from pending to processing, from processing to completed, or from one of these two to
  failed, with the error set only then; its video and output path stay. Rows only appear as
  pending ones under their own id, and no two workers ever have the same job.
\<close>

theorem job_status_machine:
  assumes store: "store_contract G jobs videos (cf_lib K)" and cpu: "0 < rt_numcpu (cf_runtime K)" and built: "built K G"
    and beside: "beside_contract K jobs"
    and run: "reachable K (started K w c) s" and step: "system_step K s s'"
  shows "(\<forall>i r. jobs (ext (sy_world s)) i = Some r \<longrightarrow> jobs (ext (sy_world s')) i = Some r \<or>
       in_hand s i \<and> (\<exists>r'. jobs (ext (sy_world s')) i = Some r' \<and> row_moves r r')) \<and>
    (\<forall>i r. jobs (ext (sy_world s)) i = None \<longrightarrow> jobs (ext (sy_world s')) i = Some r \<longrightarrow>
       job_ID r = i \<and> job_Status r = JobStatusPending \<and> job_Error r = '''') \<and>
    (\<forall>i < length (sy_workers s). \<forall>k < length (sy_workers s). i \<noteq> k \<longrightarrow>
       hand (sy_workers s ! i) = None \<or> hand (sy_workers s ! i) \<noteq> hand (sy_workers s ! k))"
proof -
  note program = separate_programI [OF store cpu built beside]
  show ?thesis
    using separate_program.reachable_table_step [OF program run step] separate_program.agreed_reachable [OF program run]
    by (simp add: table_step_def agreed_def)
qed

theorem job_status_machine_witness:
  "\<exists>s r. mem_job (ext (sy_world demo_busy)) demo_job_id = None \<and> system_step demo_config demo_busy s \<and>
     mem_job (ext (sy_world s)) demo_job_id = Some r \<and> job_Status r = ''Pending''"
proof -
  let ?st = "stage_step mem_lib mem_runtime demo_env mem_media (Some (gorm_service mem_lib mem_gorm))
      (Some (NewProcessorFromEnv demo_env (Some (gorm_service mem_lib mem_gorm)) :: apiworld processor)) demo_payload Begin"
  let ?w1 = "post (CreatePendingJob mem_lib (gorm_service mem_lib mem_gorm) demo_id ''out'') (beside demo_world)"
  have en: "Enabled (Some (NewProcessorFromEnv demo_env (Some (gorm_service mem_lib mem_gorm)) :: apiworld processor))"
    by (simp add: Enabled_def NewProcessorFromEnv_def demo_env_def)
  have work: "work_of demo_config demo_payload Begin = ?st"
    unfolding work_of_def demo_program.pool_sel by (simp add: demo_config_def)
  obtain st' where "run_state ?st (beside demo_world) = (Ok (Inl st'), ?w1)"
    using en by (simp add: stage_step_def Let_def demo_payload_parse demo_busy_create(1) split_beta)
  then have step: "system_step demo_config demo_busy (demo_busy\<lparr>sy_world := ?w1,
      sy_workers := (sy_workers demo_busy)[0 := WWork (Local demo_payload) st']\<rparr>)" (is "system_step _ _ ?s")
    by (intro system_step.by_worker [OF demo_busy(2,4)] worker_step.work [OF demo_busy(3)]) (simp add: work demo_busy(5))
  obtain r where r: "mem_job (ext (sy_world ?s)) demo_job_id = Some r" using demo_busy_create(5) by auto
  have "mem_job (ext (sy_world demo_busy)) demo_job_id = None" by (simp add: demo_busy(5) mem_job_def demo_defs)
  with job_status_machine [OF demo_job_contracts demo_busy(1) step] r step show ?thesis
    by (auto simp: JobStatusPending_def)
qed

text \<open>
  C25: A row that no worker has in hand is never changed again, and so is every completed or failed one: it
  is the same in every later state of the program, whatever the workers, the consumer and the HTTP
  server do in between. A worker writes only to the job of its own message, which is new.
\<close>

theorem job_rows_permanent:
  assumes store: "store_contract G jobs videos (cf_lib K)" and cpu: "0 < rt_numcpu (cf_runtime K)" and built: "built K G"
    and beside: "beside_contract K jobs"
    and start: "reachable K (started K w c) s" and run: "reachable K s s'" and row: "jobs (ext (sy_world s)) i = Some r"
    and free: "\<not> in_hand s i \<or> job_Status r \<in> {JobStatusCompleted, JobStatusFailed}"
  shows "jobs (ext (sy_world s')) i = Some r"
proof -
  note program = separate_programI [OF store cpu built beside]
  have "\<not> in_hand s i" using free separate_program.finished_not_in_hand [OF program start row] by blast
  then show ?thesis using separate_program.row_stays [OF program run start _ row] by blast
qed

theorem job_rows_permanent_witness:
  "\<exists>s. reachable demo_config (started demo_config (beside (demo_run_world [])) demo_client) s \<and> sy_main s = Finished \<and>
     mem_job (ext (sy_world s)) demo_job_id = Some (row_of demo_job)"
proof -
  let ?s = "started demo_config (beside (demo_run_world [])) demo_client"
  obtain s where s: "reachable demo_config ?s s" "sy_main s = Finished" using demo_life(1) by blast
  have "mem_job (ext (sy_world ?s)) demo_job_id = Some (row_of demo_job)" "\<not> in_hand ?s demo_job_id"
    using demo_life(2) by (simp_all add: started_def in_hand_def)
  with job_rows_permanent [OF demo_job_contracts reachable.start s(1)] s show ?thesis by blast
qed

text \<open>
  C26: The jobs table is well formed throughout the life of the program. If every row is well formed at the
  start, then every row is in every state the goroutines can reach: stored under its own id, with
  one of the four statuses, and with an error only when it is failed.
\<close>

theorem job_rows_proper:
  assumes store: "store_contract G jobs videos (cf_lib K)" and cpu: "0 < rt_numcpu (cf_runtime K)" and built: "built K G"
    and beside: "beside_contract K jobs"
    and init: "\<And>i r. jobs (ext w) i = Some r \<Longrightarrow> proper_row i r"
    and run: "reachable K (started K w c) s" and row: "jobs (ext (sy_world s)) i = Some r"
  shows "proper_row i r"
  using run row
proof (induction arbitrary: i r)
  case start
  then show ?case using init by (simp add: started_def)
next
  case (more s s')
  note step = separate_program.reachable_table_step [OF separate_programI [OF store cpu built beside] more(1,2)]
  show ?case
  proof (cases "jobs (ext (sy_world s)) i")
    case None
    then show ?thesis using step more.prems by (simp add: table_step_def proper_row_def)
  next
    case (Some r0)
    then have "r = r0 \<or> row_moves r0 r" using step more.prems unfolding table_step_def by fastforce
    then show ?thesis using more.IH [OF Some] proper_moves by blast
  qed
qed

theorem job_rows_proper_witness:
  "\<exists>s. reachable demo_config (started demo_config (beside (demo_run_world [])) demo_client) s \<and> sy_main s = Finished \<and>
     (\<forall>i r. mem_job (ext (sy_world s)) i = Some r \<longrightarrow> proper_row i r)"
proof -
  obtain s where s: "reachable demo_config (started demo_config (beside (demo_run_world [])) demo_client) s" "sy_main s = Finished"
    using demo_life(1) by blast
  have "proper_row i r" if "mem_job (ext (beside (demo_run_world []))) i = Some r" for i r
    using that demo_life(2) by (simp add: proper_row_def demo_job_def)
  from job_rows_proper [OF demo_job_contracts this s(1)] s
  show ?thesis by blast
qed

text \<open>
  C6: What is acknowledged is done, and stays done. When the processor is enabled, then in every state the
  program can reach, every message whose result has been logged without an error, which is when its
  delivery has been acknowledged, has its row in the jobs table, completed and without an error, with
  the video and the output path of the message, however the other workers have run in between.
\<close>

theorem acknowledged_stays_completed:
  assumes store: "store_contract G jobs videos (cf_lib K)" and cpu: "0 < rt_numcpu (cf_runtime K)" and built: "built K G"
    and beside: "beside_contract K jobs" and speak: "speaking (cf_lib K) G" and enabled: "Enabled (mg_Processor (cf_manager K))"
    and run: "reachable K (started K w c) s" and logged: "(q, r) \<in> set (sy_logged s)" and ack: "res_Error r = ''''"
  shows "\<exists>m j row. parseJobWorkerMessage (payload_of q) = Ok m \<and> res_Job r = Some j \<and>
    jobs (ext (sy_world s)) (job_ID j) = Some row \<and> job_Status row = JobStatusCompleted \<and> job_Error row = '''' \<and>
    job_VideoID row = jwm_VideoID m \<and> job_OutputBucketPath row = jwm_OutputBucketPath m"
proof -
  note program = separate_programI [OF store cpu built beside]
  have "truthful (jobs (ext (sy_world s))) (payload_of q) r"
    using separate_program.agreed_reachable [OF program run] logged by (auto simp: agreed_def)
  moreover have "completed r"
    using separate_program.honest_reachable [OF program run speak enabled] logged ack by (auto simp: honest_def)
  moreover have "JobStatusCompleted \<noteq> JobStatusFailed" by (simp add: status_defs)
  ultimately show ?thesis by (fastforce simp: completed_def truthful_def row_with_def for_message_def)
qed

theorem acknowledged_stays_completed_witness:
  "\<exists>s (j :: job) row. reachable demo_config (started demo_config (beside demo_world) demo_client) s \<and>
     mem_job (ext (sy_world s)) (job_ID j) = Some row \<and> job_Status row = ''Completed'' \<and> job_VideoID row = demo_id"
proof -
  obtain s r where s: "reachable demo_config (started demo_config (beside demo_world) demo_client) s"
      "(Local demo_payload, r) \<in> set (sy_logged s)" "res_Error r = ''''"
    using demo_logged by blast
  obtain m and j :: job and row where "parseJobWorkerMessage demo_payload = Ok m" "job_Status row = ''Completed''"
      "mem_job (ext (sy_world s)) (job_ID j) = Some row" "job_VideoID row = jwm_VideoID m"
    using acknowledged_stays_completed [OF demo_job_contracts demo_speaking demo_enabled s]
    unfolding payload_of.simps JobStatusCompleted_def by blast
  then show ?thesis using s(1) demo_payload_parse by (intro exI [of _ s] exI [of _ j] exI [of _ row]) auto
qed

end
