(* ===== verification/Requests.thy ===== *)
theory Requests
  imports Lifecycle
begin

text \<open>
  The HTTP requests over the whole life of the program: every request accepted is in progress or answered
  once, and the jobs the API has accepted are those the publisher has put on the queue.
\<close>

section \<open>The accounts of requests\<close>

definition served :: "'w system \<Rightarrow> bool" where
  "served s \<longleftrightarrow> mset (sy_asked s) = mset (sy_requests s) + mset (map fst (sy_answered s)) \<and>
     (\<forall>(r, a)\<in>set (sy_answered s). well_answered r a)"

lemma served_started: "served (started K w c)"
  by (simp add: served_def started_def)

lemma mset_remove_nth: "i < length xs \<Longrightarrow> mset xs = mset (take i xs @ drop (Suc i) xs) + {#xs ! i#}"
  by (subst id_take_nth_drop) (simp_all del: append_take_drop_id)

lemma served_http:
  assumes "handler_contract (handle_of K) (job_body (cf_api K))" "served s" "http_step K s s'"
  shows "served s'"
  using assms(3)
proof cases
  case (request r)
  then show ?thesis using assms(2) by (simp add: served_def)
next
  case (answer i a w)
  then have "well_answered (sy_requests s ! i) a"
    using handler_contract.run_handleD(2) [OF assms(1)] by (simp add: handle_of_def)
  then show ?thesis
    using answer assms(2) mset_remove_nth [OF answer(2)] by (simp add: served_def)
qed

text \<open>No other goroutine touches the requests.\<close>

definition same_requests :: "'w system \<Rightarrow> 'w system \<Rightarrow> bool" where
  "same_requests s s' \<longleftrightarrow> sy_requests s' = sy_requests s \<and> sy_asked s' = sy_asked s \<and> sy_answered s' = sy_answered s"

lemma same_requests_steps:
  "consumer_step K s s' \<Longrightarrow> same_requests s s'"
  "worker_step K i s s' \<Longrightarrow> same_requests s s'"
  "main_step s s' \<Longrightarrow> same_requests s s'"
  by (auto simp: same_requests_def elim!: consumer_stepE worker_stepE main_stepE stop_stepE)

lemma served_step:
  assumes "handler_contract (handle_of K) (job_body (cf_api K))" "served s" "system_step K s s'"
  shows "served s'"
  using assms(3)
proof cases
  case by_http
  show ?thesis by (rule served_http [OF assms(1,2) by_http(2)])
qed (use assms(2) in \<open>auto simp: served_def Enqueue_def same_requests_def dest!: same_requests_steps\<close>)

lemma served_reachable:
  assumes "handler_contract (handle_of K) (job_body (cf_api K))" "reachable K (started K w c) s"
  shows "served s"
  using assms(2) by induction (auto intro: served_started served_step [OF assms(1)])


section \<open>Accepted jobs and the queue\<close>

text \<open>The messages of the job requests that were answered with 202.\<close>

definition accepted_bodies :: "'w config \<Rightarrow> 'w system \<Rightarrow> string list" where
  "accepted_bodies K s = map (\<lambda>(r, a). job_body (cf_api K) r) (filter (\<lambda>(r, a). job_accepted r a) (sy_answered s))"

definition queued_as_accepted :: "'w config \<Rightarrow> 'w world \<Rightarrow> 'w system \<Rightarrow> bool" where
  "queued_as_accepted K w s \<longleftrightarrow> sent (log (sy_world s)) = sent (log w) @ accepted_bodies K s \<and>
     (\<forall>b\<in>set (accepted_bodies K s). \<exists>m. b = marshal (jwm_members m) \<and> parseJobWorkerMessage b = Ok m)"

lemma sent_kept: "emits quiet m \<Longrightarrow> run_state m w = (r, w') \<Longrightarrow> sent (log w') = sent (log w)"
  by (metis emits_sent snd_conv)

lemma emits_settle_mute: "sent (log (post (acknowledge (message_of A q) r) w)) = sent (log w)"
  "sent (log (post (ack_Nack (deliveryAck A d) b) w)) = sent (log w)"
  by (cases q, auto simp: acknowledge_def message_of_def deliveryAck_def exec_simps sent_def split: option.split)

lemma sent_acknowledge: "run_state (acknowledge (message_of A q) r) w = (u, w') \<Longrightarrow> sent (log w') = sent (log w)"
  "run_state (ack_Nack (deliveryAck A d) b) w = (v, w') \<Longrightarrow> sent (log w') = sent (log w)"
  by (metis emits_settle_mute snd_conv)+

lemma sent_same: "sent (log (sy_world s')) = sent (log (sy_world s)) \<Longrightarrow> sy_answered s' = sy_answered s \<Longrightarrow>
    queued_as_accepted K w s \<Longrightarrow> queued_as_accepted K w s'"
  by (simp add: queued_as_accepted_def accepted_bodies_def)

lemma sent_consumer: "consumer_step K s s' \<Longrightarrow> sent (log (sy_world s')) = sent (log (sy_world s))"
  by (elim consumer_stepE)
     (simp_all add: sent_kept [OF emits_client_calls(3)] sent_kept [OF emits_reconnect] sent_acknowledge)

lemma sent_worker:
  assumes "stage_contract (work_of K)" "worker_step K i s s'"
  shows "sent (log (sy_world s')) = sent (log (sy_world s))"
  using assms(2)
  by cases (simp_all add: sent_acknowledge stage_contract.run_work_log(2) [OF assms(1)])

lemma queued_http:
  assumes "handler_contract (handle_of K) (job_body (cf_api K))" "queued_as_accepted K w s" "http_step K s s'"
  shows "queued_as_accepted K w s'"
  using assms(3)
proof cases
  case (request r)
  then show ?thesis using assms(2) by (simp add: queued_as_accepted_def accepted_bodies_def)
next
  case (answer i a w')
  note handler_contract.run_handleD(3,4) [OF assms(1) answer(3) [folded handle_of_def]]
  then show ?thesis using answer(1) assms(2) by (auto simp: queued_as_accepted_def accepted_bodies_def)
qed

lemma queued_step:
  assumes "stage_contract (work_of K)" "handler_contract (handle_of K) (job_body (cf_api K))"
    "queued_as_accepted K w s" "system_step K s s'"
  shows "queued_as_accepted K w s'"
  using assms(4)
proof cases
  case by_consumer
  from sent_consumer [OF by_consumer(2)] same_requests_steps(1) [OF by_consumer(2)] show ?thesis
    by (intro sent_same [OF _ _ assms(3)]) (simp_all add: same_requests_def)
next
  case (by_worker i)
  from sent_worker [OF assms(1) by_worker(3)] same_requests_steps(2) [OF by_worker(3)] show ?thesis
    by (intro sent_same [OF _ _ assms(3)]) (simp_all add: same_requests_def)
next
  case by_main
  then have "sy_world s' = sy_world s" by (auto elim!: main_stepE stop_stepE)
  with same_requests_steps(3) [OF by_main(2)] show ?thesis
    by (intro sent_same [OF _ _ assms(3)]) (simp_all add: same_requests_def)
next
  case by_http
  show ?thesis by (rule queued_http [OF assms(2,3) by_http(2)])
qed (use assms(3) in \<open>simp_all add: queued_as_accepted_def accepted_bodies_def Enqueue_def\<close>)

lemma queued_reachable:
  assumes "stage_contract (work_of K)" "handler_contract (handle_of K) (job_body (cf_api K))"
    "reachable K (started K w c) s"
  shows "queued_as_accepted K w s"
  using assms(3)
proof induction
  case start
  show ?case by (simp add: queued_as_accepted_def accepted_bodies_def started_def)
next
  case (more s s')
  show ?case by (rule queued_step [OF assms(1,2) more(3,2)])
qed


section \<open>A run with one request\<close>

text \<open>A request for a job of the stored video, answered while the program serves.\<close>

lemma reachable_http:
  "reachable K s0 s \<Longrightarrow> \<not> sy_panic s \<Longrightarrow> http_step K s s' \<Longrightarrow> reachable K s0 s'"
  by (rule reachable.more) (auto intro: system_step.by_http)

lemma demo_accepted:
  "\<exists>rw. val (Handler demo_api (cf_server demo_config) (\<lambda>t w. w) demo_job_request) (beside (failing [])) = Ok (rw, 202)"
  "creates_job demo_job_request"
  "job_body demo_api demo_job_request = marshal [(''video_id'', demo_id), (''output_bucket_path'', ''out/1'')]"
proof -
  have world: "beside (failing []) = api_world"
    by (simp add: beside_def failing_def demo_world_def demo_ext_def api_world_def)
  have mux: "mux_choose routes ''POST'' ''/jobs'' = Handle CreateJob None" by code_simp
  have r: "demo_job_request\<lparr>rq_id := ''''\<rparr> = demo_job_request" "rq_Method demo_job_request = ''POST''"
      "rq_Path demo_job_request = ''/jobs''"
    by (simp_all add: demo_job_request_def post_request_def)
  obtain w' where w': "val (handleCreateJob demo_api demo_server demo_job_request fresh) api_world = Ok w'"
    "sent_status w' = 202" using demo_enqueued by blast
  have "answers {202, 400, 404, 413, 500, 502} (handleCreateJob demo_api demo_server demo_job_request fresh)"
    unfolding demo_server_def by (rule answers_CreateJob)
  then have "answered {202, 400, 404, 413, 500, 502} w'"
    using w'(1) unfolding answers_def by (metis res.inject(1))
  then have "rec_status w' = 202" using w'(2) by (simp add: answered_def)
  moreover have "handleCreateJob demo_api (cf_server demo_config) r w = handleCreateJob demo_api demo_server r w" for r w
  proof -
    have "sv_videos (cf_server demo_config) = sv_videos demo_server"
      "sv_publisher (cf_server demo_config) = sv_publisher demo_server"
      by (simp_all add: demo_config_def demo_server_def main_server_def put_aw_def [abs_def])
    then show ?thesis unfolding handleCreateJob_def by presburger
  qed
  ultimately show "\<exists>rw. val (Handler demo_api (cf_server demo_config) (\<lambda>t w. w) demo_job_request) (beside (failing [])) = Ok (rw, 202)"
    using w'(1) by (simp add: world Handler_def logRequests_def serve_def r mux fresh_def [symmetric] split_beta)
  show "creates_job demo_job_request" using mux by (auto simp: creates_job_def r)
  show "job_body demo_api demo_job_request = marshal [(''video_id'', demo_id), (''output_bucket_path'', ''out/1'')]"
    unfolding job_body_def demo_job_request_read by (simp add: demo_trim jwm_members_def)
qed

lemma demo_answered:
  "\<exists>s rw. reachable demo_config demo_start s \<and> sy_requests s = [] \<and> sy_answered s = [(demo_job_request, Ok (rw, 202))]"
proof -
  let ?s0 = demo_start
  let ?s1 = "?s0\<lparr>sy_requests := [demo_job_request], sy_asked := [demo_job_request]\<rparr>"
  obtain rw w where a: "run_state (Handler (cf_api demo_config) (cf_server demo_config) (cf_pages demo_config) demo_job_request)
      (sy_world ?s1) = (Ok (rw, 202), w)"
    using demo_accepted(1) by (simp add: demo_config_def demo_start_def started_def) (metis prod.collapse)
  have s0: "sy_main ?s0 = Serving" "\<not> sy_panic ?s0" "sy_requests ?s0 = []" "sy_asked ?s0 = []" "sy_answered ?s0 = []"
    by (simp_all add: demo_start_def started_def)
  have r1: "reachable demo_config ?s0 ?s1"
    using http_step.request [of ?s0 demo_config demo_job_request] s0
    by (intro reachable_http [OF reachable.start]) (simp_all add: less_phase_def)
  let ?s2 = "?s1\<lparr>sy_world := w, sy_requests := [], sy_answered := [(demo_job_request, Ok (rw, 202))]\<rparr>"
  have r2: "reachable demo_config ?s0 ?s2"
    using http_step.answer [of 0 ?s1 demo_config "Ok (rw, 202)" w] a s0 by (intro reachable_http [OF r1]) simp_all
  show ?thesis using r2 by (intro exI [of _ ?s2] exI [of _ rw]) simp
qed


section \<open>Properties\<close>



text \<open>
  C1: The queue holds the jobs the API accepted, no more and no fewer. In every reachable state the messages
  that were published with success since the start are those of the job requests answered with 202,
  one for each and in that order; nothing else in the program publishes; and the worker's parser
  reads from each the fields of its request.
\<close>

theorem accepted_jobs_are_queued:
  assumes cpu: "0 < rt_numcpu (cf_runtime K)"
    and built: "built K G" and run: "reachable K (started K w c) s"
  shows "sent (log (sy_world s)) = sent (log w) @ accepted_bodies K s \<and>
    (\<forall>b\<in>set (accepted_bodies K s). \<exists>m. b = marshal (jwm_members m) \<and> parseJobWorkerMessage b = Ok m)"
  using queued_reachable [OF built_contract(1,3) [OF cpu built] run] by (simp add: queued_as_accepted_def)

theorem accepted_jobs_are_queued_witness:
  "\<exists>s. reachable demo_config demo_start s \<and>
     sent (log (sy_world s)) = [marshal [(''video_id'', demo_id), (''output_bucket_path'', ''out/1'')]]"
proof -
  obtain s rw where s: "reachable demo_config demo_start s" "sy_answered s = [(demo_job_request, Ok (rw, 202))]"
    using demo_answered by blast
  have "job_accepted demo_job_request (Ok (rw, 202))" by (simp add: job_accepted_def demo_accepted(2))
  moreover have "cf_api demo_config = demo_api" by (simp add: demo_config_def)
  ultimately have "accepted_bodies demo_config s = [marshal [(''video_id'', demo_id), (''output_bucket_path'', ''out/1'')]]"
    by (simp add: accepted_bodies_def s(2) demo_accepted(3))
  moreover have "sent (log (beside (failing []))) = []" by (simp add: failing_def demo_world_def)
  ultimately show ?thesis
    using accepted_jobs_are_queued [OF demo_contracts s(1) [unfolded demo_start_def]] s(1) by auto
qed

end
