(* ===== verification/Spec2Isabelle.thy ===== *)
theory Spec2Isabelle
  imports Bootstrap Job_Life Requests
begin

text \<open>
  A verification development of the queue-based video encoding service.

  \<^bold>\<open>The program.\<close> One process serves an HTTP control plane (\<^verbatim>\<open>internal/api\<close>): it registers source
  videos and enqueues encode jobs, as JSON messages, onto a RabbitMQ queue through a publisher
  (\<^verbatim>\<open>internal/queue\<close>). A consumer in the same process (\<^verbatim>\<open>internal/job/manager.go\<close>) hands the
  deliveries to a pool of workers (\<^verbatim>\<open>internal/job/worker.go\<close>). A worker parses the message, creates a
  pending job (\<^verbatim>\<open>internal/job/service.go\<close> over \<^verbatim>\<open>internal/repositories\<close>) and, when buckets are
  configured, runs the media pipeline (\<^verbatim>\<open>internal/job/processor.go\<close>): download, fragment and encode
  (\<^verbatim>\<open>internal/video/service.go\<close>), upload (\<^verbatim>\<open>internal/upload/manager.go\<close>), clean-up. The message is
  acknowledged or dead-lettered by the result. \<^verbatim>\<open>cmd/main.go\<close> builds all of it over a database
  (\<^verbatim>\<open>internal/database\<close>) and tears it down.

  \<^bold>\<open>How it is modelled.\<close> Go code that calls the outside is a program of the state monad \<open>io\<close> over a
  \<open>world\<close>: the outside state, of any type, and the log of the calls made, each an \<open>event\<close> with its
  arguments and its answer. GORM, Cloud Storage, the disk, the external commands, the AMQP library,
  the database drivers, the clock, the UUID parser and the time zone are records of functions,
  arguments of the definitions that use them; what the code relies on is stated as locales
  (\<open>gorm_contract\<close>, \<open>store_contract\<close>, \<open>media_contract\<close>, \<open>amqp_contract\<close>, and the contracts of \<open>Outside\<close>) and shown
  to hold for concrete instances (\<open>Mem_Store\<close>, \<open>Mem_Media\<close>, \<open>Mem_Run\<close>), on which the witnesses run.
  Fallible code returns \<open>res\<close>: a value, a Go error, or a panic. Durations are 64-bit words. Strings are
  byte strings. The publisher, which \<^verbatim>\<open>main\<close> and the HTTP server share through a pointer, is a cell of
  the world.

  \<^bold>\<open>Theories, in the order of the imports.\<close>

  \<^item> \<open>Prelude\<close>: errors and \<^verbatim>\<open>errors.Is\<close>, outcomes, the state monad, and the rule collections for
    symbolic execution (\<open>exec_simps\<close>), possible calls (\<open>emit_rules\<close>), frames (\<open>keep_rules\<close>), absence of
    panics (\<open>safe_rules\<close>) and resource balance (\<open>balance_rules\<close>).
  \<^item> \<open>World\<close>: events, resources and the outside interfaces. \<open>Domain\<close>: \<^verbatim>\<open>domain/job.go\<close>,
    \<^verbatim>\<open>domain/video.go\<close>.
  \<^item> \<open>Repositories\<close>: \<^verbatim>\<open>internal/repositories\<close> over GORM, and the contracts that they keep for every
    GORM that keeps its own. \<open>Mem_Store\<close>: a database that does.
  \<^item> \<open>Job_Service\<close>: \<^verbatim>\<open>internal/job/service.go\<close>, with the contract of the status operations.
  \<^item> \<open>Go_Strings\<close>, \<open>Go_Path\<close>, \<open>Go_Time\<close>, \<open>Go_Utf8\<close>, \<open>Go_Json\<close>, \<open>Http\<close>: what the program uses of Go's
    \<^verbatim>\<open>strings\<close>, \<^verbatim>\<open>strconv\<close>, \<^verbatim>\<open>path\<close>, \<^verbatim>\<open>time\<close>, \<^verbatim>\<open>unicode/utf8\<close>, \<^verbatim>\<open>encoding/json\<close> and \<^verbatim>\<open>net/http\<close>.
  \<^item> \<open>Video_Service\<close>, \<open>Upload\<close>, \<open>Upload_Pool\<close>, \<open>Processor\<close>: the media pipeline, function by function.
    The pool of upload goroutines is a move system run under an arbitrary schedule.
  \<^item> \<open>Queue_Client\<close>: every method of \<^verbatim>\<open>queue.Client\<close>. The mutex makes each one atomic.
  \<^item> \<open>Worker\<close>: \<^verbatim>\<open>JobWorker\<close> and its parts. \<open>Stages\<close>: the processing of one payload cut into stages, between
    which other goroutines may run, and that the stages in a row are \<^verbatim>\<open>processPayload\<close>.
  \<^item> \<open>Api\<close>: \<^verbatim>\<open>internal/api\<close>, all handlers, the router and the request log; \<open>Api_Spec\<close>: what they promise.
  \<^item> \<open>Database\<close>: \<^verbatim>\<open>internal/database/db.go\<close>. \<open>Http_Server\<close>: the server \<^verbatim>\<open>main\<close> builds, with its readiness
    check, and what one request may call, answer and publish.
  \<^item> \<open>Manager\<close>: the consumer loop, the workers, the result logger, the stop function, the end of
    \<^verbatim>\<open>main\<close> and the HTTP server as step relations over one state of all goroutines (\<open>system\<close>), and their
    union \<open>system_step\<close>. \<open>Program\<close>: the contracts the goroutines need of a stage and of a request
    (\<open>stage_contract\<close>, \<open>handler_contract\<close>), kept by every program that \<^verbatim>\<open>main\<close> has built (\<open>built\<close>).
    \<open>Lifecycle\<close>: the invariants of the reachable states and the drain. \<open>Requests\<close>: the HTTP requests over
    the life of the program. \<open>Outside\<close>: which part of the world the outside calls leave alone.
  \<^item> \<open>Job_Table\<close>: the jobs table as an abstract data type, and what the service and one payload do to it.
    \<open>Job_Life\<close>: the jobs table over the life of the program, with the stages of the workers interleaved.
  \<^item> \<open>Bootstrap\<close>: configuration, start and clean-up of \<^verbatim>\<open>cmd/main.go\<close>.

  \<^bold>\<open>What is shown.\<close> Of the upload: every file once under every schedule, success exactly when no call
  failed, distinct object names, agreement with a sequential loop. Of the pipeline: the status writes, what a run leaves in the jobs
  table, the order of the stages, the release of every client, stream and file, the deadline on
  every call. Of the queue client: no connection leaked, at most one retry of a publish, the
  dead-letter topology. Of the worker: message round trip, rejection of bad payloads without
  effect, every delivery settled once, an acknowledged job is completed. Of the jobs table: each
  operation of the service refines one of the abstract table, a payload adds at most one row; and in
  every interleaving of the workers, the status of a job follows its state machine in the hands of
  one worker, a row that is in no hands never changes, and an acknowledged message keeps its
  completed row. Of the goroutines together: no panic, no deadlock, conservation of deliveries,
  a drain after a shutdown that is inevitable and bounded, the back-off of the reconnects, every HTTP
  request in progress or answered once, and every accepted job published once. Of the API: an accepted
  job is in the queue and readable by the worker, an accepted video is in the table, answers agree
  with the tables, the body limit. Of the start: configuration errors, one database, release of
  everything at the end, a truthful readiness probe.

  \<^bold>\<open>Bounds.\<close> The upload pool is a function that terminates by the measure \<open>budget\<close>, which every move
  lowers. The drain terminates by the measure \<open>to_do\<close>: after the join of the consumer at most five
  steps of \<^verbatim>\<open>main\<close> and the logger, fourteen per worker (for the message it has, one more from the
  channel, and its exit) and one per request in progress. \<open>run_stages\<close> runs the stages of a payload with
  fuel for the four there are (\<open>stages_left\<close>), which is proved enough by its equality with
  \<^verbatim>\<open>processPayload\<close>; no other fuel is used. Go's JSON scanner has its nesting bound of 10000. The
  request body is cut at \<open>maxBodyBytes\<close>. All other recursion is structural.

  \<^bold>\<open>What is not modelled.\<close> Log output. \<^verbatim>\<open>docs/docs.go\<close>: generated. In \<open>system\<close>, the media pipeline of one job
  and the handling of one HTTP request are one step each, so the outside calls of two pipelines do
  not interleave: of the files that two jobs of one video share on the disk the steps say nothing.
  So are the creation of a job and each status write, whose two or three database calls are not
  interleaved with those of others. Of \<^verbatim>\<open>net/http\<close>: percent escapes in paths and sockets; that a panic
  of a handler ends its request only and that \<^verbatim>\<open>Shutdown\<close> gives up after 15 seconds are choices of
  \<open>http_step\<close>. The pages of the Swagger UI are a parameter. Signals are the choice of \<open>main_step\<close> to
  leave its \<^verbatim>\<open>select\<close>. Tests are not modelled.
\<close>

end
